theory Spec2Isabelle
  imports Complex_Main "HOL-Library.Word"
begin

unbundle bit_operations_syntax

text \<open>
  A shallow embedding of the EdgeNPU software stack: the 64-bit instruction codec
  (\<^verbatim>\<open>npu_fw_inst.h\<close>), the layer compiler (\<^verbatim>\<open>npu_layer_exec.c\<close>), the firmware runtime
  (\<^verbatim>\<open>npu_runtime_fw.c\<close>) and, last, the parts of the host driver (\<^verbatim>\<open>npu_driver.c\<close>) and
  of the host runtime (\<^verbatim>\<open>npu_runtime.c\<close>) that implement the same operations. Machine
  integers are words of their C width; each
  counted loop is a recursive function over the C loop counter; a polling loop, which
  need not end, is an option-valued partial function whose value \<open>None\<close> means that it
  does not return.
\<close>

section \<open>Machine types\<close>

type_synonym u8 = "8 word"
type_synonym u16 = "16 word"
type_synonym u32 = "32 word"
type_synonym u64 = "64 word"

section \<open>Instruction codec (npu\_fw\_inst.h)\<close>

text \<open>
  An instruction is one 64-bit word: bits 63..56 opcode, 55..48 flags, 47..0 operands.
  The opcodes and flags below are the ones the layer compiler emits.
\<close>

definition OP_HALT :: u8 where "OP_HALT = 0x01"
definition OP_WAIT_DMA :: u8 where "OP_WAIT_DMA = 0x03"
definition OP_DMA_LOAD_W :: u8 where "OP_DMA_LOAD_W = 0x10"
definition OP_CLEAR_ACC :: u8 where "OP_CLEAR_ACC = 0x26"
definition OP_LOAD_WEIGHT :: u8 where "OP_LOAD_WEIGHT = 0x27"
definition OP_COMPUTE :: u8 where "OP_COMPUTE = 0x28"
definition OP_DRAIN :: u8 where "OP_DRAIN = 0x29"

definition FLAG_LAST :: u8 where "FLAG_LAST = push_bit 0 1"
definition FLAG_RELU :: u8 where "FLAG_RELU = push_bit 4 1"

text \<open>
  \<^verbatim>\<open>MAKE_INST(op, fl, ops)\<close>: the opcode and the flags are widened to 64 bits and
  shifted, the operand is masked to its low 48 bits.
\<close>

definition MAKE_INST :: "u8 \<Rightarrow> u8 \<Rightarrow> u64 \<Rightarrow> u64" where
  "MAKE_INST op fl ops =
     (push_bit 56 (ucast op) OR push_bit 48 (ucast fl)) OR (ops AND 0xFFFFFFFFFFFF)"

definition INST_HALT :: u64 where
  "INST_HALT = MAKE_INST OP_HALT FLAG_LAST 0"

definition INST_WAIT_DMA :: u64 where
  "INST_WAIT_DMA = MAKE_INST OP_WAIT_DMA 0 0"

definition INST_DMA_LOAD_W :: "u32 \<Rightarrow> u32 \<Rightarrow> u32 \<Rightarrow> u64" where
  "INST_DMA_LOAD_W src dst len =
     MAKE_INST OP_DMA_LOAD_W 0
       ((ucast src OR push_bit 24 (ucast dst)) OR push_bit 40 (ucast len))"

definition INST_CLEAR_ACC :: u64 where
  "INST_CLEAR_ACC = MAKE_INST OP_CLEAR_ACC 0 0"

definition INST_LOAD_WEIGHT :: "u32 \<Rightarrow> u32 \<Rightarrow> u64" where
  "INST_LOAD_WEIGHT a cnt =
     MAKE_INST OP_LOAD_WEIGHT 0 (ucast a OR push_bit 24 (ucast cnt))"

definition INST_COMPUTE :: "u8 \<Rightarrow> u64" where
  "INST_COMPUTE flags = MAKE_INST OP_COMPUTE flags 0"

definition INST_DRAIN :: "u32 \<Rightarrow> u64" where
  "INST_DRAIN a = MAKE_INST OP_DRAIN 0 (ucast a)"

text \<open>
  The decoder helpers read the bit-fields of \<^verbatim>\<open>npu_inst_t\<close>: \<^verbatim>\<open>operands : 48\<close> is
  allocated first (bits 47..0), then \<^verbatim>\<open>flags : 8\<close>, then \<^verbatim>\<open>opcode : 8\<close> (bits 63..56).
\<close>

definition inst_get_opcode :: "u64 \<Rightarrow> u8" where
  "inst_get_opcode inst = ucast (drop_bit 56 inst)"

definition inst_get_flags :: "u64 \<Rightarrow> u8" where
  "inst_get_flags inst = ucast (drop_bit 48 inst)"

definition inst_get_operands :: "u64 \<Rightarrow> u64" where
  "inst_get_operands inst = take_bit 48 inst"

subsection \<open>Round trip\<close>

lemma mask48_eq: "(0xFFFFFFFFFFFF :: u64) = mask 48"
  by (simp add: mask_eq_exp_minus_1)

lemma opcode_MAKE_INST [simp]: "inst_get_opcode (MAKE_INST op fl v) = op"
  unfolding inst_get_opcode_def MAKE_INST_def mask48_eq
  by (rule bit_word_eqI) (auto simp: bit_simps dest: bit_imp_le_length)

lemma flags_MAKE_INST [simp]: "inst_get_flags (MAKE_INST op fl v) = fl"
  unfolding inst_get_flags_def MAKE_INST_def mask48_eq
  by (rule bit_word_eqI) (auto simp: bit_simps dest: bit_imp_le_length)

lemma operands_MAKE_INST: "inst_get_operands (MAKE_INST op fl v) = v AND 0xFFFFFFFFFFFF"
  unfolding inst_get_operands_def MAKE_INST_def mask48_eq
  by (rule bit_word_eqI) (auto simp: bit_simps dest: bit_imp_le_length)

text \<open>
  Claim C1. For every 8-bit opcode, every 8-bit flags value and every 64-bit operand,
  decoding the instruction built by \<^verbatim>\<open>MAKE_INST\<close> gives back the opcode, the flags and
  the operand masked to its low 48 bits.
\<close>

theorem encode_decode_roundtrip:
  "inst_get_opcode (MAKE_INST op fl v) = op
   \<and> inst_get_flags (MAKE_INST op fl v) = fl
   \<and> inst_get_operands (MAKE_INST op fl v) = v AND 0xFFFFFFFFFFFF"
  unfolding inst_get_opcode_def inst_get_flags_def inst_get_operands_def
    MAKE_INST_def mask48_eq
  by (intro conjI; rule bit_word_eqI) (auto simp: bit_simps dest: bit_imp_le_length)

section \<open>Firmware types (npu\_fw\_types.h)\<close>

datatype fw_status_t =
    FW_OK | FW_ERROR | FW_ERROR_INVALID_PARAM | FW_ERROR_TIMEOUT | FW_ERROR_BUSY
  | FW_ERROR_HW_FAULT | FW_ERROR_DMA | FW_ERROR_OVERFLOW | FW_ERROR_INVALID_OP
  | FW_ERROR_NOT_READY

datatype npu_state_t =
    NPU_STATE_RESET | NPU_STATE_INIT | NPU_STATE_IDLE | NPU_STATE_LOADING
  | NPU_STATE_RUNNING | NPU_STATE_DRAINING | NPU_STATE_DONE | NPU_STATE_ERROR

datatype layer_type_t =
    LAYER_CONV2D | LAYER_DWCONV2D | LAYER_FC | LAYER_MAXPOOL | LAYER_AVGPOOL
  | LAYER_GLOBAL_AVGPOOL | LAYER_ADD | LAYER_CONCAT | LAYER_SOFTMAX | LAYER_BATCHNORM
  | LAYER_RESHAPE

datatype activation_type_t =
    ACT_NONE | ACT_RELU | ACT_RELU6 | ACT_SIGMOID | ACT_TANH | ACT_LEAKY_RELU
  | ACT_SWISH | ACT_GELU

fun layer_type_val :: "layer_type_t \<Rightarrow> u32" where
  "layer_type_val LAYER_CONV2D = 0"
| "layer_type_val LAYER_DWCONV2D = 1"
| "layer_type_val LAYER_FC = 2"
| "layer_type_val LAYER_MAXPOOL = 3"
| "layer_type_val LAYER_AVGPOOL = 4"
| "layer_type_val LAYER_GLOBAL_AVGPOOL = 5"
| "layer_type_val LAYER_ADD = 6"
| "layer_type_val LAYER_CONCAT = 7"
| "layer_type_val LAYER_SOFTMAX = 8"
| "layer_type_val LAYER_BATCHNORM = 9"
| "layer_type_val LAYER_RESHAPE = 10"

fun activation_val :: "activation_type_t \<Rightarrow> u32" where
  "activation_val ACT_NONE = 0"
| "activation_val ACT_RELU = 1"
| "activation_val ACT_RELU6 = 2"
| "activation_val ACT_SIGMOID = 3"
| "activation_val ACT_TANH = 4"
| "activation_val ACT_LEAKY_RELU = 5"
| "activation_val ACT_SWISH = 6"
| "activation_val ACT_GELU = 7"

record tensor_desc_t =
  addr :: u32
  dim_n :: u16
  dim_c :: u16
  dim_h :: u16
  dim_w :: u16
  dtype :: u8
  layout :: u8
  zero_point :: u8
  tensor_reserved :: u8
  scale :: u32

record layer_desc_t =
  layer_type :: layer_type_t
  activation :: activation_type_t
  input :: tensor_desc_t
  "output" :: tensor_desc_t
  weight :: tensor_desc_t
  bias :: tensor_desc_t
  kernel_h :: u8
  kernel_w :: u8
  stride_h :: u8
  stride_w :: u8
  pad_top :: u8
  pad_bottom :: u8
  pad_left :: u8
  pad_right :: u8
  dilation_h :: u8
  dilation_w :: u8
  groups :: u8
  layer_reserved :: u8
  pool_h :: u8
  pool_w :: u8
  pool_stride_h :: u8
  pool_stride_w :: u8
  output_scale :: u32
  output_zero_point :: u8
  weight_zero_point :: u8
  shift_bits :: u8
  round_mode :: u8


section \<open>Layer compiler (npu\_layer\_exec.c)\<close>

definition NPU_PE_ROWS :: u32 where "NPU_PE_ROWS = 16"
definition NPU_PE_COLS :: u32 where "NPU_PE_COLS = 16"

fun get_activation_flags :: "activation_type_t \<Rightarrow> u8" where
  "get_activation_flags ACT_RELU = FLAG_RELU"
| "get_activation_flags ACT_RELU6 = FLAG_RELU"
| "get_activation_flags _ = 0"

definition in_ch :: "layer_desc_t \<Rightarrow> u32" where "in_ch L = ucast (dim_c (input L))"
definition out_ch :: "layer_desc_t \<Rightarrow> u32" where "out_ch L = ucast (dim_c (output L))"
definition out_h :: "layer_desc_t \<Rightarrow> u32" where "out_h L = ucast (dim_h (output L))"
definition out_w :: "layer_desc_t \<Rightarrow> u32" where "out_w L = ucast (dim_w (output L))"
definition k_h :: "layer_desc_t \<Rightarrow> u32" where "k_h L = ucast (kernel_h L)"
definition k_w :: "layer_desc_t \<Rightarrow> u32" where "k_w L = ucast (kernel_w L)"

definition tile_oc :: u32 where "tile_oc = NPU_PE_COLS"
definition tile_ic :: u32 where "tile_ic = NPU_PE_ROWS"

definition oc_tiles :: "layer_desc_t \<Rightarrow> u32" where
  "oc_tiles L = (out_ch L + tile_oc - 1) div tile_oc"

definition ic_tiles :: "layer_desc_t \<Rightarrow> u32" where
  "ic_tiles L = (in_ch L + tile_ic - 1) div tile_ic"

definition emit :: "u64 list \<Rightarrow> u64 \<Rightarrow> u64 list" where
  "emit buf v = buf @ [v]"

definition oc_start :: "u32 \<Rightarrow> u32" where
  "oc_start oc_t = oc_t * tile_oc"

definition oc_end :: "layer_desc_t \<Rightarrow> u32 \<Rightarrow> u32" where
  "oc_end L oc_t =
     (if oc_start oc_t + tile_oc > out_ch L then out_ch L else oc_start oc_t + tile_oc)"

definition oc_count :: "layer_desc_t \<Rightarrow> u32 \<Rightarrow> u32" where
  "oc_count L oc_t = oc_end L oc_t - oc_start oc_t"

definition weight_offset :: "layer_desc_t \<Rightarrow> u32 \<Rightarrow> u32" where
  "weight_offset L oc_t = oc_start oc_t * in_ch L * k_h L * k_w L"

definition weight_size :: "layer_desc_t \<Rightarrow> u32 \<Rightarrow> u32" where
  "weight_size L oc_t = oc_count L oc_t * in_ch L * k_h L * k_w L"

definition out_offset :: "layer_desc_t \<Rightarrow> u32 \<Rightarrow> u32" where
  "out_offset L oc_t = oc_start oc_t * out_h L * out_w L"

definition compute_flags :: "layer_desc_t \<Rightarrow> u32 \<Rightarrow> u8" where
  "compute_flags L ic_t =
     (if ic_t = ic_tiles L - 1 then get_activation_flags (activation L) else 0)"

lemma word_loop_step: "(i :: 'a::len word) < n \<Longrightarrow> unat (i + 1) = Suc (unat i)"
proof -
  assume "i < n"
  then have "unat i < unat n" by (simp add: word_less_nat_alt)
  moreover have "unat n < 2 ^ LENGTH('a)" by (rule unsigned_less)
  ultimately have "unat i + 1 < 2 ^ LENGTH('a)" by linarith
  then have "unat i + unat (1 :: 'a word) < 2 ^ LENGTH('a)" by simp
  then have "unat (i + 1) = unat i + unat (1 :: 'a word)" by (simp only: unat_add_lem)
  then show ?thesis by simp
qed

lemma word_loop_measure:
  "(i :: 'a::len word) < n \<Longrightarrow> unat n - unat (i + 1) < unat n - unat i"
  using word_loop_step [of i n] by (simp add: word_less_nat_alt)

function ic_loop :: "layer_desc_t \<Rightarrow> u32 \<Rightarrow> u32 \<Rightarrow> u64 list \<Rightarrow> u64 list" where
  "ic_loop L cnt ic_t buf =
     (if ic_t < ic_tiles L then
        ic_loop L cnt (ic_t + 1)
          (emit (emit buf (INST_LOAD_WEIGHT 0 cnt)) (INST_COMPUTE (compute_flags L ic_t)))
      else buf)"
  by pat_completeness auto
termination
  by (relation "measure (\<lambda>(L, cnt, ic_t, buf). unat (ic_tiles L) - unat ic_t)")
    (auto simp: word_loop_measure)

declare ic_loop.simps [simp del]

definition oc_body :: "layer_desc_t \<Rightarrow> u32 \<Rightarrow> u64 list \<Rightarrow> u64 list" where
  "oc_body L oc_t buf =
     (let b1 = emit buf (INST_DMA_LOAD_W (addr (weight L) + weight_offset L oc_t) 0
                           (weight_size L oc_t));
          b2 = emit b1 INST_WAIT_DMA;
          b3 = ic_loop L (oc_count L oc_t) 0 b2;
          b4 = emit b3 (INST_DRAIN (addr (output L) + out_offset L oc_t))
      in if oc_t < oc_tiles L - 1 then emit b4 INST_CLEAR_ACC else b4)"

function oc_loop :: "layer_desc_t \<Rightarrow> u32 \<Rightarrow> u64 list \<Rightarrow> u64 list" where
  "oc_loop L oc_t buf =
     (if oc_t < oc_tiles L then oc_loop L (oc_t + 1) (oc_body L oc_t buf) else buf)"
  by pat_completeness auto
termination
  by (relation "measure (\<lambda>(L, oc_t, buf). unat (oc_tiles L) - unat oc_t)")
    (auto simp: word_loop_measure)

declare oc_loop.simps [simp del]

text \<open>
  \<open>conv_build\<close> is the sequence of the stores \<^verbatim>\<open>inst_buf[inst_idx++] = ...\<close> that
  \<^verbatim>\<open>npu_rt_exec_conv\<close> makes, in order: its k-th element is the value stored at index k.
  The array is \<^verbatim>\<open>uint64_t inst_buf[256]\<close>, so the sequence is the content of the array
  only while its length is at most \<open>CONV_INST_BUF_LEN\<close>.
\<close>

definition CONV_INST_BUF_LEN :: nat where "CONV_INST_BUF_LEN = 256"

definition conv_build :: "layer_desc_t \<Rightarrow> u64 list" where
  "conv_build L = emit (oc_loop L 0 (emit [] INST_CLEAR_ACC)) INST_HALT"

subsection \<open>Closed form\<close>

definition ic_group :: "layer_desc_t \<Rightarrow> u32 \<Rightarrow> nat \<Rightarrow> u64 list" where
  "ic_group L cnt t = [INST_LOAD_WEIGHT 0 cnt, INST_COMPUTE (compute_flags L (of_nat t))]"

definition oc_group :: "layer_desc_t \<Rightarrow> nat \<Rightarrow> u64 list" where
  "oc_group L g =
     [INST_DMA_LOAD_W (addr (weight L) + weight_offset L (of_nat g)) 0 (weight_size L (of_nat g)),
      INST_WAIT_DMA]
     @ concat (map (ic_group L (oc_count L (of_nat g))) [0 ..< unat (ic_tiles L)])
     @ [INST_DRAIN (addr (output L) + out_offset L (of_nat g))]
     @ (if Suc g < unat (oc_tiles L) then [INST_CLEAR_ACC] else [])"

lemma ic_loop_closed:
  "ic_loop L cnt ic_t buf
     = buf @ concat (map (ic_group L cnt) [unat ic_t ..< unat (ic_tiles L)])"
proof (induction L cnt ic_t buf rule: ic_loop.induct)
  case (1 L cnt ic_t buf)
  show ?case
  proof (cases "ic_t < ic_tiles L")
    case True
    then have lt: "unat ic_t < unat (ic_tiles L)" by (simp add: word_less_nat_alt)
    have "ic_loop L cnt ic_t buf
        = ic_loop L cnt (ic_t + 1)
            (emit (emit buf (INST_LOAD_WEIGHT 0 cnt)) (INST_COMPUTE (compute_flags L ic_t)))"
      using True by (subst ic_loop.simps) simp
    also have "\<dots> = ic_loop L cnt (ic_t + 1) (buf @ ic_group L cnt (unat ic_t))"
      by (simp add: emit_def ic_group_def)
    also have "\<dots> = (buf @ ic_group L cnt (unat ic_t))
        @ concat (map (ic_group L cnt) [Suc (unat ic_t) ..< unat (ic_tiles L)])"
      using "1.IH" [OF True] word_loop_step [OF True]
      by (simp add: emit_def ic_group_def [of L cnt "unat ic_t"])
    finally show ?thesis using lt by (simp add: upt_conv_Cons)
  next
    case False
    then have "\<not> unat ic_t < unat (ic_tiles L)" by (simp add: word_less_nat_alt)
    with False show ?thesis by (subst ic_loop.simps) simp
  qed
qed

lemma oc_last_test:
  assumes "oc_t < oc_tiles L"
  shows "(oc_t < oc_tiles L - 1) = (Suc (unat oc_t) < unat (oc_tiles L))"
proof -
  from assms have nz: "oc_tiles L \<noteq> 0" by auto
  then have "unat (oc_tiles L - 1) = unat (oc_tiles L) - 1" by (simp add: unat_minus_one)
  then show ?thesis using assms by (auto simp: word_less_nat_alt)
qed

lemma oc_body_closed:
  "oc_t < oc_tiles L \<Longrightarrow> oc_body L oc_t buf = buf @ oc_group L (unat oc_t)"
  by (simp add: oc_body_def Let_def emit_def oc_group_def ic_loop_closed oc_last_test)

lemma oc_loop_closed:
  "oc_loop L oc_t buf
     = buf @ concat (map (oc_group L) [unat oc_t ..< unat (oc_tiles L)])"
proof (induction L oc_t buf rule: oc_loop.induct)
  case (1 L oc_t buf)
  show ?case
  proof (cases "oc_t < oc_tiles L")
    case True
    then have lt: "unat oc_t < unat (oc_tiles L)" by (simp add: word_less_nat_alt)
    have "oc_loop L oc_t buf = oc_loop L (oc_t + 1) (oc_body L oc_t buf)"
      using True by (subst oc_loop.simps) simp
    also have "\<dots> = (buf @ oc_group L (unat oc_t))
        @ concat (map (oc_group L) [Suc (unat oc_t) ..< unat (oc_tiles L)])"
      using "1.IH" [OF True] word_loop_step [OF True] oc_body_closed [OF True]
      by simp
    finally show ?thesis using lt by (simp add: upt_conv_Cons)
  next
    case False
    then have "\<not> unat oc_t < unat (oc_tiles L)" by (simp add: word_less_nat_alt)
    with False show ?thesis by (subst oc_loop.simps) simp
  qed
qed

lemma conv_build_closed:
  "conv_build L
     = INST_CLEAR_ACC # concat (map (oc_group L) [0 ..< unat (oc_tiles L)]) @ [INST_HALT]"
  by (simp add: conv_build_def emit_def oc_loop_closed)

subsection \<open>Indexing a concatenation of blocks\<close>

lemma length_concat_uniform:
  "(\<And>g'. g' < g \<Longrightarrow> length (f g') = k) \<Longrightarrow> length (concat (map f [0 ..< g])) = g * k"
  by (induction g) simp_all

lemma concat_upt_split:
  "g < n \<Longrightarrow> concat (map f [0 ..< n])
     = concat (map f [0 ..< g]) @ f g @ concat (map f [Suc g ..< n])"
proof -
  assume "g < n"
  then have "[0 ..< n] = [0 ..< g] @ [g ..< n]"
    using upt_add_eq_append [of 0 g "n - g"] by simp
  also from \<open>g < n\<close> have "[g ..< n] = g # [Suc g ..< n]"
    by (rule upt_conv_Cons)
  finally show ?thesis by simp
qed

lemma nth_concat_block:
  assumes "g < n" and "\<And>g'. g' < g \<Longrightarrow> length (f g') = k" and "j < length (f g)"
  shows "concat (map f [0 ..< n]) ! (g * k + j) = f g ! j"
proof -
  have len: "length (concat (map f [0 ..< g])) = g * k"
    using assms(2) by (rule length_concat_uniform)
  show ?thesis
    using assms(3) by (simp add: concat_upt_split [OF assms(1)] nth_append len)
qed

lemma nth_concat_find:
  "i < length (concat (map f [0 ..< n])) \<Longrightarrow>
     \<exists>g j. g < n \<and> j < length (f g) \<and> i = length (concat (map f [0 ..< g])) + j
       \<and> concat (map f [0 ..< n]) ! i = f g ! j"
proof (induction n)
  case 0
  then show ?case by simp
next
  case (Suc n)
  let ?pre = "concat (map f [0 ..< n])"
  show ?case
  proof (cases "i < length ?pre")
    case True
    from Suc.IH [OF True] obtain g j where
      "g < n" "j < length (f g)" "i = length (concat (map f [0 ..< g])) + j"
      "?pre ! i = f g ! j" by blast
    with True show ?thesis
      by (intro exI [of _ g] exI [of _ j]) (simp add: nth_append)
  next
    case False
    with Suc.prems have "i - length ?pre < length (f n)" by simp
    with False show ?thesis
      by (intro exI [of _ n] exI [of _ "i - length ?pre"]) (simp add: nth_append)
  qed
qed

subsection \<open>Opcodes of the emitted instructions\<close>

lemma opcode_INST [simp]:
  "inst_get_opcode INST_CLEAR_ACC = OP_CLEAR_ACC"
  "inst_get_opcode INST_WAIT_DMA = OP_WAIT_DMA"
  "inst_get_opcode INST_HALT = OP_HALT"
  "inst_get_opcode (INST_DMA_LOAD_W src dst len) = OP_DMA_LOAD_W"
  "inst_get_opcode (INST_LOAD_WEIGHT a cnt) = OP_LOAD_WEIGHT"
  "inst_get_opcode (INST_COMPUTE fl) = OP_COMPUTE"
  "inst_get_opcode (INST_DRAIN a) = OP_DRAIN"
  by (simp_all add: INST_CLEAR_ACC_def INST_WAIT_DMA_def INST_HALT_def INST_DMA_LOAD_W_def
      INST_LOAD_WEIGHT_def INST_COMPUTE_def INST_DRAIN_def)

lemma flags_INST_COMPUTE [simp]: "inst_get_flags (INST_COMPUTE fl) = fl"
  by (simp add: INST_COMPUTE_def)

lemma OP_COMPUTE_distinct [simp]:
  "OP_CLEAR_ACC \<noteq> OP_COMPUTE" "OP_WAIT_DMA \<noteq> OP_COMPUTE" "OP_HALT \<noteq> OP_COMPUTE"
  "OP_DMA_LOAD_W \<noteq> OP_COMPUTE" "OP_LOAD_WEIGHT \<noteq> OP_COMPUTE" "OP_DRAIN \<noteq> OP_COMPUTE"
  by (simp_all add: OP_CLEAR_ACC_def OP_WAIT_DMA_def OP_HALT_def OP_DMA_LOAD_W_def
      OP_LOAD_WEIGHT_def OP_DRAIN_def OP_COMPUTE_def)

subsection \<open>Position of every compute instruction\<close>

definition compute_idx :: "layer_desc_t \<Rightarrow> nat \<Rightarrow> nat \<Rightarrow> nat" where
  "compute_idx L g t = 1 + g * (2 * unat (ic_tiles L) + 4) + 2 + 2 * t + 1"

lemma length_ic_groups:
  "length (concat (map (ic_group L cnt) [0 ..< m])) = m * 2"
  by (rule length_concat_uniform) (simp add: ic_group_def)

lemma length_oc_group:
  "length (oc_group L g)
     = 2 * unat (ic_tiles L) + 3 + (if Suc g < unat (oc_tiles L) then 1 else 0)"
  by (simp add: oc_group_def length_ic_groups)

lemma length_oc_groups:
  "g < unat (oc_tiles L) \<Longrightarrow>
     length (concat (map (oc_group L) [0 ..< g])) = g * (2 * unat (ic_tiles L) + 4)"
  by (rule length_concat_uniform) (simp add: length_oc_group)

lemma oc_group_compute:
  assumes "t < unat (ic_tiles L)"
  shows "oc_group L g ! (2 + 2 * t + 1) = INST_COMPUTE (compute_flags L (of_nat t))"
proof -
  let ?X = "concat (map (ic_group L (oc_count L (of_nat g))) [0 ..< unat (ic_tiles L)])"
  have "?X ! (t * 2 + 1) = ic_group L (oc_count L (of_nat g)) t ! 1"
    using assms by (intro nth_concat_block) (simp_all add: ic_group_def)
  moreover have "t * 2 + 1 < length ?X"
    using assms by (simp add: length_ic_groups)
  ultimately show ?thesis
    by (simp add: oc_group_def nth_append ic_group_def mult.commute)
qed

lemma conv_build_nth:
  assumes "g < unat (oc_tiles L)" and "j < length (oc_group L g)"
  shows "conv_build L ! (1 + g * (2 * unat (ic_tiles L) + 4) + j) = oc_group L g ! j"
proof -
  let ?k = "2 * unat (ic_tiles L) + 4"
  let ?B = "concat (map (oc_group L) [0 ..< unat (oc_tiles L)])"
  have blk: "?B ! (g * ?k + j) = oc_group L g ! j"
    using assms by (intro nth_concat_block) (simp_all add: length_oc_group)
  have "g * ?k + j < length ?B"
    using assms by (simp add: concat_upt_split [OF assms(1)] length_oc_groups)
  then show ?thesis
    using blk by (simp add: conv_build_closed nth_append)
qed

lemma compute_flags_of_nat:
  assumes "t < unat (ic_tiles L)"
  shows "compute_flags L (of_nat t)
           = (if Suc t = unat (ic_tiles L) then get_activation_flags (activation L) else 0)"
proof -
  from assms have nz: "ic_tiles L \<noteq> 0" by (auto simp: unat_eq_0)
  then have m1: "unat (ic_tiles L - 1) = unat (ic_tiles L) - 1" by (simp add: unat_minus_one)
  have "unat (ic_tiles L) < 2 ^ LENGTH(32)" by (rule unsigned_less)
  with assms have "t < 2 ^ LENGTH(32)" by linarith
  then have ut: "unat (of_nat t :: u32) = t" by (simp add: unat_of_nat)
  have "(of_nat t = ic_tiles L - 1) = (unat (of_nat t :: u32) = unat (ic_tiles L - 1))"
    by (simp add: word_unat_eq_iff)
  also have "\<dots> = (Suc t = unat (ic_tiles L))"
    using assms by (auto simp: ut m1)
  finally show ?thesis by (simp add: compute_flags_def)
qed

lemma conv_build_compute:
  assumes "g < unat (oc_tiles L)" and "t < unat (ic_tiles L)"
  shows "conv_build L ! compute_idx L g t
           = INST_COMPUTE (if Suc t = unat (ic_tiles L)
                           then get_activation_flags (activation L) else 0)"
proof -
  have "2 + 2 * t + 1 < length (oc_group L g)"
    using assms(2) by (simp add: length_oc_group)
  from conv_build_nth [OF assms(1) this] show ?thesis
    using oc_group_compute [OF assms(2), of g] compute_flags_of_nat [OF assms(2)]
    by (simp add: compute_idx_def add.assoc)
qed

lemma oc_group_opcode_compute:
  assumes "j < length (oc_group L g)"
    and "inst_get_opcode (oc_group L g ! j) = OP_COMPUTE"
  shows "\<exists>t < unat (ic_tiles L). j = 2 + 2 * t + 1"
proof -
  let ?m = "unat (ic_tiles L)"
  let ?X = "concat (map (ic_group L (oc_count L (of_nat g))) [0 ..< ?m])"
  have lenX: "length ?X = ?m * 2" by (rule length_ic_groups)
  consider "j < 2" | "2 \<le> j" "j - 2 < ?m * 2" | "?m * 2 \<le> j - 2" "2 \<le> j"
    by linarith
  then show ?thesis
  proof cases
    case 1
    then have "j = 0 \<or> j = 1" by auto
    with assms(2) show ?thesis by (auto simp: oc_group_def)
  next
    case 2
    define j' where "j' = j - 2"
    from 2 have j: "j = Suc (Suc j')" and j'lt: "j' < length ?X"
      by (simp_all add: j'_def lenX)
    from nth_concat_find [OF j'lt] obtain t r where
      t: "t < ?m" and r: "r < length (ic_group L (oc_count L (of_nat g)) t)"
      and pos: "j' = length (concat (map (ic_group L (oc_count L (of_nat g))) [0 ..< t])) + r"
      and val: "?X ! j' = ic_group L (oc_count L (of_nat g)) t ! r"
      by blast
    from pos have pos': "j' = t * 2 + r" by (simp add: length_ic_groups)
    have "oc_group L g ! j = ?X ! j'"
      unfolding j using j'lt by (simp add: oc_group_def nth_append)
    with val assms(2) have "inst_get_opcode (ic_group L (oc_count L (of_nat g)) t ! r) = OP_COMPUTE"
      by simp
    moreover from r have "r = 0 \<or> r = 1" by (auto simp: ic_group_def)
    ultimately have "r = 1" by (auto simp: ic_group_def)
    with pos' j t show ?thesis by (intro exI [of _ t]) simp
  next
    case 3
    define j' where "j' = j - 2 - ?m * 2"
    from 3 have j: "j = Suc (Suc (?m * 2 + j'))" by (simp add: j'_def)
    from assms(1) have j'lt: "j' < (if Suc g < unat (oc_tiles L) then 2 else 1)"
      unfolding j by (simp add: length_oc_group split: if_splits)
    have "oc_group L g ! j
        = ([INST_DRAIN (addr (output L) + out_offset L (of_nat g))]
           @ (if Suc g < unat (oc_tiles L) then [INST_CLEAR_ACC] else [])) ! j'"
      unfolding j by (simp add: oc_group_def nth_append lenX)
    with j'lt assms(2) show ?thesis
      by (auto simp: nth_Cons' split: if_splits)
  qed
qed

lemma conv_build_opcode_compute:
  assumes "i < length (conv_build L)"
    and "inst_get_opcode (conv_build L ! i) = OP_COMPUTE"
  shows "\<exists>g < unat (oc_tiles L). \<exists>t < unat (ic_tiles L). i = compute_idx L g t"
proof -
  let ?n = "unat (oc_tiles L)"
  let ?B = "concat (map (oc_group L) [0 ..< ?n])"
  have cb: "conv_build L = INST_CLEAR_ACC # ?B @ [INST_HALT]" by (rule conv_build_closed)
  have "i \<noteq> 0"
  proof
    assume "i = 0"
    with assms(2) show False by (simp add: cb)
  qed
  moreover have "i \<noteq> Suc (length ?B)"
  proof
    assume "i = Suc (length ?B)"
    with assms(2) show False by (simp add: cb nth_append)
  qed
  moreover from assms(1) have "i < Suc (Suc (length ?B))" by (simp add: cb)
  ultimately have i: "0 < i" "i - 1 < length ?B" by auto
  then have nth: "conv_build L ! i = ?B ! (i - 1)"
    by (simp add: cb nth_Cons' nth_append)
  from nth_concat_find [OF i(2)] obtain g j where
    g: "g < ?n" and j: "j < length (oc_group L g)"
    and pos: "i - 1 = length (concat (map (oc_group L) [0 ..< g])) + j"
    and val: "?B ! (i - 1) = oc_group L g ! j"
    by blast
  from val nth assms(2) have "inst_get_opcode (oc_group L g ! j) = OP_COMPUTE" by simp
  from oc_group_opcode_compute [OF j this] obtain t where
    t: "t < unat (ic_tiles L)" and jt: "j = 2 + 2 * t + 1" by blast
  from pos g have "i - 1 = g * (2 * unat (ic_tiles L) + 4) + j"
    by (simp add: length_oc_groups)
  with i(1) jt have "i = compute_idx L g t" by (simp add: compute_idx_def)
  with g t show ?thesis by blast
qed

subsection \<open>Number of stores into the instruction array\<close>

lemma length_conv_build:
  "length (conv_build L)
     = (if unat (oc_tiles L) = 0 then 2
        else 1 + unat (oc_tiles L) * (2 * unat (ic_tiles L) + 4))"
proof (cases "unat (oc_tiles L)")
  case 0
  then show ?thesis by (simp add: conv_build_closed)
next
  case (Suc n')
  then have g: "n' < unat (oc_tiles L)" by simp
  have "length (concat (map (oc_group L) [0 ..< Suc n']))
      = n' * (2 * unat (ic_tiles L) + 4) + (2 * unat (ic_tiles L) + 3)"
    using length_oc_groups [OF g] Suc by (simp add: length_oc_group)
  then show ?thesis using Suc by (simp add: conv_build_closed)
qed

lemma compute_idx_in_range:
  assumes "g < unat (oc_tiles L)" and "t < unat (ic_tiles L)"
  shows "compute_idx L g t < length (conv_build L)"
proof -
  let ?k = "2 * unat (ic_tiles L) + 4"
  from assms(1) have "Suc g * ?k \<le> unat (oc_tiles L) * ?k"
    by (intro mult_le_mono1) simp
  moreover from assms(2) have "compute_idx L g t < 1 + Suc g * ?k"
    by (simp add: compute_idx_def)
  ultimately show ?thesis using assms(1) by (simp add: length_conv_build)
qed

subsection \<open>The 32-by-32-channel convolution\<close>

definition example_tensor :: tensor_desc_t where
  "example_tensor = \<lparr>addr = 0x1000, dim_n = 1, dim_c = 32, dim_h = 8, dim_w = 8, dtype = 0,
     layout = 0, zero_point = 0, tensor_reserved = 0, scale = 1\<rparr>"

definition example_conv :: layer_desc_t where
  "example_conv = \<lparr>layer_type = LAYER_CONV2D, activation = ACT_RELU,
     input = example_tensor, output = example_tensor\<lparr>addr := 0x2000\<rparr>,
     weight = example_tensor\<lparr>addr := 0x3000, dim_n := 32, dim_h := 3, dim_w := 3\<rparr>,
     bias = example_tensor\<lparr>addr := 0x4000, dim_c := 32, dim_h := 1, dim_w := 1\<rparr>,
     kernel_h = 3, kernel_w = 3, stride_h = 1, stride_w = 1,
     pad_top = 1, pad_bottom = 1, pad_left = 1, pad_right = 1,
     dilation_h = 1, dilation_w = 1, groups = 1, layer_reserved = 0,
     pool_h = 0, pool_w = 0, pool_stride_h = 0, pool_stride_w = 0,
     output_scale = 1, output_zero_point = 0, weight_zero_point = 0,
     shift_bits = 0, round_mode = 0\<rparr>"

lemma tiles_32:
  assumes "dim_c (output L) = 32" and "dim_c (input L) = 32"
  shows "oc_tiles L = 2" and "ic_tiles L = 2"
  using assms
  by (simp_all add: oc_tiles_def ic_tiles_def out_ch_def in_ch_def tile_oc_def tile_ic_def
      NPU_PE_COLS_def NPU_PE_ROWS_def)

lemma upt_0_2: "[0 ..< 2] = [0, Suc 0]"
  by (simp add: numeral_2_eq_2)

text \<open>
  Claim C2. For a convolution descriptor with 32 output channels and 32 input channels
  (PE array 16 by 16), the instruction sequence built by \<^verbatim>\<open>npu_rt_exec_conv\<close> is, in
  order: the initial clear-accumulator; for each of the 2 output-channel tiles a
  weight-DMA load, a DMA wait, 2 load-weight/compute pairs and a drain, with one
  clear-accumulator between the two tiles; and a final halt. That is 2 DMA-load/wait
  pairs, 4 load-weight/compute pairs, 2 drains, 2 clear-accumulators and 1 halt:
  17 instructions.
\<close>

theorem conv_32x32_sequence:
  assumes "dim_c (output L) = 32" and "dim_c (input L) = 32"
  shows "conv_build L =
      [INST_CLEAR_ACC,
       INST_DMA_LOAD_W (addr (weight L)) 0 (16 * 32 * k_h L * k_w L), INST_WAIT_DMA,
       INST_LOAD_WEIGHT 0 16, INST_COMPUTE 0,
       INST_LOAD_WEIGHT 0 16, INST_COMPUTE (get_activation_flags (activation L)),
       INST_DRAIN (addr (output L)),
       INST_CLEAR_ACC,
       INST_DMA_LOAD_W (addr (weight L) + 16 * 32 * k_h L * k_w L) 0 (16 * 32 * k_h L * k_w L),
       INST_WAIT_DMA,
       INST_LOAD_WEIGHT 0 16, INST_COMPUTE 0,
       INST_LOAD_WEIGHT 0 16, INST_COMPUTE (get_activation_flags (activation L)),
       INST_DRAIN (addr (output L) + 16 * out_h L * out_w L),
       INST_HALT]
    \<and> map inst_get_opcode (conv_build L) =
      [OP_CLEAR_ACC,
       OP_DMA_LOAD_W, OP_WAIT_DMA, OP_LOAD_WEIGHT, OP_COMPUTE, OP_LOAD_WEIGHT, OP_COMPUTE,
       OP_DRAIN, OP_CLEAR_ACC,
       OP_DMA_LOAD_W, OP_WAIT_DMA, OP_LOAD_WEIGHT, OP_COMPUTE, OP_LOAD_WEIGHT, OP_COMPUTE,
       OP_DRAIN,
       OP_HALT]
    \<and> length (conv_build L) = 17"
proof -
  have oc: "out_ch L = 32" and ic: "in_ch L = 32"
    using assms by (simp_all add: out_ch_def in_ch_def)
  have g0: "oc_group L 0 =
      [INST_DMA_LOAD_W (addr (weight L)) 0 (16 * 32 * k_h L * k_w L), INST_WAIT_DMA,
       INST_LOAD_WEIGHT 0 16, INST_COMPUTE 0,
       INST_LOAD_WEIGHT 0 16, INST_COMPUTE (get_activation_flags (activation L)),
       INST_DRAIN (addr (output L)), INST_CLEAR_ACC]"
    by (simp add: oc_group_def tiles_32 [OF assms] upt_0_2 ic_group_def compute_flags_def
        weight_offset_def weight_size_def out_offset_def oc_count_def oc_end_def oc_start_def
        tile_oc_def NPU_PE_COLS_def oc ic)
  have g1: "oc_group L (Suc 0) =
      [INST_DMA_LOAD_W (addr (weight L) + 16 * 32 * k_h L * k_w L) 0 (16 * 32 * k_h L * k_w L),
       INST_WAIT_DMA,
       INST_LOAD_WEIGHT 0 16, INST_COMPUTE 0,
       INST_LOAD_WEIGHT 0 16, INST_COMPUTE (get_activation_flags (activation L)),
       INST_DRAIN (addr (output L) + 16 * out_h L * out_w L)]"
    by (simp add: oc_group_def tiles_32 [OF assms] upt_0_2 ic_group_def compute_flags_def
        weight_offset_def weight_size_def out_offset_def oc_count_def oc_end_def oc_start_def
        tile_oc_def NPU_PE_COLS_def oc ic)
  have seq: "conv_build L = INST_CLEAR_ACC # oc_group L 0 @ oc_group L (Suc 0) @ [INST_HALT]"
    by (simp add: conv_build_closed tiles_32 [OF assms] upt_0_2)
  show ?thesis
    unfolding seq g0 g1 by simp
qed

theorem conv_32x32_sequence_witness:
  "dim_c (output example_conv) = 32 \<and> dim_c (input example_conv) = 32
   \<and> length (conv_build example_conv) = 17
   \<and> conv_build example_conv ! 1 = INST_DMA_LOAD_W 0x3000 0 4608
   \<and> conv_build example_conv ! 9 = INST_DMA_LOAD_W 0x4200 0 4608
   \<and> conv_build example_conv ! 15 = INST_DRAIN 0x2400"
proof -
  have a: "dim_c (output example_conv) = 32" and b: "dim_c (input example_conv) = 32"
    by (simp_all add: example_conv_def example_tensor_def)
  show ?thesis
    using conv_32x32_sequence [OF a b] a b
    by (simp add: example_conv_def example_tensor_def k_h_def k_w_def out_h_def out_w_def)
qed

text \<open>
  Claim C3. For every convolution descriptor whose activation is ReLU or ReLU6 and whose
  instruction sequence fits the 256-entry array: the instruction at index
  \<open>compute_idx L g t\<close> (input-channel tile \<open>t\<close> of output-channel tile \<open>g\<close>) is a compute
  instruction whose decoded flags field is \<open>FLAG_RELU\<close> (bit 4, value 16) when \<open>t\<close> is the
  last input-channel tile and 0 otherwise; every instruction with the compute opcode
  stands at such an index; so the decoded flags field of every compute instruction that
  is not the last one of an output-channel tile is 0.
\<close>

theorem relu_flag_on_last_ic_tile:
  assumes "activation L = ACT_RELU \<or> activation L = ACT_RELU6"
    and "length (conv_build L) \<le> CONV_INST_BUF_LEN"
  shows "(\<forall>g < unat (oc_tiles L). \<forall>t < unat (ic_tiles L).
            compute_idx L g t < length (conv_build L)
            \<and> inst_get_opcode (conv_build L ! compute_idx L g t) = OP_COMPUTE
            \<and> inst_get_flags (conv_build L ! compute_idx L g t)
                = (if Suc t = unat (ic_tiles L) then FLAG_RELU else 0))
       \<and> (\<forall>i < length (conv_build L).
            inst_get_opcode (conv_build L ! i) = OP_COMPUTE \<longrightarrow>
              (\<exists>g < unat (oc_tiles L). \<exists>t < unat (ic_tiles L). i = compute_idx L g t))
       \<and> (\<forall>i < length (conv_build L).
            inst_get_opcode (conv_build L ! i) = OP_COMPUTE
            \<and> (\<forall>g < unat (oc_tiles L). i \<noteq> compute_idx L g (unat (ic_tiles L) - 1)) \<longrightarrow>
              inst_get_flags (conv_build L ! i) = 0)
       \<and> FLAG_RELU = 16"
proof -
  from assms(1) have fl: "get_activation_flags (activation L) = FLAG_RELU" by auto
  have at: "conv_build L ! compute_idx L g t
              = INST_COMPUTE (if Suc t = unat (ic_tiles L) then FLAG_RELU else 0)"
    if "g < unat (oc_tiles L)" "t < unat (ic_tiles L)" for g t
    using conv_build_compute [OF that] by (simp add: fl)
  have at': "compute_idx L g t < length (conv_build L)
      \<and> inst_get_opcode (conv_build L ! compute_idx L g t) = OP_COMPUTE
      \<and> inst_get_flags (conv_build L ! compute_idx L g t)
          = (if Suc t = unat (ic_tiles L) then FLAG_RELU else 0)"
    if "g < unat (oc_tiles L)" "t < unat (ic_tiles L)" for g t
    using at [OF that] compute_idx_in_range [OF that] by simp
  have other: "inst_get_flags (conv_build L ! i) = 0"
    if i: "i < length (conv_build L)" "inst_get_opcode (conv_build L ! i) = OP_COMPUTE"
      and nl: "\<forall>g < unat (oc_tiles L). i \<noteq> compute_idx L g (unat (ic_tiles L) - 1)" for i
  proof -
    from conv_build_opcode_compute [OF i] obtain g t where
      gt: "g < unat (oc_tiles L)" "t < unat (ic_tiles L)" "i = compute_idx L g t" by blast
    with nl have "t \<noteq> unat (ic_tiles L) - 1" by blast
    with gt(2) have "Suc t \<noteq> unat (ic_tiles L)" by auto
    with at [OF gt(1,2)] gt(3) show ?thesis by simp
  qed
  have "FLAG_RELU = 16" by (simp add: FLAG_RELU_def)
  then show ?thesis
    using at' conv_build_opcode_compute other by blast
qed

theorem relu_flag_on_last_ic_tile_witness:
  "(activation example_conv = ACT_RELU \<or> activation example_conv = ACT_RELU6)
   \<and> length (conv_build example_conv) = 17 \<and> 17 \<le> CONV_INST_BUF_LEN
   \<and> inst_get_opcode (conv_build example_conv ! 4) = OP_COMPUTE
   \<and> inst_get_flags (conv_build example_conv ! 4) = 0
   \<and> inst_get_opcode (conv_build example_conv ! 6) = OP_COMPUTE
   \<and> inst_get_flags (conv_build example_conv ! 6) = 16
   \<and> inst_get_opcode (conv_build example_conv ! 12) = OP_COMPUTE
   \<and> inst_get_flags (conv_build example_conv ! 12) = 0
   \<and> inst_get_opcode (conv_build example_conv ! 14) = OP_COMPUTE
   \<and> inst_get_flags (conv_build example_conv ! 14) = 16"
proof -
  have a: "activation example_conv = ACT_RELU \<or> activation example_conv = ACT_RELU6"
    by (simp add: example_conv_def)
  have n: "unat (oc_tiles example_conv) = 2" and m: "unat (ic_tiles example_conv) = 2"
    by (simp_all add: tiles_32 example_conv_def example_tensor_def)
  have len: "length (conv_build example_conv) = 17"
    by (simp add: length_conv_build n m)
  then have b: "length (conv_build example_conv) \<le> CONV_INST_BUF_LEN"
    by (simp add: CONV_INST_BUF_LEN_def)
  from relu_flag_on_last_ic_tile [OF a b]
  have r: "\<And>g t. g < 2 \<Longrightarrow> t < 2 \<Longrightarrow>
      inst_get_opcode (conv_build example_conv ! compute_idx example_conv g t) = OP_COMPUTE
      \<and> inst_get_flags (conv_build example_conv ! compute_idx example_conv g t)
          = (if Suc t = 2 then 16 else 0)"
    by (simp add: n m)
  have "compute_idx example_conv 0 0 = 4" "compute_idx example_conv 0 1 = 6"
    "compute_idx example_conv 1 0 = 12" "compute_idx example_conv 1 1 = 14"
    by (simp_all add: compute_idx_def m)
  with r [of 0 0] r [of 0 1] r [of 1 0] r [of 1 1] a len show ?thesis
    by (simp add: CONV_INST_BUF_LEN_def)
qed

section \<open>Register map (npu\_fw\_regs.h)\<close>

definition NPU_BASE :: u32 where "NPU_BASE = 0x40000000"
definition NPU_WEIGHT_BUF_BASE :: u32 where "NPU_WEIGHT_BUF_BASE = 0x40200000"
definition NPU_ACT_BUF_BASE :: u32 where "NPU_ACT_BUF_BASE = 0x40300000"

definition REG_CTRL :: u32 where "REG_CTRL = NPU_BASE + 0x000"
definition REG_STATUS :: u32 where "REG_STATUS = NPU_BASE + 0x004"
definition REG_IRQ_EN :: u32 where "REG_IRQ_EN = NPU_BASE + 0x008"
definition REG_IRQ_STATUS :: u32 where "REG_IRQ_STATUS = NPU_BASE + 0x00C"
definition REG_INST_BASE :: u32 where "REG_INST_BASE = NPU_BASE + 0x100"
definition REG_INST_SIZE :: u32 where "REG_INST_SIZE = NPU_BASE + 0x104"
definition REG_INST_PTR :: u32 where "REG_INST_PTR = NPU_BASE + 0x108"
definition REG_WEIGHT_BASE :: u32 where "REG_WEIGHT_BASE = NPU_BASE + 0x200"
definition REG_WEIGHT_SIZE :: u32 where "REG_WEIGHT_SIZE = NPU_BASE + 0x204"
definition REG_ACT_IN_BASE :: u32 where "REG_ACT_IN_BASE = NPU_BASE + 0x300"
definition REG_ACT_IN_SIZE :: u32 where "REG_ACT_IN_SIZE = NPU_BASE + 0x304"
definition REG_ACT_OUT_BASE :: u32 where "REG_ACT_OUT_BASE = NPU_BASE + 0x308"
definition REG_DMA_CTRL :: u32 where "REG_DMA_CTRL = NPU_BASE + 0x400"
definition REG_DMA_STATUS :: u32 where "REG_DMA_STATUS = NPU_BASE + 0x404"
definition REG_DMA_SRC :: u32 where "REG_DMA_SRC = NPU_BASE + 0x408"
definition REG_DMA_DST :: u32 where "REG_DMA_DST = NPU_BASE + 0x40C"
definition REG_DMA_LEN :: u32 where "REG_DMA_LEN = NPU_BASE + 0x410"
definition REG_DMA_SRC_STRIDE :: u32 where "REG_DMA_SRC_STRIDE = NPU_BASE + 0x414"
definition REG_DMA_DST_STRIDE :: u32 where "REG_DMA_DST_STRIDE = NPU_BASE + 0x418"
definition REG_PERF_CTRL :: u32 where "REG_PERF_CTRL = NPU_BASE + 0x600"
definition REG_PERF_CYCLES_LO :: u32 where "REG_PERF_CYCLES_LO = NPU_BASE + 0x604"
definition REG_PERF_CYCLES_HI :: u32 where "REG_PERF_CYCLES_HI = NPU_BASE + 0x608"
definition REG_PERF_INST_CNT :: u32 where "REG_PERF_INST_CNT = NPU_BASE + 0x60C"
definition REG_PERF_MAC_LO :: u32 where "REG_PERF_MAC_LO = NPU_BASE + 0x610"
definition REG_PERF_MAC_HI :: u32 where "REG_PERF_MAC_HI = NPU_BASE + 0x614"
definition REG_PERF_STALL_CNT :: u32 where "REG_PERF_STALL_CNT = NPU_BASE + 0x618"
definition REG_LAYER_TYPE :: u32 where "REG_LAYER_TYPE = NPU_BASE + 0x700"
definition REG_LAYER_IN_CH :: u32 where "REG_LAYER_IN_CH = NPU_BASE + 0x704"
definition REG_LAYER_OUT_CH :: u32 where "REG_LAYER_OUT_CH = NPU_BASE + 0x708"
definition REG_LAYER_IN_H :: u32 where "REG_LAYER_IN_H = NPU_BASE + 0x70C"
definition REG_LAYER_IN_W :: u32 where "REG_LAYER_IN_W = NPU_BASE + 0x710"
definition REG_LAYER_OUT_H :: u32 where "REG_LAYER_OUT_H = NPU_BASE + 0x714"
definition REG_LAYER_OUT_W :: u32 where "REG_LAYER_OUT_W = NPU_BASE + 0x718"
definition REG_LAYER_KERNEL :: u32 where "REG_LAYER_KERNEL = NPU_BASE + 0x71C"
definition REG_LAYER_STRIDE :: u32 where "REG_LAYER_STRIDE = NPU_BASE + 0x720"
definition REG_LAYER_PADDING :: u32 where "REG_LAYER_PADDING = NPU_BASE + 0x724"
definition REG_LAYER_ACT_TYPE :: u32 where "REG_LAYER_ACT_TYPE = NPU_BASE + 0x728"
definition REG_LAYER_QUANT_SCALE :: u32 where "REG_LAYER_QUANT_SCALE = NPU_BASE + 0x730"
definition REG_LAYER_QUANT_ZERO :: u32 where "REG_LAYER_QUANT_ZERO = NPU_BASE + 0x734"

definition CTRL_START :: u32 where "CTRL_START = push_bit 1 1"
definition STATUS_BUSY :: u32 where "STATUS_BUSY = push_bit 0 1"
definition STATUS_DONE :: u32 where "STATUS_DONE = push_bit 1 1"
definition STATUS_ERROR :: u32 where "STATUS_ERROR = push_bit 2 1"
definition STATUS_IDLE :: u32 where "STATUS_IDLE = push_bit 3 1"
definition IRQ_DONE :: u32 where "IRQ_DONE = push_bit 0 1"
definition IRQ_ERROR :: u32 where "IRQ_ERROR = push_bit 1 1"
definition IRQ_DMA_DONE :: u32 where "IRQ_DMA_DONE = push_bit 2 1"
definition DMA_CTRL_START :: u32 where "DMA_CTRL_START = push_bit 0 1"
definition DMA_CTRL_IRQ_EN :: u32 where "DMA_CTRL_IRQ_EN = push_bit 2 1"
definition DMA_CTRL_2D_MODE :: u32 where "DMA_CTRL_2D_MODE = push_bit 3 1"
definition DMA_CTRL_CH_SEL_SHIFT :: nat where "DMA_CTRL_CH_SEL_SHIFT = 4"
definition DMA_STATUS_BUSY :: u32 where "DMA_STATUS_BUSY = push_bit 0 1"
definition DMA_STATUS_DONE :: u32 where "DMA_STATUS_DONE = push_bit 1 1"
definition DMA_STATUS_ERROR :: u32 where "DMA_STATUS_ERROR = push_bit 2 1"
definition DMA_CH_WEIGHT :: u8 where "DMA_CH_WEIGHT = 0"
definition DMA_CH_ACT_IN :: u8 where "DMA_CH_ACT_IN = 1"
definition PERF_CTRL_ENABLE :: u32 where "PERF_CTRL_ENABLE = push_bit 0 1"
definition PERF_CTRL_RESET :: u32 where "PERF_CTRL_RESET = push_bit 1 1"
definition NPU_INST_BUF_ENTRIES :: u32 where "NPU_INST_BUF_ENTRIES = 1024"

definition DMA_FLAG_2D :: u8 where "DMA_FLAG_2D = push_bit 0 1"
definition DMA_FLAG_IRQ :: u8 where "DMA_FLAG_IRQ = push_bit 1 1"

definition MODEL_MAGIC :: u32 where "MODEL_MAGIC = 0x4E505545"
definition MODEL_VERSION :: u16 where "MODEL_VERSION = 0x0100"

section \<open>Firmware runtime state (npu\_runtime\_fw.c)\<close>

text \<open>
  \<^verbatim>\<open>float\<close> fields are modelled as reals: the claims about them concern which branch
  assigns them, not rounding. The two callback pointers of \<^verbatim>\<open>fw_context_t\<close> are used only
  by the interrupt handler and its setters and are left out.
\<close>

record perf_stats_t =
  total_cycles :: u64
  compute_cycles :: u64
  dma_cycles :: u64
  stall_cycles :: u64
  mac_ops :: u64
  layers_executed :: u32
  dma_transfers :: u32
  pe_utilization :: real
  memory_bandwidth :: real

record fw_context_t =
  state :: npu_state_t
  last_error :: fw_status_t
  inst_ptr :: u32
  inst_count :: u32
  loop_count :: u32
  loop_start :: u32
  weight_ptr :: u32
  act_in_ptr :: u32
  act_out_ptr :: u32
  current_layer :: u16
  total_layers :: u16
  perf :: perf_stats_t

record runtime_config_t =
  inst_buf_addr :: u32
  inst_buf_size :: u32
  weight_buf_addr :: u32
  weight_buf_size :: u32
  act_buf_addr :: u32
  act_buf_size :: u32
  enable_irq :: bool
  enable_perf :: bool

record dma_desc_t =
  src_addr :: u32
  dst_addr :: u32
  dma_length :: u32
  src_stride :: u16
  dst_stride :: u16
  dma_width :: u16
  dma_height :: u16
  channel :: u8
  dma_flags :: u8
  dma_reserved :: u16

text \<open>
  The machine state: the three file-scope variables of the runtime, the register block
  (the value each 32-bit register currently holds, by address), the instruction buffer
  at \<^verbatim>\<open>NPU_INST_BUF_BASE\<close> (by entry; the loader never indexes it beyond entry 1023) and
  the bytes of memory that the weight loader writes (by 32-bit address, so that address
  arithmetic wraps as in C). The status register and the DMA status register are driven
  by the device: what the k-th read of each returns is given by the environment
  \<open>npu_hw\<close>, and the state counts the reads made so far.
\<close>

record fw_state =
  g_ctx :: fw_context_t
  g_config :: runtime_config_t
  g_initialized :: bool
  regs :: "u32 \<Rightarrow> u32"
  inst_mem :: "nat \<Rightarrow> u64"
  weight_mem :: "u32 \<Rightarrow> u8"
  status_reads :: nat
  dma_status_reads :: nat

record npu_hw =
  hw_status :: "nat \<Rightarrow> u32"
  hw_dma_status :: "nat \<Rightarrow> u32"

text \<open>A C pointer to bytes: its address (0 is \<^verbatim>\<open>NULL\<close>) and the bytes found from it on.\<close>

record byte_ptr =
  ptr_addr :: u32
  ptr_bytes :: "nat \<Rightarrow> u8"

definition ptr_add :: "byte_ptr \<Rightarrow> u32 \<Rightarrow> byte_ptr" where
  "ptr_add p k = \<lparr>ptr_addr = ptr_addr p + k, ptr_bytes = (\<lambda>i. ptr_bytes p (unat k + i))\<rparr>"

definition REG_WRITE :: "u32 \<Rightarrow> u32 \<Rightarrow> fw_state \<Rightarrow> fw_state" where
  "REG_WRITE a v s = s\<lparr>regs := (regs s)(a := v)\<rparr>"

definition REG_SET :: "u32 \<Rightarrow> u32 \<Rightarrow> fw_state \<Rightarrow> fw_state" where
  "REG_SET a m s = s\<lparr>regs := (regs s)(a := regs s a OR m)\<rparr>"

definition read_status :: "npu_hw \<Rightarrow> fw_state \<Rightarrow> u32 \<times> fw_state" where
  "read_status hw s = (hw_status hw (status_reads s), s\<lparr>status_reads := Suc (status_reads s)\<rparr>)"

definition read_dma_status :: "npu_hw \<Rightarrow> fw_state \<Rightarrow> u32 \<times> fw_state" where
  "read_dma_status hw s =
     (hw_dma_status hw (dma_status_reads s), s\<lparr>dma_status_reads := Suc (dma_status_reads s)\<rparr>)"

subsection \<open>Polling\<close>

partial_function (option) wait_status_loop ::
  "npu_hw \<Rightarrow> u32 \<Rightarrow> u32 \<Rightarrow> u32 \<Rightarrow> u32 \<Rightarrow> fw_state \<Rightarrow> (fw_status_t \<times> fw_state) option"
where
  "wait_status_loop hw msk expected timeout_us elapsed s =
     (if elapsed < timeout_us \<or> timeout_us = 0 then
        (case read_status hw s of (status, s1) \<Rightarrow>
           if status AND msk = expected then Some (FW_OK, s1)
           else if status AND STATUS_ERROR \<noteq> 0 then
             Some (FW_ERROR_HW_FAULT,
                   s1\<lparr>g_ctx := (g_ctx s1)\<lparr>last_error := FW_ERROR_HW_FAULT,
                                            state := NPU_STATE_ERROR\<rparr>\<rparr>)
           else wait_status_loop hw msk expected timeout_us (elapsed + 10) s1)
      else Some (FW_ERROR_TIMEOUT, s))"

definition wait_status ::
  "npu_hw \<Rightarrow> u32 \<Rightarrow> u32 \<Rightarrow> u32 \<Rightarrow> fw_state \<Rightarrow> (fw_status_t \<times> fw_state) option" where
  "wait_status hw msk expected timeout_us s = wait_status_loop hw msk expected timeout_us 0 s"

partial_function (option) dma_wait_loop ::
  "npu_hw \<Rightarrow> u32 \<Rightarrow> u32 \<Rightarrow> fw_state \<Rightarrow> (fw_status_t \<times> fw_state) option"
where
  "dma_wait_loop hw timeout_us elapsed s =
     (if elapsed < timeout_us \<or> timeout_us = 0 then
        (case read_dma_status hw s of (status, s1) \<Rightarrow>
           if status AND DMA_STATUS_DONE \<noteq> 0 then Some (FW_OK, s1)
           else if status AND DMA_STATUS_ERROR \<noteq> 0 then Some (FW_ERROR_DMA, s1)
           else dma_wait_loop hw timeout_us (elapsed + 10) s1)
      else Some (FW_ERROR_TIMEOUT, s))"

definition npu_rt_dma_wait :: "npu_hw \<Rightarrow> u32 \<Rightarrow> fw_state \<Rightarrow> (fw_status_t \<times> fw_state) option" where
  "npu_rt_dma_wait hw timeout_us s = dma_wait_loop hw timeout_us 0 s"

definition npu_rt_dma_is_busy :: "npu_hw \<Rightarrow> fw_state \<Rightarrow> bool \<times> fw_state" where
  "npu_rt_dma_is_busy hw s =
     (case read_dma_status hw s of (status, s1) \<Rightarrow> (status AND DMA_STATUS_BUSY \<noteq> 0, s1))"

subsection \<open>Performance counters\<close>

definition update_perf_stats :: "fw_state \<Rightarrow> fw_state" where
  "update_perf_stats s =
     (let p0 = perf (g_ctx s);
          p1 = p0\<lparr>total_cycles :=
                   push_bit 32 (ucast (regs s REG_PERF_CYCLES_HI)) OR ucast (regs s REG_PERF_CYCLES_LO)\<rparr>;
          p2 = p1\<lparr>mac_ops :=
                   push_bit 32 (ucast (regs s REG_PERF_MAC_HI)) OR ucast (regs s REG_PERF_MAC_LO)\<rparr>;
          p3 = p2\<lparr>stall_cycles := ucast (regs s REG_PERF_STALL_CNT)\<rparr>;
          p4 = p3\<lparr>layers_executed := regs s REG_PERF_INST_CNT\<rparr>;
          p5 = (if total_cycles p4 > 0 then
                  (let p = p4\<lparr>compute_cycles := total_cycles p4 - stall_cycles p4\<rparr>
                   in p\<lparr>pe_utilization :=
                          real (unat (compute_cycles p)) / real (unat (total_cycles p)) * 100\<rparr>)
                else p4)
      in s\<lparr>g_ctx := (g_ctx s)\<lparr>perf := p5\<rparr>\<rparr>)"


subsection \<open>Initialisation\<close>

definition zero_perf :: perf_stats_t where
  "zero_perf = \<lparr>total_cycles = 0, compute_cycles = 0, dma_cycles = 0, stall_cycles = 0,
     mac_ops = 0, layers_executed = 0, dma_transfers = 0, pe_utilization = 0,
     memory_bandwidth = 0\<rparr>"

definition zero_ctx :: fw_context_t where
  "zero_ctx = \<lparr>state = NPU_STATE_RESET, last_error = FW_OK, inst_ptr = 0, inst_count = 0,
     loop_count = 0, loop_start = 0, weight_ptr = 0, act_in_ptr = 0, act_out_ptr = 0,
     current_layer = 0, total_layers = 0, perf = zero_perf\<rparr>"

definition npu_rt_init :: "runtime_config_t option \<Rightarrow> fw_state \<Rightarrow> fw_status_t \<times> fw_state" where
  "npu_rt_init config s =
     (case config of
        None \<Rightarrow> (FW_ERROR_INVALID_PARAM, s)
      | Some cfg \<Rightarrow>
          (let s1 = s\<lparr>g_config := cfg\<rparr>;
               s2 = s1\<lparr>g_ctx := zero_ctx\<lparr>state := NPU_STATE_INIT\<rparr>\<rparr>;
               s3 = REG_WRITE REG_INST_BASE (inst_buf_addr cfg) s2;
               s4 = REG_WRITE REG_WEIGHT_BASE (weight_buf_addr cfg) s3;
               s5 = REG_WRITE REG_ACT_IN_BASE (act_buf_addr cfg) s4;
               s6 = REG_WRITE REG_ACT_OUT_BASE (act_buf_addr cfg + act_buf_size cfg div 2) s5;
               s7 = (if enable_irq cfg
                     then REG_WRITE REG_IRQ_EN ((IRQ_DONE OR IRQ_ERROR) OR IRQ_DMA_DONE) s6
                     else REG_WRITE REG_IRQ_EN 0 s6);
               s8 = (if enable_perf cfg
                     then REG_WRITE REG_PERF_CTRL (PERF_CTRL_ENABLE OR PERF_CTRL_RESET) s7
                     else s7);
               s9 = s8\<lparr>g_ctx := (g_ctx s8)\<lparr>state := NPU_STATE_IDLE\<rparr>\<rparr>
           in (FW_OK, s9\<lparr>g_initialized := True\<rparr>)))"

subsection \<open>Loading\<close>

text \<open>
  A pointer to an instruction array is \<open>None\<close> for \<^verbatim>\<open>NULL\<close> and otherwise gives the entry
  found at each index from it on; the count is passed separately, as in C.
\<close>

definition copy_instructions :: "(nat \<Rightarrow> u64) \<Rightarrow> u32 \<Rightarrow> (nat \<Rightarrow> u64) \<Rightarrow> (nat \<Rightarrow> u64)" where
  "copy_instructions src cnt mem = fold (\<lambda>i m. m(i := src i)) [0 ..< unat cnt] mem"

definition npu_rt_load_instructions ::
  "(nat \<Rightarrow> u64) option \<Rightarrow> u32 \<Rightarrow> fw_state \<Rightarrow> fw_status_t \<times> fw_state" where
  "npu_rt_load_instructions instructions cnt s =
     (if \<not> g_initialized s then (FW_ERROR_NOT_READY, s)
      else case instructions of
        None \<Rightarrow> (FW_ERROR_INVALID_PARAM, s)
      | Some src \<Rightarrow>
          if cnt = 0 then (FW_ERROR_INVALID_PARAM, s)
          else if cnt > NPU_INST_BUF_ENTRIES then (FW_ERROR_OVERFLOW, s)
          else
            (let s1 = s\<lparr>inst_mem := copy_instructions src cnt (inst_mem s)\<rparr>;
                 s2 = REG_WRITE REG_INST_SIZE cnt s1;
                 s3 = REG_WRITE REG_INST_PTR 0 s2
             in (FW_OK, s3\<lparr>g_ctx := (g_ctx s3)\<lparr>inst_count := cnt, inst_ptr := 0\<rparr>\<rparr>)))"

definition npu_rt_dma_start ::
  "npu_hw \<Rightarrow> dma_desc_t option \<Rightarrow> fw_state \<Rightarrow> (fw_status_t \<times> fw_state) option" where
  "npu_rt_dma_start hw desc s =
     (case desc of
        None \<Rightarrow> Some (FW_ERROR_INVALID_PARAM, s)
      | Some d \<Rightarrow>
          (case npu_rt_dma_is_busy hw s of (busy, s1) \<Rightarrow>
             Option.bind (if busy then npu_rt_dma_wait hw 100000 s1 else Some (FW_OK, s1))
               (\<lambda>(status, s2).
                  if status \<noteq> FW_OK then Some (status, s2)
                  else
                    (let s3 = REG_WRITE REG_DMA_SRC (src_addr d) s2;
                         s4 = REG_WRITE REG_DMA_DST (dst_addr d) s3;
                         s5 = REG_WRITE REG_DMA_LEN (dma_length d) s4;
                         s6 = (if dma_flags d AND DMA_FLAG_2D \<noteq> 0
                               then REG_WRITE REG_DMA_DST_STRIDE (ucast (dst_stride d))
                                      (REG_WRITE REG_DMA_SRC_STRIDE (ucast (src_stride d)) s5)
                               else s5);
                         c0 = DMA_CTRL_START OR push_bit DMA_CTRL_CH_SEL_SHIFT (ucast (channel d));
                         c1 = (if dma_flags d AND DMA_FLAG_2D \<noteq> 0 then c0 OR DMA_CTRL_2D_MODE else c0);
                         c2 = (if dma_flags d AND DMA_FLAG_IRQ \<noteq> 0 then c1 OR DMA_CTRL_IRQ_EN else c1);
                         s7 = REG_WRITE REG_DMA_CTRL c2 s6;
                         p = perf (g_ctx s7)
                     in Some (FW_OK,
                          s7\<lparr>g_ctx := (g_ctx s7)\<lparr>perf := p\<lparr>dma_transfers := dma_transfers p + 1\<rparr>\<rparr>\<rparr>)))))"

definition zero_desc :: dma_desc_t where
  "zero_desc = \<lparr>src_addr = 0, dst_addr = 0, dma_length = 0, src_stride = 0, dst_stride = 0,
     dma_width = 0, dma_height = 0, channel = 0, dma_flags = 0, dma_reserved = 0\<rparr>"

text \<open>
  The direct copy \<^verbatim>\<open>dst[i] = src[i]\<close> with \<^verbatim>\<open>dst = NPU_WEIGHT_BUF_BASE + offset\<close>
  computed in 32 bits.
\<close>

definition store_bytes :: "(nat \<Rightarrow> u8) \<Rightarrow> u32 \<Rightarrow> u32 \<Rightarrow> (u32 \<Rightarrow> u8) \<Rightarrow> (u32 \<Rightarrow> u8)" where
  "store_bytes src dst sz mem = fold (\<lambda>i m. m(dst + of_nat i := src i)) [0 ..< unat sz] mem"

definition npu_rt_load_weights ::
  "npu_hw \<Rightarrow> byte_ptr \<Rightarrow> u32 \<Rightarrow> u32 \<Rightarrow> fw_state \<Rightarrow> (fw_status_t \<times> fw_state) option" where
  "npu_rt_load_weights hw weights sz offset s =
     (if \<not> g_initialized s then Some (FW_ERROR_NOT_READY, s)
      else if ptr_addr weights = 0 \<or> sz = 0 then Some (FW_ERROR_INVALID_PARAM, s)
      else if offset + sz > weight_buf_size (g_config s) then Some (FW_ERROR_OVERFLOW, s)
      else if sz > 1024 then
        Option.bind
          (npu_rt_dma_start hw
             (Some (zero_desc\<lparr>src_addr := ptr_addr weights,
                               dst_addr := NPU_WEIGHT_BUF_BASE + offset,
                               dma_length := sz, channel := DMA_CH_WEIGHT, dma_flags := 0\<rparr>)) s)
          (\<lambda>(status, s1).
             if status \<noteq> FW_OK then Some (status, s1) else npu_rt_dma_wait hw 1000000 s1)
      else
        (let s1 = s\<lparr>weight_mem := store_bytes (ptr_bytes weights) (NPU_WEIGHT_BUF_BASE + offset)
                                     sz (weight_mem s)\<rparr>
         in Some (FW_OK, REG_WRITE REG_WEIGHT_SIZE sz s1)))"

definition npu_rt_load_input ::
  "npu_hw \<Rightarrow> byte_ptr \<Rightarrow> u32 \<Rightarrow> fw_state \<Rightarrow> (fw_status_t \<times> fw_state) option" where
  "npu_rt_load_input hw inp sz s =
     (if \<not> g_initialized s then Some (FW_ERROR_NOT_READY, s)
      else if ptr_addr inp = 0 \<or> sz = 0 then Some (FW_ERROR_INVALID_PARAM, s)
      else if sz > act_buf_size (g_config s) div 2 then Some (FW_ERROR_OVERFLOW, s)
      else
        Option.bind
          (npu_rt_dma_start hw
             (Some (zero_desc\<lparr>src_addr := ptr_addr inp, dst_addr := NPU_ACT_BUF_BASE,
                               dma_length := sz, channel := DMA_CH_ACT_IN, dma_flags := 0\<rparr>)) s)
          (\<lambda>(status, s1).
             if status \<noteq> FW_OK then Some (status, s1)
             else Option.bind (npu_rt_dma_wait hw 1000000 s1)
               (\<lambda>(status, s2).
                  if status \<noteq> FW_OK then Some (status, s2)
                  else Some (FW_OK, REG_WRITE REG_ACT_IN_SIZE sz s2))))"

subsection \<open>Model binary\<close>

text \<open>
  \<^verbatim>\<open>model_header_t\<close> is 32 bytes: magic (4), version (2), num\_layers (2), then six 32-bit
  fields. The firmware reads it in place through a pointer cast; the target is
  little-endian.
\<close>

record model_header_t =
  magic :: u32
  version :: u16
  num_layers :: u16
  hdr_weight_size :: u32
  hdr_inst_count :: u32
  input_size :: u32
  output_size :: u32
  workspace_size :: u32
  checksum :: u32

definition le16 :: "(nat \<Rightarrow> u8) \<Rightarrow> nat \<Rightarrow> u16" where
  "le16 b i = ucast (b i) OR push_bit 8 (ucast (b (i + 1)))"

definition le32 :: "(nat \<Rightarrow> u8) \<Rightarrow> nat \<Rightarrow> u32" where
  "le32 b i = ((ucast (b i) OR push_bit 8 (ucast (b (i + 1))))
                OR push_bit 16 (ucast (b (i + 2)))) OR push_bit 24 (ucast (b (i + 3)))"

definition le64 :: "(nat \<Rightarrow> u8) \<Rightarrow> nat \<Rightarrow> u64" where
  "le64 b i = ucast (le32 b i) OR push_bit 32 (ucast (le32 b (i + 4)))"

definition sizeof_model_header :: u32 where "sizeof_model_header = 32"

definition read_header :: "(nat \<Rightarrow> u8) \<Rightarrow> model_header_t" where
  "read_header b = \<lparr>magic = le32 b 0, version = le16 b 4, num_layers = le16 b 6,
     hdr_weight_size = le32 b 8, hdr_inst_count = le32 b 12, input_size = le32 b 16,
     output_size = le32 b 20, workspace_size = le32 b 24, checksum = le32 b 28\<rparr>"

definition npu_rt_load_model ::
  "npu_hw \<Rightarrow> byte_ptr \<Rightarrow> u32 \<Rightarrow> fw_state \<Rightarrow> (fw_status_t \<times> fw_state) option" where
  "npu_rt_load_model hw model_data model_size s =
     (if \<not> g_initialized s then Some (FW_ERROR_NOT_READY, s)
      else if ptr_addr model_data = 0 \<or> model_size < sizeof_model_header
        then Some (FW_ERROR_INVALID_PARAM, s)
      else
        (let header = read_header (ptr_bytes model_data) in
         if magic header \<noteq> MODEL_MAGIC then Some (FW_ERROR_INVALID_PARAM, s)
         else if version header > MODEL_VERSION then Some (FW_ERROR_INVALID_PARAM, s)
         else
           (let s1 = s\<lparr>g_ctx := (g_ctx s)\<lparr>total_layers := num_layers header,
                                            inst_count := hdr_inst_count header\<rparr>\<rparr>;
                data = ptr_add model_data sizeof_model_header
            in case npu_rt_load_instructions (Some (\<lambda>i. le64 (ptr_bytes data) (8 * i)))
                      (hdr_inst_count header) s1 of
                 (status, s2) \<Rightarrow>
                   if status \<noteq> FW_OK then Some (status, s2)
                   else npu_rt_load_weights hw (ptr_add data (hdr_inst_count header * 8))
                          (hdr_weight_size header) 0 s2)))"

subsection \<open>Execution control\<close>

definition npu_rt_start :: "fw_state \<Rightarrow> fw_status_t \<times> fw_state" where
  "npu_rt_start s =
     (if \<not> g_initialized s then (FW_ERROR_NOT_READY, s)
      else if state (g_ctx s) = NPU_STATE_RUNNING then (FW_ERROR_BUSY, s)
      else
        (let s1 = REG_WRITE REG_INST_PTR 0 s;
             s2 = s1\<lparr>g_ctx := (g_ctx s1)\<lparr>inst_ptr := 0, current_layer := 0\<rparr>\<rparr>;
             s3 = REG_WRITE REG_IRQ_STATUS 0xFFFFFFFF s2;
             s4 = s3\<lparr>g_ctx := (g_ctx s3)\<lparr>state := NPU_STATE_RUNNING\<rparr>\<rparr>
         in (FW_OK, REG_SET REG_CTRL CTRL_START s4)))"

definition npu_rt_wait :: "npu_hw \<Rightarrow> u32 \<Rightarrow> fw_state \<Rightarrow> (fw_status_t \<times> fw_state) option" where
  "npu_rt_wait hw timeout_us s =
     (if \<not> g_initialized s then Some (FW_ERROR_NOT_READY, s)
      else
        Option.bind (wait_status hw (STATUS_DONE OR STATUS_ERROR) STATUS_DONE timeout_us s)
          (\<lambda>(status, s1).
             if status = FW_OK
             then Some (status, update_perf_stats (s1\<lparr>g_ctx := (g_ctx s1)\<lparr>state := NPU_STATE_DONE\<rparr>\<rparr>))
             else Some (status, s1)))"

definition npu_rt_get_perf :: "bool \<Rightarrow> fw_state \<Rightarrow> fw_status_t \<times> perf_stats_t option \<times> fw_state" where
  "npu_rt_get_perf stats_given s =
     (if \<not> stats_given then (FW_ERROR_INVALID_PARAM, None, s)
      else (let s1 = update_perf_stats s in (FW_OK, Some (perf (g_ctx s1)), s1)))"

section \<open>Example states\<close>

definition fw_boot_state :: fw_state where
  "fw_boot_state = \<lparr>g_ctx = zero_ctx,
     g_config = \<lparr>inst_buf_addr = 0, inst_buf_size = 0, weight_buf_addr = 0, weight_buf_size = 0,
                 act_buf_addr = 0, act_buf_size = 0, enable_irq = False, enable_perf = False\<rparr>,
     g_initialized = False, regs = (\<lambda>a. 0), inst_mem = (\<lambda>i. 0), weight_mem = (\<lambda>i. 0),
     status_reads = 0, dma_status_reads = 0\<rparr>"

definition example_config :: runtime_config_t where
  "example_config = \<lparr>inst_buf_addr = 0x40100000, inst_buf_size = 8192,
     weight_buf_addr = 0x40200000, weight_buf_size = 262144,
     act_buf_addr = 0x40300000, act_buf_size = 262144, enable_irq = False, enable_perf = True\<rparr>"

definition fw_idle_state :: fw_state where
  "fw_idle_state = snd (npu_rt_init (Some example_config) fw_boot_state)"

definition fw_running_state :: fw_state where
  "fw_running_state = snd (npu_rt_start fw_idle_state)"

text \<open>A device whose status registers read 0 at every poll.\<close>

definition quiet_hw :: npu_hw where
  "quiet_hw = \<lparr>hw_status = (\<lambda>k. 0), hw_dma_status = (\<lambda>k. 0)\<rparr>"

lemma fw_idle_state_facts:
  "g_initialized fw_idle_state" "state (g_ctx fw_idle_state) = NPU_STATE_IDLE"
  "status_reads fw_idle_state = 0" "g_config fw_idle_state = example_config"
  by (simp_all add: fw_idle_state_def npu_rt_init_def fw_boot_state_def Let_def REG_WRITE_def
      zero_ctx_def)

lemma fw_running_state_facts:
  "g_initialized fw_running_state" "state (g_ctx fw_running_state) = NPU_STATE_RUNNING"
  by (simp_all add: fw_running_state_def npu_rt_start_def fw_idle_state_facts Let_def
      REG_WRITE_def REG_SET_def)

section \<open>Loading: capacity and state checks\<close>

lemma copy_instructions_nth:
  "copy_instructions src cnt mem i = (if i < unat cnt then src i else mem i)"
proof -
  have "fold (\<lambda>i m. m(i := src i)) [0 ..< n] mem i = (if i < n then src i else mem i)" for n
    by (induction n) auto
  then show ?thesis by (simp add: copy_instructions_def)
qed

text \<open>
  \<^verbatim>\<open>npu_rt_load_instructions\<close> compares the count with the constant
  \<^verbatim>\<open>NPU_INST_BUF_ENTRIES\<close> and with nothing else: above it the call fails with
  \<^verbatim>\<open>FW_ERROR_OVERFLOW\<close> and the machine state is as before; from 1 up to it the call
  succeeds and copies, whatever \<^verbatim>\<open>g_config.inst_buf_size\<close> holds.
\<close>

lemma fw_load_instructions_overflow:
  assumes "g_initialized s" and "cnt > NPU_INST_BUF_ENTRIES"
  shows "npu_rt_load_instructions (Some insts) cnt s = (FW_ERROR_OVERFLOW, s)"
proof -
  from assms(2) have "cnt \<noteq> 0" by (auto simp: NPU_INST_BUF_ENTRIES_def)
  with assms show ?thesis by (simp add: npu_rt_load_instructions_def)
qed

lemma fw_load_instructions_accepts:
  assumes "g_initialized s" and "cnt \<noteq> 0" and "cnt \<le> NPU_INST_BUF_ENTRIES"
  shows "fst (npu_rt_load_instructions (Some insts) cnt s) = FW_OK"
    and "inst_mem (snd (npu_rt_load_instructions (Some insts) cnt s)) i
           = (if i < unat cnt then insts i else inst_mem s i)"
    and "regs (snd (npu_rt_load_instructions (Some insts) cnt s)) REG_INST_SIZE = cnt"
    and "inst_count (g_ctx (snd (npu_rt_load_instructions (Some insts) cnt s))) = cnt"
proof -
  from assms(3) have "\<not> cnt > NPU_INST_BUF_ENTRIES" by simp
  with assms(1,2) show "fst (npu_rt_load_instructions (Some insts) cnt s) = FW_OK"
    and "inst_mem (snd (npu_rt_load_instructions (Some insts) cnt s)) i
           = (if i < unat cnt then insts i else inst_mem s i)"
    and "regs (snd (npu_rt_load_instructions (Some insts) cnt s)) REG_INST_SIZE = cnt"
    and "inst_count (g_ctx (snd (npu_rt_load_instructions (Some insts) cnt s))) = cnt"
    by (simp_all add: npu_rt_load_instructions_def Let_def REG_WRITE_def copy_instructions_nth
        REG_INST_SIZE_def REG_INST_PTR_def NPU_BASE_def)
qed

text \<open>
  The firmware loaders do not look at the execution state: \<^verbatim>\<open>npu_rt_load_instructions\<close>
  has no path that returns \<^verbatim>\<open>FW_ERROR_BUSY\<close>.
\<close>

lemma load_instructions_never_busy:
  "fst (npu_rt_load_instructions instructions cnt s) \<noteq> FW_ERROR_BUSY"
  by (simp add: npu_rt_load_instructions_def Let_def split: option.split)

section \<open>Utilisation\<close>

text \<open>
  When the cycle counter reads 0, \<^verbatim>\<open>update_perf_stats\<close> skips the branch that assigns the
  utilisation, so the previous value stays.
\<close>

lemma update_perf_stats_zero_cycles:
  assumes "regs s REG_PERF_CYCLES_HI = 0" and "regs s REG_PERF_CYCLES_LO = 0"
  shows "total_cycles (perf (g_ctx (update_perf_stats s))) = 0
       \<and> pe_utilization (perf (g_ctx (update_perf_stats s))) = pe_utilization (perf (g_ctx s))"
  using assms by (simp add: update_perf_stats_def Let_def)

definition after_first_run :: fw_state where
  "after_first_run =
     update_perf_stats (fw_idle_state\<lparr>regs := (regs fw_idle_state)
        (REG_PERF_CYCLES_LO := 1000, REG_PERF_STALL_CNT := 250)\<rparr>)"

definition counters_cleared :: fw_state where
  "counters_cleared =
     after_first_run\<lparr>regs := (regs after_first_run)
        (REG_PERF_CYCLES_LO := 0, REG_PERF_STALL_CNT := 0)\<rparr>"

text \<open>
  Claim C10 fails on the firmware runtime. After a run that left a utilisation of 75
  percent in the context, a statistics read (\<^verbatim>\<open>npu_rt_get_perf\<close>) made while the cycle
  counter reads 0 reports total cycles 0 together with a utilisation of 75, not 0.
\<close>

theorem stale_utilization_example:
  "regs counters_cleared REG_PERF_CYCLES_HI = 0 \<and> regs counters_cleared REG_PERF_CYCLES_LO = 0
   \<and> fst (npu_rt_get_perf True counters_cleared) = FW_OK
   \<and> total_cycles (the (fst (snd (npu_rt_get_perf True counters_cleared)))) = 0
   \<and> pe_utilization (the (fst (snd (npu_rt_get_perf True counters_cleared)))) = 75"
  by (simp add: npu_rt_get_perf_def counters_cleared_def after_first_run_def
      update_perf_stats_def Let_def fw_idle_state_def npu_rt_init_def REG_WRITE_def
      fw_boot_state_def example_config_def zero_ctx_def zero_perf_def
      REG_PERF_CYCLES_LO_def REG_PERF_CYCLES_HI_def REG_PERF_STALL_CNT_def
      REG_PERF_MAC_LO_def REG_PERF_MAC_HI_def REG_PERF_INST_CNT_def REG_PERF_CTRL_def
      REG_INST_BASE_def REG_WEIGHT_BASE_def REG_ACT_IN_BASE_def REG_ACT_OUT_BASE_def
      REG_IRQ_EN_def NPU_BASE_def)

section \<open>Waiting for completion\<close>

text \<open>
  What one poll of \<^verbatim>\<open>npu_rt_wait\<close> makes of a status value: done (the done bit set and the
  error bit clear), an error (the error bit set), or neither.
\<close>

definition wait_done :: "u32 \<Rightarrow> bool" where
  "wait_done x \<longleftrightarrow> x AND (STATUS_DONE OR STATUS_ERROR) = STATUS_DONE"

definition wait_error :: "u32 \<Rightarrow> bool" where
  "wait_error x \<longleftrightarrow> x AND STATUS_ERROR \<noteq> 0"

definition still_busy :: "u32 \<Rightarrow> bool" where
  "still_busy x \<longleftrightarrow> \<not> wait_done x \<and> \<not> wait_error x"

definition polls_for :: "u32 \<Rightarrow> nat" where
  "polls_for timeout_us = (unat timeout_us + 9) div 10"

lemma idle_is_still_busy: "still_busy STATUS_IDLE"
  by (simp add: still_busy_def wait_done_def wait_error_def STATUS_IDLE_def STATUS_DONE_def
      STATUS_ERROR_def)

lemma wait_loop_skip:
  assumes "\<forall>k < n. (elapsed + of_nat (10 * k) < t \<or> t = 0)
             \<and> hw_status hw (status_reads s + k) AND msk \<noteq> expected
             \<and> hw_status hw (status_reads s + k) AND STATUS_ERROR = 0"
  shows "wait_status_loop hw msk expected t elapsed s
       = wait_status_loop hw msk expected t (elapsed + of_nat (10 * n))
           (s\<lparr>status_reads := status_reads s + n\<rparr>)"
  using assms
proof (induction n arbitrary: elapsed s)
  case 0
  then show ?case by simp
next
  case (Suc n)
  let ?s1 = "s\<lparr>status_reads := Suc (status_reads s)\<rparr>"
  have "0 < Suc n" by simp
  with Suc.prems have "(elapsed + of_nat (10 * 0) < t \<or> t = 0)
             \<and> hw_status hw (status_reads s + 0) AND msk \<noteq> expected
             \<and> hw_status hw (status_reads s + 0) AND STATUS_ERROR = 0" by blast
  then have first: "elapsed < t \<or> t = 0"
    "hw_status hw (status_reads s) AND msk \<noteq> expected"
    "hw_status hw (status_reads s) AND STATUS_ERROR = 0"
    by simp_all
  have rest: "\<forall>k < n. (elapsed + 10 + of_nat (10 * k) < t \<or> t = 0)
             \<and> hw_status hw (status_reads ?s1 + k) AND msk \<noteq> expected
             \<and> hw_status hw (status_reads ?s1 + k) AND STATUS_ERROR = 0"
  proof (intro allI impI)
    fix k assume "k < n"
    then have "Suc k < Suc n" by simp
    with Suc.prems have "(elapsed + of_nat (10 * Suc k) < t \<or> t = 0)
             \<and> hw_status hw (status_reads s + Suc k) AND msk \<noteq> expected
             \<and> hw_status hw (status_reads s + Suc k) AND STATUS_ERROR = 0" by blast
    then show "(elapsed + 10 + of_nat (10 * k) < t \<or> t = 0)
             \<and> hw_status hw (status_reads ?s1 + k) AND msk \<noteq> expected
             \<and> hw_status hw (status_reads ?s1 + k) AND STATUS_ERROR = 0"
      by (simp add: algebra_simps)
  qed
  have "wait_status_loop hw msk expected t elapsed s
      = wait_status_loop hw msk expected t (elapsed + 10) ?s1"
    using first by (subst wait_status_loop.simps) (simp add: read_status_def)
  also have "\<dots> = wait_status_loop hw msk expected t (elapsed + 10 + of_nat (10 * n))
           (?s1\<lparr>status_reads := status_reads ?s1 + n\<rparr>)"
    by (rule Suc.IH [OF rest])
  finally show ?case by (simp add: algebra_simps)
qed

lemma wait_loop_never_timeout:
  assumes "wait_status_loop hw msk expected t elapsed s = Some r"
  shows "t = 0 \<longrightarrow> fst r \<noteq> FW_ERROR_TIMEOUT"
proof (rule wait_status_loop.raw_induct
    [where P = "\<lambda>hw msk expected t elapsed s r. t = 0 \<longrightarrow> fst r \<noteq> FW_ERROR_TIMEOUT",
     OF _ assms], goal_cases)
  case (1 loop hw msk expected t elapsed s r)
  show ?case
  proof
    assume t: "t = 0"
    show "fst r \<noteq> FW_ERROR_TIMEOUT"
    proof (cases "hw_status hw (status_reads s) AND msk = expected")
      case True
      with 1(2) t show ?thesis by (auto simp: read_status_def)
    next
      case False
      note ne = this
      show ?thesis
      proof (cases "hw_status hw (status_reads s) AND STATUS_ERROR = 0")
        case True
        with 1(2) t ne have "loop hw msk expected t (elapsed + 10)
            (s\<lparr>status_reads := Suc (status_reads s)\<rparr>) = Some r"
          by (simp add: read_status_def)
        from 1(1) [OF this] t show ?thesis by simp
      next
        case False
        with 1(2) t ne show ?thesis by (auto simp: read_status_def)
      qed
    qed
  qed
qed

lemma wait_loop_returns_after_change:
  assumes "wait_status_loop hw msk expected t elapsed s = Some r"
  shows "t = 0 \<longrightarrow> (\<exists>k. hw_status hw (status_reads s + k) AND msk = expected
        \<or> hw_status hw (status_reads s + k) AND STATUS_ERROR \<noteq> 0)"
proof (rule wait_status_loop.raw_induct
    [where P = "\<lambda>hw msk expected t elapsed s r.
       t = 0 \<longrightarrow> (\<exists>k. hw_status hw (status_reads s + k) AND msk = expected
        \<or> hw_status hw (status_reads s + k) AND STATUS_ERROR \<noteq> 0)",
     OF _ assms], goal_cases)
  case (1 loop hw msk expected t elapsed s r)
  show ?case
  proof
    assume t: "t = 0"
    show "\<exists>k. hw_status hw (status_reads s + k) AND msk = expected
        \<or> hw_status hw (status_reads s + k) AND STATUS_ERROR \<noteq> 0"
    proof (cases "hw_status hw (status_reads s) AND msk = expected
        \<or> hw_status hw (status_reads s) AND STATUS_ERROR \<noteq> 0")
      case True
      then have "hw_status hw (status_reads s + 0) AND msk = expected
        \<or> hw_status hw (status_reads s + 0) AND STATUS_ERROR \<noteq> 0" by simp
      then show ?thesis by (rule exI)
    next
      case False
      with 1(2) t have "loop hw msk expected t (elapsed + 10)
          (s\<lparr>status_reads := Suc (status_reads s)\<rparr>) = Some r"
        by (simp add: read_status_def)
      from 1(1) [OF this] t obtain k where
        "hw_status hw (Suc (status_reads s) + k) AND msk = expected
          \<or> hw_status hw (Suc (status_reads s) + k) AND STATUS_ERROR \<noteq> 0" by auto
      then have "hw_status hw (status_reads s + Suc k) AND msk = expected
          \<or> hw_status hw (status_reads s + Suc k) AND STATUS_ERROR \<noteq> 0" by simp
      then show ?thesis by (rule exI)
    qed
  qed
qed


lemma unat_of_nat_u32: "n < 2 ^ 32 \<Longrightarrow> unat (of_nat n :: u32) = n"
  by (simp add: unat_of_nat)

lemma polls_for_bounds:
  assumes "t \<noteq> 0" and "unat t \<le> 4294967290"
  shows "\<forall>k < polls_for t. (0 + of_nat (10 * k) :: u32) < t"
    and "\<not> ((0 + of_nat (10 * polls_for t) :: u32) < t)"
proof -
  from assms(2) have "(unat t + 9) div 10 \<le> (4294967290 + 9) div 10"
    by (intro div_le_mono) simp
  then have "polls_for t \<le> 429496729" by (simp add: polls_for_def)
  then have n10: "10 * polls_for t < 2 ^ 32" "unat t \<le> 10 * polls_for t"
    by (simp_all add: polls_for_def)
  show "\<forall>k < polls_for t. (0 + of_nat (10 * k) :: u32) < t"
  proof (intro allI impI)
    fix k assume k: "k < polls_for t"
    then have lt: "10 * k < unat t" by (simp add: polls_for_def)
    with assms(2) have "10 * k < 2 ^ 32" by simp
    then have "unat (of_nat (10 * k) :: u32) = 10 * k" by (rule unat_of_nat_u32)
    with lt show "(0 + of_nat (10 * k) :: u32) < t" by (simp add: word_less_nat_alt)
  qed
  from n10(1) have "unat (of_nat (10 * polls_for t) :: u32) = 10 * polls_for t"
    by (rule unat_of_nat_u32)
  with n10(2) show "\<not> ((0 + of_nat (10 * polls_for t) :: u32) < t)"
    by (simp add: word_less_nat_alt)
qed

lemma wait_status_timeout:
  assumes "t \<noteq> 0" and "unat t \<le> 4294967290"
    and "\<forall>k < polls_for t. hw_status hw (status_reads s + k) AND msk \<noteq> expected
            \<and> hw_status hw (status_reads s + k) AND STATUS_ERROR = 0"
  shows "wait_status hw msk expected t s
       = Some (FW_ERROR_TIMEOUT, s\<lparr>status_reads := status_reads s + polls_for t\<rparr>)"
proof -
  have "wait_status_loop hw msk expected t 0 s
      = wait_status_loop hw msk expected t (0 + of_nat (10 * polls_for t))
          (s\<lparr>status_reads := status_reads s + polls_for t\<rparr>)"
    using polls_for_bounds(1) [OF assms(1,2)] assms(3) by (intro wait_loop_skip) blast
  also have "\<dots> = Some (FW_ERROR_TIMEOUT, s\<lparr>status_reads := status_reads s + polls_for t\<rparr>)"
    using polls_for_bounds(2) [OF assms(1,2)] assms(1)
    by (subst wait_status_loop.simps) simp
  finally show ?thesis by (simp add: wait_status_def)
qed

lemma wait_status_first_change:
  assumes "t = 0 \<or> unat t \<le> 4294967290" and "t = 0 \<or> n < polls_for t"
    and "\<forall>k < n. hw_status hw (status_reads s + k) AND msk \<noteq> expected
            \<and> hw_status hw (status_reads s + k) AND STATUS_ERROR = 0"
  shows "wait_status hw msk expected t s
       = (let x = hw_status hw (status_reads s + n);
              s1 = s\<lparr>status_reads := Suc (status_reads s + n)\<rparr>
          in if x AND msk = expected then Some (FW_OK, s1)
             else if x AND STATUS_ERROR \<noteq> 0 then
               Some (FW_ERROR_HW_FAULT,
                     s1\<lparr>g_ctx := (g_ctx s1)\<lparr>last_error := FW_ERROR_HW_FAULT,
                                              state := NPU_STATE_ERROR\<rparr>\<rparr>)
             else wait_status_loop hw msk expected t (0 + of_nat (10 * n) + 10) s1)"
proof -
  have el: "\<forall>k \<le> n. (0 + of_nat (10 * k) :: u32) < t \<or> t = 0"
  proof (cases "t = 0")
    case True
    then show ?thesis by simp
  next
    case False
    with assms(1,2) have "unat t \<le> 4294967290" "n < polls_for t" by simp_all
    with polls_for_bounds(1) [OF False] show ?thesis by auto
  qed
  have "wait_status_loop hw msk expected t 0 s
      = wait_status_loop hw msk expected t (0 + of_nat (10 * n))
          (s\<lparr>status_reads := status_reads s + n\<rparr>)"
    using assms(3) el by (intro wait_loop_skip) auto
  moreover from el have "(0 + of_nat (10 * n) :: u32) < t \<or> t = 0" by blast
  ultimately show ?thesis
    by (subst (asm) (2) wait_status_loop.simps)
      (auto simp add: wait_status_def read_status_def Let_def)
qed


lemma still_busy_iff:
  "still_busy x \<longleftrightarrow> x AND (STATUS_DONE OR STATUS_ERROR) \<noteq> STATUS_DONE \<and> x AND STATUS_ERROR = 0"
  by (simp add: still_busy_def wait_done_def wait_error_def)

text \<open>
  What \<^verbatim>\<open>npu_rt_wait\<close> returns, by the first poll that is not still busy: success when
  it shows done, the hardware-fault error when it shows the error bit, provided that
  poll is made before the timeout; the timeout error after \<open>polls_for t\<close> polls that are
  all still busy; and no return when the timeout is 0 and every poll is still busy. The
  bound 4294967290 on a nonzero timeout keeps the 32-bit elapsed counter from wrapping.
\<close>

lemma wait_done_not_error: "wait_done x \<Longrightarrow> \<not> wait_error x"
proof -
  assume "wait_done x"
  then have d: "x AND (STATUS_DONE OR STATUS_ERROR) = STATUS_DONE" by (simp add: wait_done_def)
  have "x AND STATUS_ERROR = (x AND (STATUS_DONE OR STATUS_ERROR)) AND STATUS_ERROR"
    by (simp add: STATUS_DONE_def STATUS_ERROR_def and.assoc)
  also have "\<dots> = 0" unfolding d by (simp add: STATUS_DONE_def STATUS_ERROR_def)
  finally show ?thesis by (simp add: wait_error_def)
qed

lemma fw_wait_done_at:
  assumes "g_initialized s" and "t = 0 \<or> unat t \<le> 4294967290" and "t = 0 \<or> n < polls_for t"
    and "\<forall>k < n. still_busy (hw_status hw (status_reads s + k))"
    and "wait_done (hw_status hw (status_reads s + n))"
  shows "npu_rt_wait hw t s = Some (FW_OK,
           update_perf_stats (s\<lparr>status_reads := Suc (status_reads s + n),
                                g_ctx := (g_ctx s)\<lparr>state := NPU_STATE_DONE\<rparr>\<rparr>))"
proof -
  from assms(4) have busy: "\<forall>k < n. hw_status hw (status_reads s + k)
        AND (STATUS_DONE OR STATUS_ERROR) \<noteq> STATUS_DONE
      \<and> hw_status hw (status_reads s + k) AND STATUS_ERROR = 0"
    by (simp add: still_busy_iff)
  from assms(5) have "wait_status hw (STATUS_DONE OR STATUS_ERROR) STATUS_DONE t s
      = Some (FW_OK, s\<lparr>status_reads := Suc (status_reads s + n)\<rparr>)"
    by (simp add: wait_status_first_change [OF assms(2,3) busy] wait_done_def Let_def)
  with assms(1) show ?thesis by (simp add: npu_rt_wait_def)
qed

lemma fw_wait_error_at:
  assumes "g_initialized s" and "t = 0 \<or> unat t \<le> 4294967290" and "t = 0 \<or> n < polls_for t"
    and "\<forall>k < n. still_busy (hw_status hw (status_reads s + k))"
    and "wait_error (hw_status hw (status_reads s + n))"
  shows "npu_rt_wait hw t s = Some (FW_ERROR_HW_FAULT,
           s\<lparr>status_reads := Suc (status_reads s + n),
             g_ctx := (g_ctx s)\<lparr>last_error := FW_ERROR_HW_FAULT, state := NPU_STATE_ERROR\<rparr>\<rparr>)"
proof -
  from assms(4) have busy: "\<forall>k < n. hw_status hw (status_reads s + k)
        AND (STATUS_DONE OR STATUS_ERROR) \<noteq> STATUS_DONE
      \<and> hw_status hw (status_reads s + k) AND STATUS_ERROR = 0"
    by (simp add: still_busy_iff)
  from assms(5) wait_done_not_error
  have "\<not> wait_done (hw_status hw (status_reads s + n))" by blast
  with assms(5) have "wait_status hw (STATUS_DONE OR STATUS_ERROR) STATUS_DONE t s
      = Some (FW_ERROR_HW_FAULT,
          s\<lparr>status_reads := Suc (status_reads s + n),
            g_ctx := (g_ctx s)\<lparr>last_error := FW_ERROR_HW_FAULT, state := NPU_STATE_ERROR\<rparr>\<rparr>)"
    by (simp add: wait_status_first_change [OF assms(2,3) busy] wait_done_def wait_error_def
        Let_def)
  with assms(1) show ?thesis by (simp add: npu_rt_wait_def)
qed

lemma fw_wait_timeout:
  assumes "g_initialized s" and "t \<noteq> 0" and "unat t \<le> 4294967290"
    and "\<forall>k < polls_for t. still_busy (hw_status hw (status_reads s + k))"
  shows "npu_rt_wait hw t s
       = Some (FW_ERROR_TIMEOUT, s\<lparr>status_reads := status_reads s + polls_for t\<rparr>)"
proof -
  from assms(2,3,4) have "wait_status hw (STATUS_DONE OR STATUS_ERROR) STATUS_DONE t s
      = Some (FW_ERROR_TIMEOUT, s\<lparr>status_reads := status_reads s + polls_for t\<rparr>)"
    by (intro wait_status_timeout) (simp_all add: still_busy_iff)
  with assms(1) show ?thesis by (simp add: npu_rt_wait_def)
qed

lemma fw_wait_forever_never_timeout:
  assumes "g_initialized s" and "npu_rt_wait hw 0 s = Some r"
  shows "fst r \<noteq> FW_ERROR_TIMEOUT"
proof (cases "wait_status_loop hw (STATUS_DONE OR STATUS_ERROR) STATUS_DONE 0 0 s")
  case None
  with assms show ?thesis by (simp add: npu_rt_wait_def wait_status_def)
next
  case (Some p)
  from wait_loop_never_timeout [OF Some] have "fst p \<noteq> FW_ERROR_TIMEOUT" by simp
  moreover from assms Some have "fst r = fst p"
    by (cases p) (auto simp: npu_rt_wait_def wait_status_def split: if_splits)
  ultimately show ?thesis by simp
qed

lemma fw_wait_forever_blocks:
  assumes "g_initialized s" and "\<forall>k. still_busy (hw_status hw (status_reads s + k))"
  shows "npu_rt_wait hw 0 s = None"
proof -
  have "wait_status hw (STATUS_DONE OR STATUS_ERROR) STATUS_DONE 0 s = None"
  proof (rule ccontr)
    assume "wait_status hw (STATUS_DONE OR STATUS_ERROR) STATUS_DONE 0 s \<noteq> None"
    then obtain r where
      "wait_status_loop hw (STATUS_DONE OR STATUS_ERROR) STATUS_DONE 0 0 s = Some r"
      by (auto simp: wait_status_def)
    from wait_loop_returns_after_change [OF this] assms(2) show False
      by (auto simp: still_busy_iff)
  qed
  with assms(1) show ?thesis by (simp add: npu_rt_wait_def)
qed

definition idle_hw :: npu_hw where
  "idle_hw = \<lparr>hw_status = (\<lambda>k. STATUS_IDLE), hw_dma_status = (\<lambda>k. 0)\<rparr>"

definition done_hw :: npu_hw where
  "done_hw = \<lparr>hw_status = (\<lambda>k. STATUS_DONE), hw_dma_status = (\<lambda>k. DMA_STATUS_DONE)\<rparr>"

lemma still_busy_0: "still_busy 0"
  by (simp add: still_busy_def wait_done_def wait_error_def STATUS_DONE_def)

lemma wait_done_STATUS_DONE: "wait_done STATUS_DONE"
  by (simp add: wait_done_def STATUS_DONE_def STATUS_ERROR_def)

lemma polls_for_30: "polls_for 30 = 3" and polls_for_10: "polls_for 10 = 1"
  by (simp_all add: polls_for_def)

text \<open>
  Claim C7 fails on the firmware: on a device whose status register reads idle (and
  neither done nor error) at every poll, \<^verbatim>\<open>npu_rt_wait\<close> with a timeout of 10 microseconds
  does not return success: it returns \<^verbatim>\<open>FW_ERROR_TIMEOUT\<close>.
\<close>

theorem npu_rt_wait_idle_counterexample:
  "g_initialized fw_running_state
   \<and> hw_status idle_hw (status_reads fw_running_state) = STATUS_IDLE
   \<and> fst (the (npu_rt_wait idle_hw 10 fw_running_state)) = FW_ERROR_TIMEOUT"
proof -
  have a: "g_initialized fw_running_state" by (rule fw_running_state_facts)
  have "\<forall>k < polls_for 10.
      hw_status idle_hw (status_reads fw_running_state + k) AND (STATUS_DONE OR STATUS_ERROR)
        \<noteq> STATUS_DONE
      \<and> hw_status idle_hw (status_reads fw_running_state + k) AND STATUS_ERROR = 0"
    using idle_is_still_busy by (simp add: idle_hw_def still_busy_iff)
  then have "wait_status idle_hw (STATUS_DONE OR STATUS_ERROR) STATUS_DONE 10 fw_running_state
      = Some (FW_ERROR_TIMEOUT,
          fw_running_state\<lparr>status_reads := status_reads fw_running_state + polls_for 10\<rparr>)"
    by (intro wait_status_timeout) simp_all
  with a show ?thesis by (simp add: npu_rt_wait_def idle_hw_def)
qed

subsection \<open>The elapsed counter wraps\<close>

text \<open>
  The elapsed time is a 32-bit counter that grows by 10 and so stays even. With the
  largest timeout, 4294967295, it never reaches the timeout: a wait on a device that
  stays busy does not return, although the timeout is not 0.
\<close>

lemma even_word_below_max:
  assumes "even (x :: u32)"
  shows "x < 0xFFFFFFFF"
proof -
  have "x \<noteq> 0xFFFFFFFF" using assms by auto
  then have "unat x \<noteq> 4294967295" by (simp add: word_unat_eq_iff)
  moreover have "unat x < 2 ^ 32" using unsigned_less [of x] by simp
  ultimately have "unat x < 4294967295" by simp
  then show ?thesis by (simp add: word_less_nat_alt)
qed

lemma wait_loop_max_timeout:
  assumes "wait_status_loop hw msk expected t elapsed s = Some r"
  shows "t = 0xFFFFFFFF \<and> even elapsed \<longrightarrow>
           (\<exists>k. hw_status hw (status_reads s + k) AND msk = expected
              \<or> hw_status hw (status_reads s + k) AND STATUS_ERROR \<noteq> 0)"
proof (rule wait_status_loop.raw_induct
    [where P = "\<lambda>hw msk expected t elapsed s r.
       t = 0xFFFFFFFF \<and> even elapsed \<longrightarrow>
         (\<exists>k. hw_status hw (status_reads s + k) AND msk = expected
            \<or> hw_status hw (status_reads s + k) AND STATUS_ERROR \<noteq> 0)",
     OF _ assms], goal_cases)
  case (1 loop hw msk expected t elapsed s r)
  show ?case
  proof
    assume a: "t = 0xFFFFFFFF \<and> even elapsed"
    then have lt: "elapsed < t" by (simp add: even_word_below_max)
    from a have ev: "even (elapsed + 10)" by simp
    show "\<exists>k. hw_status hw (status_reads s + k) AND msk = expected
        \<or> hw_status hw (status_reads s + k) AND STATUS_ERROR \<noteq> 0"
    proof (cases "hw_status hw (status_reads s) AND msk = expected
        \<or> hw_status hw (status_reads s) AND STATUS_ERROR \<noteq> 0")
      case True
      then have "hw_status hw (status_reads s + 0) AND msk = expected
        \<or> hw_status hw (status_reads s + 0) AND STATUS_ERROR \<noteq> 0" by simp
      then show ?thesis by (rule exI)
    next
      case False
      with 1(2) lt have "loop hw msk expected t (elapsed + 10)
          (s\<lparr>status_reads := Suc (status_reads s)\<rparr>) = Some r"
        by (simp add: read_status_def)
      from 1(1) [OF this] a ev obtain k where
        "hw_status hw (Suc (status_reads s) + k) AND msk = expected
          \<or> hw_status hw (Suc (status_reads s) + k) AND STATUS_ERROR \<noteq> 0" by auto
      then have "hw_status hw (status_reads s + Suc k) AND msk = expected
          \<or> hw_status hw (status_reads s + Suc k) AND STATUS_ERROR \<noteq> 0" by simp
      then show ?thesis by (rule exI)
    qed
  qed
qed

lemma npu_rt_wait_max_timeout_blocks:
  assumes "g_initialized s" and "\<forall>k. still_busy (hw_status hw (status_reads s + k))"
  shows "npu_rt_wait hw 0xFFFFFFFF s = None"
proof -
  have "wait_status hw (STATUS_DONE OR STATUS_ERROR) STATUS_DONE 0xFFFFFFFF s = None"
  proof (rule ccontr)
    assume "wait_status hw (STATUS_DONE OR STATUS_ERROR) STATUS_DONE 0xFFFFFFFF s \<noteq> None"
    then obtain r where
      "wait_status_loop hw (STATUS_DONE OR STATUS_ERROR) STATUS_DONE 0xFFFFFFFF 0 s = Some r"
      by (auto simp: wait_status_def)
    from wait_loop_max_timeout [OF this] assms(2) show False
      by (auto simp: still_busy_iff)
  qed
  with assms(1) show ?thesis by (simp add: npu_rt_wait_def)
qed

section \<open>Executing a layer\<close>

definition configure_layer_regs :: "layer_desc_t \<Rightarrow> fw_state \<Rightarrow> fw_state" where
  "configure_layer_regs L s =
     (let s1 = REG_WRITE REG_LAYER_TYPE (layer_type_val (layer_type L)) s;
          s2 = REG_WRITE REG_LAYER_IN_CH (ucast (dim_c (input L))) s1;
          s3 = REG_WRITE REG_LAYER_OUT_CH (ucast (dim_c (output L))) s2;
          s4 = REG_WRITE REG_LAYER_IN_H (ucast (dim_h (input L))) s3;
          s5 = REG_WRITE REG_LAYER_IN_W (ucast (dim_w (input L))) s4;
          s6 = REG_WRITE REG_LAYER_OUT_H (ucast (dim_h (output L))) s5;
          s7 = REG_WRITE REG_LAYER_OUT_W (ucast (dim_w (output L))) s6;
          s8 = REG_WRITE REG_LAYER_KERNEL
                 (push_bit 8 (ucast (kernel_h L)) OR ucast (kernel_w L)) s7;
          s9 = REG_WRITE REG_LAYER_STRIDE
                 (push_bit 8 (ucast (stride_h L)) OR ucast (stride_w L)) s8;
          s10 = REG_WRITE REG_LAYER_PADDING
                  (((push_bit 24 (ucast (pad_top L)) OR push_bit 16 (ucast (pad_bottom L)))
                     OR push_bit 8 (ucast (pad_left L))) OR ucast (pad_right L)) s9;
          s11 = REG_WRITE REG_LAYER_ACT_TYPE (activation_val (activation L)) s10;
          s12 = REG_WRITE REG_LAYER_QUANT_SCALE (output_scale L) s11
      in REG_WRITE REG_LAYER_QUANT_ZERO (scast (output_zero_point L)) s12)"

text \<open>
  \<^verbatim>\<open>npu_rt_exec_conv\<close> makes the stores of \<open>conv_build\<close> one after the other into its
  local array \<^verbatim>\<open>uint64_t inst_buf[256]\<close>, the k-th store at index k, with no check of the
  index against the array length. While every index is below 256 the array holds
  exactly \<open>conv_build\<close>. A store at index 256 or more is outside the array: the behaviour
  of the C call is undefined from there on, and the model says so instead of giving a
  status and a state.
\<close>

datatype undefined_behaviour = Store_Past_Inst_Buf

definition npu_rt_exec_conv ::
  "npu_hw \<Rightarrow> layer_desc_t option \<Rightarrow> fw_state
     \<Rightarrow> undefined_behaviour + (fw_status_t \<times> fw_state) option" where
  "npu_rt_exec_conv hw layer s =
     (case layer of
        None \<Rightarrow> Inr (Some (FW_ERROR_INVALID_PARAM, s))
      | Some L \<Rightarrow>
          (let s1 = configure_layer_regs L s;
               inst_buf = conv_build L;
               inst_idx = (of_nat (length inst_buf) :: u32)
           in if CONV_INST_BUF_LEN < length inst_buf then Inl Store_Past_Inst_Buf
              else Inr
                (case npu_rt_load_instructions (Some (\<lambda>i. inst_buf ! i)) inst_idx s1 of
                   (status, s2) \<Rightarrow>
                     if status \<noteq> FW_OK then Some (status, s2)
                     else case npu_rt_start s2 of
                       (status, s3) \<Rightarrow>
                         if status \<noteq> FW_OK then Some (status, s3)
                         else npu_rt_wait hw 0 s3)))"

text \<open>
  \<^verbatim>\<open>npu_rt_exec_fc\<close> copies the descriptor, overwrites the fields below in the order of the
  source and calls \<^verbatim>\<open>npu_rt_exec_conv\<close>. The product for \<^verbatim>\<open>input.c\<close> is computed from the
  original descriptor in \<^verbatim>\<open>int\<close> (taken to wrap at 32 bits where it overflows) and stored
  into the 16-bit field, which keeps its low 16 bits.
\<close>

definition fc_as_conv :: "layer_desc_t \<Rightarrow> layer_desc_t" where
  "fc_as_conv L =
     (let a = L\<lparr>layer_type := LAYER_CONV2D, kernel_h := 1, kernel_w := 1,
                stride_h := 1, stride_w := 1,
                pad_top := 0, pad_bottom := 0, pad_left := 0, pad_right := 0\<rparr>;
          b = a\<lparr>input := (input a)\<lparr>dim_h := 1\<rparr>\<rparr>;
          c = b\<lparr>input := (input b)\<lparr>dim_w := 1\<rparr>\<rparr>;
          d = c\<lparr>input := (input c)\<lparr>dim_c :=
                 ucast ((ucast (dim_c (input L)) * ucast (dim_h (input L))
                         * ucast (dim_w (input L))) :: u32)\<rparr>\<rparr>;
          e = d\<lparr>output := (output d)\<lparr>dim_h := 1\<rparr>\<rparr>
      in e\<lparr>output := (output e)\<lparr>dim_w := 1\<rparr>\<rparr>)"

definition npu_rt_exec_fc ::
  "npu_hw \<Rightarrow> layer_desc_t option \<Rightarrow> fw_state
     \<Rightarrow> undefined_behaviour + (fw_status_t \<times> fw_state) option" where
  "npu_rt_exec_fc hw layer s =
     (case layer of
        None \<Rightarrow> Inr (Some (FW_ERROR_INVALID_PARAM, s))
      | Some L \<Rightarrow> npu_rt_exec_conv hw (Some (fc_as_conv L)) s)"

subsection \<open>A convolution that overruns the array\<close>

definition big_conv :: layer_desc_t where
  "big_conv = example_conv\<lparr>input := example_tensor\<lparr>dim_c := 256\<rparr>,
                           output := example_tensor\<lparr>addr := 0x2000, dim_c := 128\<rparr>\<rparr>"

lemma big_conv_tiles: "unat (oc_tiles big_conv) = 8" "unat (ic_tiles big_conv) = 16"
  by (simp_all add: big_conv_def example_conv_def example_tensor_def oc_tiles_def ic_tiles_def
      out_ch_def in_ch_def tile_oc_def tile_ic_def NPU_PE_COLS_def NPU_PE_ROWS_def)

lemma configure_layer_regs_frame:
  "g_initialized (configure_layer_regs L s) = g_initialized s"
  "g_ctx (configure_layer_regs L s) = g_ctx s"
  "status_reads (configure_layer_regs L s) = status_reads s"
  by (simp_all add: configure_layer_regs_def Let_def REG_WRITE_def)

text \<open>
  Claim C4 fails on the code. For a convolution with 128 output channels and 256 input
  channels \<^verbatim>\<open>npu_rt_exec_conv\<close> makes 289 stores into its 256-entry array: the stores at
  indices 256 to 288 are past its end. No test precedes them and no error is returned
  for them: the call runs into the out-of-bounds store.
\<close>

theorem conv_inst_buf_overrun_example:
  "length (conv_build big_conv) = 289
   \<and> CONV_INST_BUF_LEN < length (conv_build big_conv)
   \<and> npu_rt_exec_conv done_hw (Some big_conv) fw_idle_state = Inl Store_Past_Inst_Buf"
proof -
  have len: "length (conv_build big_conv) = 289"
    by (simp add: length_conv_build big_conv_tiles)
  then show ?thesis
    by (simp add: npu_rt_exec_conv_def Let_def CONV_INST_BUF_LEN_def)
qed

text \<open>
  Within the array the call is the three runtime calls in sequence: on an idle device
  that signals done at the first poll the 32-by-32-channel convolution returns
  \<^verbatim>\<open>FW_OK\<close> with 17 as instruction count.
\<close>

lemma exec_conv_example_runs:
  "\<exists>s'. npu_rt_exec_conv done_hw (Some example_conv) fw_idle_state = Inr (Some (FW_OK, s'))
        \<and> inst_count (g_ctx s') = 17 \<and> state (g_ctx s') = NPU_STATE_DONE"
proof -
  have "oc_tiles example_conv = 2" "ic_tiles example_conv = 2"
    by (rule tiles_32; simp add: example_conv_def example_tensor_def)+
  then have len: "length (conv_build example_conv) = 17"
    by (simp add: length_conv_build)
  let ?s1 = "configure_layer_regs example_conv fw_idle_state"
  let ?ld = "npu_rt_load_instructions (Some (\<lambda>i. conv_build example_conv ! i)) 17 ?s1"
  have ld: "fst ?ld = FW_OK" "g_initialized (snd ?ld)"
    "state (g_ctx (snd ?ld)) = NPU_STATE_IDLE" "inst_count (g_ctx (snd ?ld)) = 17"
    by (simp_all add: npu_rt_load_instructions_def configure_layer_regs_frame
        fw_idle_state_facts NPU_INST_BUF_ENTRIES_def Let_def REG_WRITE_def)
  let ?st = "npu_rt_start (snd ?ld)"
  have st: "fst ?st = FW_OK" "g_initialized (snd ?st)" "inst_count (g_ctx (snd ?st)) = 17"
    using ld by (simp_all add: npu_rt_start_def Let_def REG_WRITE_def REG_SET_def)
  have "wait_status done_hw (STATUS_DONE OR STATUS_ERROR) STATUS_DONE 0 (snd ?st)
      = Some (FW_OK, (snd ?st)\<lparr>status_reads := Suc (status_reads (snd ?st))\<rparr>)"
    unfolding wait_status_def
    by (subst wait_status_loop.simps)
      (simp add: read_status_def done_hw_def STATUS_DONE_def STATUS_ERROR_def)
  with st obtain s' where w: "npu_rt_wait done_hw 0 (snd ?st) = Some (FW_OK, s')"
    "inst_count (g_ctx s') = 17" "state (g_ctx s') = NPU_STATE_DONE"
    by (simp add: npu_rt_wait_def update_perf_stats_def Let_def)
  have "npu_rt_exec_conv done_hw (Some example_conv) fw_idle_state
      = Inr (npu_rt_wait done_hw 0 (snd ?st))"
    using ld(1) st(1)
    by (simp add: npu_rt_exec_conv_def Let_def len case_prod_beta CONV_INST_BUF_LEN_def)
  with w show ?thesis by simp
qed

subsection \<open>Fully-connected layers\<close>

text \<open>
  The lowering as the specification words it: a conv2d descriptor with kernel and stride
  1 by 1, all paddings 0, the input reshaped to 1 by 1 with channel count
  channel * height * width of the original input, and a 1 by 1 output; every other field
  as in the original.
\<close>

definition flattened_size :: "layer_desc_t \<Rightarrow> nat" where
  "flattened_size L = unat (dim_c (input L)) * unat (dim_h (input L)) * unat (dim_w (input L))"

definition fc_lowered_spec :: "layer_desc_t \<Rightarrow> layer_desc_t" where
  "fc_lowered_spec L =
     L\<lparr>layer_type := LAYER_CONV2D,
       kernel_h := 1, kernel_w := 1, stride_h := 1, stride_w := 1,
       pad_top := 0, pad_bottom := 0, pad_left := 0, pad_right := 0,
       input := (input L)\<lparr>dim_c := of_nat (flattened_size L), dim_h := 1, dim_w := 1\<rparr>,
       output := (output L)\<lparr>dim_h := 1, dim_w := 1\<rparr>\<rparr>"

lemma fc_channel_product:
  "(ucast ((ucast a * ucast b * ucast c) :: u32) :: u16)
     = of_nat (unat (a :: u16) * unat (b :: u16) * unat (c :: u16))"
proof -
  let ?n = "unat a * unat b * unat c"
  have "(ucast a * ucast b * ucast c :: u32) = of_nat ?n"
    by simp
  then have "(ucast ((ucast a * ucast b * ucast c) :: u32) :: u16)
      = of_nat (take_bit 32 ?n)"
    by (simp only: unsigned_of_nat) simp
  also have "take_bit LENGTH(16) (take_bit 32 ?n) = take_bit LENGTH(16) ?n"
    by (simp add: min_def)
  then have "(of_nat (take_bit 32 ?n) :: u16) = of_nat ?n"
    by (simp only: word_of_nat_eq_iff)
  finally show ?thesis .
qed


lemma fc_as_conv_eq_spec: "fc_as_conv L = fc_lowered_spec L"
  by (simp add: fc_as_conv_def fc_lowered_spec_def Let_def fc_channel_product
      flattened_size_def)

lemma unat_flattened:
  "flattened_size L < 65536 \<Longrightarrow> unat (of_nat (flattened_size L) :: u16) = flattened_size L"
  by (simp add: unat_of_nat)

text \<open>
  \<^verbatim>\<open>npu_rt_exec_fc\<close> has no tiling of its own: it is \<^verbatim>\<open>npu_rt_exec_conv\<close> on the rewritten
  descriptor, whose channel field holds the flattened size reduced to 16 bits; the two
  agree when the flattened size is below 65536.
\<close>

lemma exec_fc_delegates:
  "npu_rt_exec_fc hw (Some L) s = npu_rt_exec_conv hw (Some (fc_lowered_spec L)) s"
  "npu_rt_exec_fc hw None s = npu_rt_exec_conv hw None s"
  "flattened_size L < 65536 \<Longrightarrow> unat (dim_c (input (fc_lowered_spec L))) = flattened_size L"
  using unat_flattened [of L]
  by (simp_all add: npu_rt_exec_fc_def fc_as_conv_eq_spec npu_rt_exec_conv_def
      fc_lowered_spec_def)

definition big_fc :: layer_desc_t where
  "big_fc = example_conv\<lparr>layer_type := LAYER_FC,
     input := example_tensor\<lparr>dim_c := 256, dim_h := 16, dim_w := 16\<rparr>,
     output := example_tensor\<lparr>addr := 0x2000, dim_c := 10, dim_h := 1, dim_w := 1\<rparr>\<rparr>"

text \<open>
  Claim C9 fails on the code. For a fully-connected layer with a 256-channel 16 by 16
  input the flattened size is 65536, but the channel count that \<^verbatim>\<open>npu_rt_exec_fc\<close> stores
  in the descriptor it hands to \<^verbatim>\<open>npu_rt_exec_conv\<close> is 0: the convolution path computes
  0 input-channel tiles and compiles a sequence with no load-weight or compute
  instruction at all (5 instructions, within the array).
\<close>

theorem exec_fc_flattened_size_truncated:
  "flattened_size big_fc = 65536
   \<and> unat (dim_c (input (fc_as_conv big_fc))) = 0
   \<and> npu_rt_exec_fc done_hw (Some big_fc) fw_idle_state
       = npu_rt_exec_conv done_hw (Some (fc_as_conv big_fc)) fw_idle_state
   \<and> ic_tiles (fc_as_conv big_fc) = 0
   \<and> map inst_get_opcode (conv_build (fc_as_conv big_fc))
       = [OP_CLEAR_ACC, OP_DMA_LOAD_W, OP_WAIT_DMA, OP_DRAIN, OP_HALT]"
proof -
  have c: "dim_c (input (fc_as_conv big_fc)) = 0" "dim_c (output (fc_as_conv big_fc)) = 10"
    by (simp_all add: fc_as_conv_def Let_def big_fc_def example_conv_def example_tensor_def)
  then have t: "oc_tiles (fc_as_conv big_fc) = 1" "ic_tiles (fc_as_conv big_fc) = 0"
    by (simp_all add: oc_tiles_def ic_tiles_def out_ch_def in_ch_def tile_oc_def tile_ic_def
        NPU_PE_COLS_def NPU_PE_ROWS_def)
  have "flattened_size big_fc = 65536"
    by (simp add: flattened_size_def big_fc_def example_conv_def example_tensor_def)
  with c t show ?thesis
    by (simp add: conv_build_closed oc_group_def npu_rt_exec_fc_def)
qed

section \<open>Loading while the device runs\<close>

definition example_bytes :: byte_ptr where
  "example_bytes = \<lparr>ptr_addr = 0x20001000, ptr_bytes = (\<lambda>i. 7)\<rparr>"

lemma fw_running_state_config: "g_config fw_running_state = example_config"
  by (simp add: fw_running_state_def npu_rt_start_def fw_idle_state_facts Let_def
      REG_WRITE_def REG_SET_def)

lemma store_bytes_at:
  "store_bytes src dst sz mem a
     = (if unat (a - dst) < unat sz then src (unat (a - dst)) else mem a)"
proof -
  have "n \<le> 2 ^ 32 \<Longrightarrow> fold (\<lambda>i m. m(dst + of_nat i := src i)) [0 ..< n] mem a
      = (if unat (a - dst) < n then src (unat (a - dst)) else mem a)" for n
  proof (induction n)
    case 0
    then show ?case by simp
  next
    case (Suc n)
    then have n: "n < 2 ^ 32" by simp
    then have un: "unat (of_nat n :: u32) = n" by (simp add: unat_of_nat)
    have eq: "(a = dst + of_nat n) = (unat (a - dst) = n)"
    proof
      assume "a = dst + of_nat n"
      then show "unat (a - dst) = n" by (simp add: un)
    next
      assume "unat (a - dst) = n"
      then have "of_nat (unat (a - dst)) = (of_nat n :: u32)" by simp
      then have "a - dst = of_nat n" by simp
      then show "a = dst + of_nat n" by (simp add: algebra_simps)
    qed
    from Suc show ?case by (auto simp: eq)
  qed
  moreover have "unat sz \<le> 2 ^ 32" using unsigned_less [of sz, where ?'a = nat] by simp
  ultimately show ?thesis by (simp add: store_bytes_def)
qed

lemma dma_wait_done_at_once:
  assumes "hw_dma_status hw (dma_status_reads s) AND DMA_STATUS_DONE \<noteq> 0" and "t \<noteq> 0"
  shows "npu_rt_dma_wait hw t s = Some (FW_OK, s\<lparr>dma_status_reads := Suc (dma_status_reads s)\<rparr>)"
  unfolding npu_rt_dma_wait_def using assms
  by (subst dma_wait_loop.simps) (simp add: read_dma_status_def word_greater_zero_iff)

text \<open>
  Claim C5 fails on the firmware runtime. In an initialised context whose state is
  \<^verbatim>\<open>NPU_STATE_RUNNING\<close>, each of the three loaders succeeds instead of failing with
  \<^verbatim>\<open>FW_ERROR_BUSY\<close>: \<^verbatim>\<open>npu_rt_load_instructions\<close> with one instruction returns \<^verbatim>\<open>FW_OK\<close>
  and writes entry 0 of the instruction buffer and the instruction-size register;
  \<^verbatim>\<open>npu_rt_load_weights\<close> with 4 bytes returns \<^verbatim>\<open>FW_OK\<close> and writes the weight buffer
  (its first byte, at \<^verbatim>\<open>NPU_WEIGHT_BUF_BASE\<close>) and the weight-size register; \<^verbatim>\<open>npu_rt_load_input\<close> with 4 bytes (the DMA engine
  reporting done) returns \<^verbatim>\<open>FW_OK\<close> and writes the input-size register.
\<close>

theorem fw_load_while_running:
  "g_initialized fw_running_state \<and> state (g_ctx fw_running_state) = NPU_STATE_RUNNING
   \<and> fst (npu_rt_load_instructions (Some (\<lambda>i. INST_HALT)) 1 fw_running_state) = FW_OK
   \<and> inst_mem (snd (npu_rt_load_instructions (Some (\<lambda>i. INST_HALT)) 1 fw_running_state)) 0
       = INST_HALT
   \<and> regs (snd (npu_rt_load_instructions (Some (\<lambda>i. INST_HALT)) 1 fw_running_state))
       REG_INST_SIZE = 1
   \<and> fst (the (npu_rt_load_weights done_hw example_bytes 4 0 fw_running_state)) = FW_OK
   \<and> weight_mem (snd (the (npu_rt_load_weights done_hw example_bytes 4 0 fw_running_state)))
       NPU_WEIGHT_BUF_BASE = 7
   \<and> regs (snd (the (npu_rt_load_weights done_hw example_bytes 4 0 fw_running_state)))
       REG_WEIGHT_SIZE = 4
   \<and> fst (the (npu_rt_load_input done_hw example_bytes 4 fw_running_state)) = FW_OK
   \<and> regs (snd (the (npu_rt_load_input done_hw example_bytes 4 fw_running_state)))
       REG_ACT_IN_SIZE = 4"
proof -
  have li: "fst (npu_rt_load_instructions (Some (\<lambda>i. INST_HALT)) 1 fw_running_state) = FW_OK
    \<and> inst_mem (snd (npu_rt_load_instructions (Some (\<lambda>i. INST_HALT)) 1 fw_running_state)) 0
       = INST_HALT
    \<and> regs (snd (npu_rt_load_instructions (Some (\<lambda>i. INST_HALT)) 1 fw_running_state))
       REG_INST_SIZE = 1"
    by (simp add: fw_running_state_facts npu_rt_load_instructions_def NPU_INST_BUF_ENTRIES_def
        Let_def REG_WRITE_def copy_instructions_nth REG_INST_SIZE_def REG_INST_PTR_def
        NPU_BASE_def)
  have lw: "npu_rt_load_weights done_hw example_bytes 4 0 fw_running_state
      = Some (FW_OK, REG_WRITE REG_WEIGHT_SIZE 4
          (fw_running_state\<lparr>weight_mem :=
             store_bytes (ptr_bytes example_bytes) NPU_WEIGHT_BUF_BASE 4
               (weight_mem fw_running_state)\<rparr>))"
    by (simp add: npu_rt_load_weights_def fw_running_state_facts fw_running_state_config
        example_config_def example_bytes_def Let_def)
  let ?d = "zero_desc\<lparr>src_addr := ptr_addr example_bytes, dst_addr := NPU_ACT_BUF_BASE,
                       dma_length := 4, channel := DMA_CH_ACT_IN, dma_flags := 0\<rparr>"
  obtain s1 where ds: "npu_rt_dma_start done_hw (Some ?d) fw_running_state = Some (FW_OK, s1)"
    by (simp add: npu_rt_dma_start_def npu_rt_dma_is_busy_def read_dma_status_def done_hw_def
        DMA_STATUS_DONE_def DMA_STATUS_BUSY_def Let_def zero_desc_def)
  have dw: "npu_rt_dma_wait done_hw 1000000 s1
      = Some (FW_OK, s1\<lparr>dma_status_reads := Suc (dma_status_reads s1)\<rparr>)"
    by (rule dma_wait_done_at_once) (simp_all add: done_hw_def DMA_STATUS_DONE_def)
  have inp: "npu_rt_load_input done_hw example_bytes 4 fw_running_state
      = Some (FW_OK, REG_WRITE REG_ACT_IN_SIZE 4
          (s1\<lparr>dma_status_reads := Suc (dma_status_reads s1)\<rparr>))"
    using ds dw
    by (simp add: npu_rt_load_input_def fw_running_state_facts fw_running_state_config
        example_config_def example_bytes_def)
  have w: "fst (the (npu_rt_load_weights done_hw example_bytes 4 0 fw_running_state)) = FW_OK
    \<and> weight_mem (snd (the (npu_rt_load_weights done_hw example_bytes 4 0 fw_running_state)))
       NPU_WEIGHT_BUF_BASE = 7
    \<and> regs (snd (the (npu_rt_load_weights done_hw example_bytes 4 0 fw_running_state)))
       REG_WEIGHT_SIZE = 4"
    unfolding lw by (simp add: REG_WRITE_def store_bytes_at example_bytes_def)
  have i: "fst (the (npu_rt_load_input done_hw example_bytes 4 fw_running_state)) = FW_OK
    \<and> regs (snd (the (npu_rt_load_input done_hw example_bytes 4 fw_running_state)))
       REG_ACT_IN_SIZE = 4"
    unfolding inp by (simp add: REG_WRITE_def)
  from li w i show ?thesis
    by (simp add: fw_running_state_facts)
qed

section \<open>Host driver (npu\_driver.c)\<close>

text \<open>
  The host driver implements the same operations on its own context. Its status and
  state enumerations reuse names of the firmware's; the driver's states are written
  \<open>DRV_STATE_...\<close> here, and fields that share a name with a firmware field carry the
  prefix \<open>drv\<close>. The hardware-info, callback and debug fields of \<^verbatim>\<open>struct npu_context\<close> play
  no part in the functions below and are left out.
\<close>

datatype npu_status_t =
    NPU_OK | NPU_ERROR_INVALID_PARAM | NPU_ERROR_NOT_INITIALIZED | NPU_ERROR_BUSY
  | NPU_ERROR_TIMEOUT | NPU_ERROR_HW_ERROR | NPU_ERROR_NO_MEMORY | NPU_ERROR_INVALID_MODEL

datatype drv_state_t =
    DRV_STATE_UNINITIALIZED | DRV_STATE_IDLE | DRV_STATE_RUNNING | DRV_STATE_ERROR

record npu_config_t =
  base_addr :: u32
  drv_inst_buf_addr :: u32
  drv_inst_buf_size :: u32
  drv_weight_buf_addr :: u32
  drv_weight_buf_size :: u32
  drv_act_buf_addr :: u32
  drv_act_buf_size :: u32

record npu_perf_stats_t =
  drv_total_cycles :: u64
  instructions_executed :: u64
  mac_operations :: u64
  drv_stall_cycles :: u64
  utilization :: real

text \<open>
  The driver's view of the machine: the context, the registers it has written (by
  address), and the three buffers at the configured addresses (instructions by entry,
  weights and activations by byte). The device side is the environment \<open>drv_hw\<close>: what the
  k-th read of the status register returns and what the four performance counters hold
  when they are read back.
\<close>

record npu_context =
  config :: npu_config_t
  drv_state :: drv_state_t
  perf_stats :: npu_perf_stats_t
  drv_regs :: "u32 \<Rightarrow> u32"
  drv_inst_mem :: "nat \<Rightarrow> u64"
  drv_weight_mem :: "nat \<Rightarrow> u8"
  drv_act_mem :: "nat \<Rightarrow> u8"
  drv_status_reads :: nat

record drv_hw =
  drv_hw_status :: "nat \<Rightarrow> u32"
  hw_perf_cycles :: u32
  hw_perf_inst :: u32
  hw_perf_mac :: u32
  hw_perf_stall :: u32

definition NPU_REG_CTRL :: u32 where "NPU_REG_CTRL = 0x000"
definition NPU_REG_INST_BASE :: u32 where "NPU_REG_INST_BASE = 0x100"
definition NPU_REG_INST_SIZE :: u32 where "NPU_REG_INST_SIZE = 0x104"
definition NPU_REG_INST_PTR :: u32 where "NPU_REG_INST_PTR = 0x108"
definition NPU_REG_WEIGHT_BASE :: u32 where "NPU_REG_WEIGHT_BASE = 0x200"
definition NPU_REG_WEIGHT_SIZE :: u32 where "NPU_REG_WEIGHT_SIZE = 0x204"
definition NPU_REG_ACT_IN_BASE :: u32 where "NPU_REG_ACT_IN_BASE = 0x300"
definition NPU_REG_ACT_IN_SIZE :: u32 where "NPU_REG_ACT_IN_SIZE = 0x304"
definition NPU_REG_PERF_CYCLES :: u32 where "NPU_REG_PERF_CYCLES = 0x500"
definition NPU_REG_PERF_INST :: u32 where "NPU_REG_PERF_INST = 0x504"
definition NPU_REG_PERF_MAC :: u32 where "NPU_REG_PERF_MAC = 0x508"
definition NPU_REG_PERF_STALL :: u32 where "NPU_REG_PERF_STALL = 0x50C"

definition NPU_CTRL_ENABLE :: u32 where "NPU_CTRL_ENABLE = push_bit 0 1"
definition NPU_CTRL_START :: u32 where "NPU_CTRL_START = push_bit 1 1"
definition NPU_STATUS_IDLE :: u32 where "NPU_STATUS_IDLE = push_bit 0 1"
definition NPU_STATUS_DONE :: u32 where "NPU_STATUS_DONE = push_bit 2 1"
definition NPU_STATUS_ERROR :: u32 where "NPU_STATUS_ERROR = push_bit 3 1"

definition copy_bytes :: "(nat \<Rightarrow> u8) \<Rightarrow> nat \<Rightarrow> u32 \<Rightarrow> (nat \<Rightarrow> u8) \<Rightarrow> (nat \<Rightarrow> u8)" where
  "copy_bytes src off sz mem = fold (\<lambda>i m. m(off + i := src i)) [0 ..< unat sz] mem"

definition reg_write :: "npu_context \<Rightarrow> u32 \<Rightarrow> u32 \<Rightarrow> npu_context" where
  "reg_write ctx offset v = ctx\<lparr>drv_regs := (drv_regs ctx)(base_addr (config ctx) + offset := v)\<rparr>"

partial_function (option) wait_for_idle_loop ::
  "drv_hw \<Rightarrow> u32 \<Rightarrow> u32 \<Rightarrow> u32 \<Rightarrow> npu_context \<Rightarrow> (npu_status_t \<times> npu_context) option"
where
  "wait_for_idle_loop hw timeout_ms timeout_us elapsed ctx =
     (if elapsed < timeout_us \<or> timeout_ms = 0 then
        (let status = drv_hw_status hw (drv_status_reads ctx);
             c1 = ctx\<lparr>drv_status_reads := Suc (drv_status_reads ctx)\<rparr>
         in if status AND NPU_STATUS_ERROR \<noteq> 0
              then Some (NPU_ERROR_HW_ERROR, c1\<lparr>drv_state := DRV_STATE_ERROR\<rparr>)
            else if status AND NPU_STATUS_DONE \<noteq> 0
              then Some (NPU_OK, c1\<lparr>drv_state := DRV_STATE_IDLE\<rparr>)
            else if status AND NPU_STATUS_IDLE \<noteq> 0
              then Some (NPU_OK, c1\<lparr>drv_state := DRV_STATE_IDLE\<rparr>)
            else wait_for_idle_loop hw timeout_ms timeout_us (elapsed + 10) c1)
      else Some (NPU_ERROR_TIMEOUT, ctx))"

definition wait_for_idle ::
  "drv_hw \<Rightarrow> npu_context \<Rightarrow> u32 \<Rightarrow> (npu_status_t \<times> npu_context) option" where
  "wait_for_idle hw ctx timeout_ms = wait_for_idle_loop hw timeout_ms (timeout_ms * 1000) 0 ctx"

text \<open>
  A null context pointer is \<open>None\<close>; a function that only returns an error for it
  returns no context.
\<close>

definition npu_load_instructions ::
  "npu_context option \<Rightarrow> (nat \<Rightarrow> u64) option \<Rightarrow> u32 \<Rightarrow> npu_status_t \<times> npu_context option" where
  "npu_load_instructions ctxp instructions num_instructions =
     (case ctxp of
        None \<Rightarrow> (NPU_ERROR_INVALID_PARAM, None)
      | Some ctx \<Rightarrow>
          (case instructions of
             None \<Rightarrow> (NPU_ERROR_INVALID_PARAM, Some ctx)
           | Some src \<Rightarrow>
               if num_instructions = 0 then (NPU_ERROR_INVALID_PARAM, Some ctx)
               else if drv_state ctx = DRV_STATE_RUNNING then (NPU_ERROR_BUSY, Some ctx)
               else if num_instructions * 8 > drv_inst_buf_size (config ctx)
                 then (NPU_ERROR_NO_MEMORY, Some ctx)
               else
                 (let c1 = ctx\<lparr>drv_inst_mem :=
                             copy_instructions src num_instructions (drv_inst_mem ctx)\<rparr>;
                      c2 = reg_write c1 NPU_REG_INST_BASE (drv_inst_buf_addr (config c1));
                      c3 = reg_write c2 NPU_REG_INST_SIZE num_instructions
                  in (NPU_OK, Some (reg_write c3 NPU_REG_INST_PTR 0)))))"

definition npu_load_weights ::
  "npu_context option \<Rightarrow> (nat \<Rightarrow> u8) option \<Rightarrow> u32 \<Rightarrow> npu_status_t \<times> npu_context option" where
  "npu_load_weights ctxp weights sz =
     (case ctxp of
        None \<Rightarrow> (NPU_ERROR_INVALID_PARAM, None)
      | Some ctx \<Rightarrow>
          (case weights of
             None \<Rightarrow> (NPU_ERROR_INVALID_PARAM, Some ctx)
           | Some src \<Rightarrow>
               if sz = 0 then (NPU_ERROR_INVALID_PARAM, Some ctx)
               else if drv_state ctx = DRV_STATE_RUNNING then (NPU_ERROR_BUSY, Some ctx)
               else if sz > drv_weight_buf_size (config ctx) then (NPU_ERROR_NO_MEMORY, Some ctx)
               else
                 (let c1 = ctx\<lparr>drv_weight_mem := copy_bytes src 0 sz (drv_weight_mem ctx)\<rparr>;
                      c2 = reg_write c1 NPU_REG_WEIGHT_BASE (drv_weight_buf_addr (config c1))
                  in (NPU_OK, Some (reg_write c2 NPU_REG_WEIGHT_SIZE sz)))))"

definition npu_load_input ::
  "npu_context option \<Rightarrow> (nat \<Rightarrow> u8) option \<Rightarrow> u32 \<Rightarrow> npu_status_t \<times> npu_context option" where
  "npu_load_input ctxp inp sz =
     (case ctxp of
        None \<Rightarrow> (NPU_ERROR_INVALID_PARAM, None)
      | Some ctx \<Rightarrow>
          (case inp of
             None \<Rightarrow> (NPU_ERROR_INVALID_PARAM, Some ctx)
           | Some src \<Rightarrow>
               if sz = 0 then (NPU_ERROR_INVALID_PARAM, Some ctx)
               else if drv_state ctx = DRV_STATE_RUNNING then (NPU_ERROR_BUSY, Some ctx)
               else if sz > drv_act_buf_size (config ctx) then (NPU_ERROR_NO_MEMORY, Some ctx)
               else
                 (let c1 = ctx\<lparr>drv_act_mem := copy_bytes src 0 sz (drv_act_mem ctx)\<rparr>;
                      c2 = reg_write c1 NPU_REG_ACT_IN_BASE (drv_act_buf_addr (config c1))
                  in (NPU_OK, Some (reg_write c2 NPU_REG_ACT_IN_SIZE sz)))))"

definition zero_drv_perf :: npu_perf_stats_t where
  "zero_drv_perf = \<lparr>drv_total_cycles = 0, instructions_executed = 0, mac_operations = 0,
     drv_stall_cycles = 0, utilization = 0\<rparr>"

definition npu_reset_perf_counters :: "npu_context \<Rightarrow> npu_context" where
  "npu_reset_perf_counters ctx =
     (let c1 = reg_write ctx NPU_REG_PERF_CYCLES 0;
          c2 = reg_write c1 NPU_REG_PERF_INST 0;
          c3 = reg_write c2 NPU_REG_PERF_MAC 0;
          c4 = reg_write c3 NPU_REG_PERF_STALL 0
      in c4\<lparr>perf_stats := zero_drv_perf\<rparr>)"

definition read_perf_counters :: "drv_hw \<Rightarrow> npu_context \<Rightarrow> npu_context" where
  "read_perf_counters hw ctx =
     (let p1 = (perf_stats ctx)\<lparr>drv_total_cycles := ucast (hw_perf_cycles hw)\<rparr>;
          p2 = p1\<lparr>instructions_executed := ucast (hw_perf_inst hw)\<rparr>;
          p3 = p2\<lparr>mac_operations := ucast (hw_perf_mac hw)\<rparr>;
          p4 = p3\<lparr>drv_stall_cycles := ucast (hw_perf_stall hw)\<rparr>
      in ctx\<lparr>perf_stats := p4\<rparr>)"

definition npu_run ::
  "drv_hw \<Rightarrow> npu_context option \<Rightarrow> u32 \<Rightarrow> (npu_status_t \<times> npu_context option) option" where
  "npu_run hw ctxp timeout_ms =
     (case ctxp of
        None \<Rightarrow> Some (NPU_ERROR_INVALID_PARAM, None)
      | Some ctx \<Rightarrow>
          if drv_state ctx = DRV_STATE_RUNNING then Some (NPU_ERROR_BUSY, Some ctx)
          else
            (let c1 = npu_reset_perf_counters ctx;
                 c2 = c1\<lparr>drv_state := DRV_STATE_RUNNING\<rparr>;
                 c3 = reg_write c2 NPU_REG_CTRL (NPU_CTRL_ENABLE OR NPU_CTRL_START)
             in Option.bind (wait_for_idle hw c3 timeout_ms)
                  (\<lambda>(status, c4).
                     let c5 = read_perf_counters hw c4;
                         p = perf_stats c5;
                         c6 = (if drv_total_cycles p > 0 then
                                 c5\<lparr>perf_stats := p\<lparr>utilization :=
                                    real (unat (drv_total_cycles p - drv_stall_cycles p))
                                      / real (unat (drv_total_cycles p)) * 100\<rparr>\<rparr>
                               else c5)
                     in Some (status, Some c6))))"

subsection \<open>What the driver does where the firmware differs\<close>

lemma drv_load_while_running:
  assumes "drv_state ctx = DRV_STATE_RUNNING" and "n \<noteq> 0"
  shows "npu_load_instructions (Some ctx) (Some insts) n = (NPU_ERROR_BUSY, Some ctx)"
    and "npu_load_weights (Some ctx) (Some bytes) n = (NPU_ERROR_BUSY, Some ctx)"
    and "npu_load_input (Some ctx) (Some bytes) n = (NPU_ERROR_BUSY, Some ctx)"
  using assms
  by (simp_all add: npu_load_instructions_def npu_load_weights_def npu_load_input_def)

lemma drv_load_instructions_no_memory:
  assumes "drv_state ctx \<noteq> DRV_STATE_RUNNING"
    and "unat n * 8 < 2 ^ 32" and "unat n * 8 > unat (drv_inst_buf_size (config ctx))"
  shows "npu_load_instructions (Some ctx) (Some insts) n = (NPU_ERROR_NO_MEMORY, Some ctx)"
proof -
  from assms(3) have nz: "n \<noteq> 0" by (auto simp: unat_eq_0)
  from assms(2) have "unat (n * 8) = unat n * 8"
    by (simp add: unat_word_ariths)
  with assms(3) have "n * 8 > drv_inst_buf_size (config ctx)"
    by (simp add: word_less_nat_alt)
  with assms(1) nz show ?thesis by (simp add: npu_load_instructions_def)
qed

lemma drv_wait_for_idle_accepts_idle:
  assumes "drv_hw_status hw (drv_status_reads ctx) AND NPU_STATUS_ERROR = 0"
    and "drv_hw_status hw (drv_status_reads ctx) AND NPU_STATUS_DONE \<noteq> 0
         \<or> drv_hw_status hw (drv_status_reads ctx) AND NPU_STATUS_IDLE \<noteq> 0"
    and "0 < timeout_ms * 1000 \<or> timeout_ms = 0"
  shows "wait_for_idle hw ctx timeout_ms
       = Some (NPU_OK, ctx\<lparr>drv_status_reads := Suc (drv_status_reads ctx),
                            drv_state := DRV_STATE_IDLE\<rparr>)"
  unfolding wait_for_idle_def using assms
  by (subst wait_for_idle_loop.simps) (auto simp: Let_def)

lemma wait_for_idle_loop_perf:
  assumes "wait_for_idle_loop hw timeout_ms timeout_us elapsed ctx = Some r"
  shows "perf_stats (snd r) = perf_stats ctx"
proof (rule wait_for_idle_loop.raw_induct
    [where P = "\<lambda>hw timeout_ms timeout_us elapsed ctx r. perf_stats (snd r) = perf_stats ctx",
     OF _ assms], goal_cases)
  case (1 loop hw timeout_ms timeout_us elapsed ctx r)
  let ?c1 = "ctx\<lparr>drv_status_reads := Suc (drv_status_reads ctx)\<rparr>"
  show ?case
  proof (cases "loop hw timeout_ms timeout_us (elapsed + 10) ?c1 = Some r")
    case True
    from 1(1) [OF True] show ?thesis by simp
  next
    case False
    with 1(2) show ?thesis by (auto simp: Let_def split: if_splits)
  qed
qed

lemma drv_run_zero_cycles:
  assumes "npu_run hw (Some ctx) timeout_ms = Some (status, Some ctx')"
    and "hw_perf_cycles hw = 0" and "drv_state ctx \<noteq> DRV_STATE_RUNNING"
  shows "drv_total_cycles (perf_stats ctx') = 0 \<and> utilization (perf_stats ctx') = 0"
proof -
  let ?c3 = "reg_write ((npu_reset_perf_counters ctx)\<lparr>drv_state := DRV_STATE_RUNNING\<rparr>)
               NPU_REG_CTRL (NPU_CTRL_ENABLE OR NPU_CTRL_START)"
  have p3: "perf_stats ?c3 = zero_drv_perf"
    by (simp add: reg_write_def npu_reset_perf_counters_def Let_def)
  from assms(1) obtain c4 where
    w: "wait_for_idle_loop hw timeout_ms (timeout_ms * 1000) 0 ?c3 = Some (status, c4)"
    and c': "ctx' = read_perf_counters hw c4"
    using assms(2,3)
    by (auto simp: npu_run_def Let_def wait_for_idle_def Option.bind_eq_Some_conv
        read_perf_counters_def split: if_splits)
  from wait_for_idle_loop_perf [OF w] p3 have "perf_stats c4 = zero_drv_perf" by simp
  with c' assms(2) show ?thesis
    by (simp add: read_perf_counters_def Let_def zero_drv_perf_def)
qed

subsection \<open>The driver's wait\<close>

text \<open>
  What one poll of \<^verbatim>\<open>wait_for_idle\<close> makes of a status value: an error (the error bit
  set, tested first), a completion (the error bit clear and the done or the idle bit
  set), or neither. The timeout is given in milliseconds and multiplied by 1000 in 32
  bits; up to 4294967 milliseconds the product does not wrap, and the loop then makes
  100 polls per millisecond.
\<close>

definition drv_wait_error :: "u32 \<Rightarrow> bool" where
  "drv_wait_error x \<longleftrightarrow> x AND NPU_STATUS_ERROR \<noteq> 0"

definition drv_wait_ok :: "u32 \<Rightarrow> bool" where
  "drv_wait_ok x \<longleftrightarrow> x AND NPU_STATUS_ERROR = 0
     \<and> (x AND NPU_STATUS_DONE \<noteq> 0 \<or> x AND NPU_STATUS_IDLE \<noteq> 0)"

definition drv_still_busy :: "u32 \<Rightarrow> bool" where
  "drv_still_busy x \<longleftrightarrow> \<not> drv_wait_error x \<and> \<not> drv_wait_ok x"

lemma drv_still_busy_iff:
  "drv_still_busy x \<longleftrightarrow> x AND NPU_STATUS_ERROR = 0 \<and> x AND NPU_STATUS_DONE = 0
     \<and> x AND NPU_STATUS_IDLE = 0"
  by (auto simp: drv_still_busy_def drv_wait_error_def drv_wait_ok_def)

lemma drv_wait_loop_skip:
  assumes "\<forall>k < n. (elapsed + of_nat (10 * k) < tu \<or> tm = 0)
             \<and> drv_still_busy (drv_hw_status hw (drv_status_reads ctx + k))"
  shows "wait_for_idle_loop hw tm tu elapsed ctx
       = wait_for_idle_loop hw tm tu (elapsed + of_nat (10 * n))
           (ctx\<lparr>drv_status_reads := drv_status_reads ctx + n\<rparr>)"
  using assms
proof (induction n arbitrary: elapsed ctx)
  case 0
  then show ?case by simp
next
  case (Suc n)
  let ?c1 = "ctx\<lparr>drv_status_reads := Suc (drv_status_reads ctx)\<rparr>"
  have "0 < Suc n" by simp
  with Suc.prems have "(elapsed + of_nat (10 * 0) < tu \<or> tm = 0)
             \<and> drv_still_busy (drv_hw_status hw (drv_status_reads ctx + 0))" by blast
  then have first: "elapsed < tu \<or> tm = 0"
    "drv_still_busy (drv_hw_status hw (drv_status_reads ctx))"
    by simp_all
  have rest: "\<forall>k < n. (elapsed + 10 + of_nat (10 * k) < tu \<or> tm = 0)
             \<and> drv_still_busy (drv_hw_status hw (drv_status_reads ?c1 + k))"
  proof (intro allI impI)
    fix k assume "k < n"
    then have "Suc k < Suc n" by simp
    with Suc.prems have "(elapsed + of_nat (10 * Suc k) < tu \<or> tm = 0)
             \<and> drv_still_busy (drv_hw_status hw (drv_status_reads ctx + Suc k))" by blast
    then show "(elapsed + 10 + of_nat (10 * k) < tu \<or> tm = 0)
             \<and> drv_still_busy (drv_hw_status hw (drv_status_reads ?c1 + k))"
      by (simp add: algebra_simps)
  qed
  have "wait_for_idle_loop hw tm tu elapsed ctx
      = wait_for_idle_loop hw tm tu (elapsed + 10) ?c1"
    using first by (subst wait_for_idle_loop.simps) (simp add: drv_still_busy_iff Let_def)
  also have "\<dots> = wait_for_idle_loop hw tm tu (elapsed + 10 + of_nat (10 * n))
           (?c1\<lparr>drv_status_reads := drv_status_reads ?c1 + n\<rparr>)"
    by (rule Suc.IH [OF rest])
  finally show ?case by (simp add: algebra_simps)
qed

lemma drv_wait_loop_never_timeout:
  assumes "wait_for_idle_loop hw tm tu elapsed ctx = Some r"
  shows "tm = 0 \<longrightarrow> fst r \<noteq> NPU_ERROR_TIMEOUT"
proof (rule wait_for_idle_loop.raw_induct
    [where P = "\<lambda>hw tm tu elapsed ctx r. tm = 0 \<longrightarrow> fst r \<noteq> NPU_ERROR_TIMEOUT",
     OF _ assms], goal_cases)
  case (1 loop hw tm tu elapsed ctx r)
  let ?c1 = "ctx\<lparr>drv_status_reads := Suc (drv_status_reads ctx)\<rparr>"
  show ?case
  proof
    assume t: "tm = 0"
    show "fst r \<noteq> NPU_ERROR_TIMEOUT"
    proof (cases "drv_still_busy (drv_hw_status hw (drv_status_reads ctx))")
      case True
      with 1(2) t have "loop hw tm tu (elapsed + 10) ?c1 = Some r"
        by (simp add: drv_still_busy_iff Let_def)
      from 1(1) [OF this] t show ?thesis by simp
    next
      case False
      with 1(2) t show ?thesis
        by (auto simp: drv_still_busy_iff Let_def split: if_splits)
    qed
  qed
qed

lemma drv_wait_loop_returns_after_change:
  assumes "wait_for_idle_loop hw tm tu elapsed ctx = Some r"
  shows "tm = 0 \<longrightarrow> (\<exists>k. \<not> drv_still_busy (drv_hw_status hw (drv_status_reads ctx + k)))"
proof (rule wait_for_idle_loop.raw_induct
    [where P = "\<lambda>hw tm tu elapsed ctx r.
       tm = 0 \<longrightarrow> (\<exists>k. \<not> drv_still_busy (drv_hw_status hw (drv_status_reads ctx + k)))",
     OF _ assms], goal_cases)
  case (1 loop hw tm tu elapsed ctx r)
  let ?c1 = "ctx\<lparr>drv_status_reads := Suc (drv_status_reads ctx)\<rparr>"
  show ?case
  proof
    assume t: "tm = 0"
    show "\<exists>k. \<not> drv_still_busy (drv_hw_status hw (drv_status_reads ctx + k))"
    proof (cases "drv_still_busy (drv_hw_status hw (drv_status_reads ctx))")
      case False
      then have "\<not> drv_still_busy (drv_hw_status hw (drv_status_reads ctx + 0))" by simp
      then show ?thesis by (rule exI)
    next
      case True
      with 1(2) t have "loop hw tm tu (elapsed + 10) ?c1 = Some r"
        by (simp add: drv_still_busy_iff Let_def)
      from 1(1) [OF this] t obtain k where
        "\<not> drv_still_busy (drv_hw_status hw (Suc (drv_status_reads ctx) + k))" by auto
      then have "\<not> drv_still_busy (drv_hw_status hw (drv_status_reads ctx + Suc k))" by simp
      then show ?thesis by (rule exI)
    qed
  qed
qed

lemma drv_timeout_us:
  assumes "unat tm \<le> 4294967"
  shows "unat (tm * 1000 :: u32) = unat tm * 1000"
proof -
  from assms have "unat tm * unat (1000 :: u32) < 2 ^ LENGTH(32)" by simp
  then have "unat (tm * 1000) = unat tm * unat (1000 :: u32)" by (simp only: unat_mult_lem)
  then show ?thesis by simp
qed

lemma drv_polls_bounds:
  assumes "unat tm \<le> 4294967"
  shows "\<forall>k < 100 * unat tm. (0 + of_nat (10 * k) :: u32) < tm * 1000"
    and "\<not> ((0 + of_nat (10 * (100 * unat tm)) :: u32) < tm * 1000)"
proof -
  note tu = drv_timeout_us [OF assms]
  show "\<forall>k < 100 * unat tm. (0 + of_nat (10 * k) :: u32) < tm * 1000"
  proof (intro allI impI)
    fix k assume k: "k < 100 * unat tm"
    with assms have "10 * k < 2 ^ 32" by simp
    then have "unat (of_nat (10 * k) :: u32) = 10 * k" by (rule unat_of_nat_u32)
    with k show "(0 + of_nat (10 * k) :: u32) < tm * 1000"
      by (simp add: word_less_nat_alt tu)
  qed
  from assms have "10 * (100 * unat tm) < 2 ^ 32" by simp
  then have "unat (of_nat (10 * (100 * unat tm)) :: u32) = 10 * (100 * unat tm)"
    by (rule unat_of_nat_u32)
  then show "\<not> ((0 + of_nat (10 * (100 * unat tm)) :: u32) < tm * 1000)"
    by (simp add: word_less_nat_alt tu)
qed

lemma drv_wait_first_change:
  assumes "tm = 0 \<or> unat tm \<le> 4294967" and "tm = 0 \<or> n < 100 * unat tm"
    and "\<forall>k < n. drv_still_busy (drv_hw_status hw (drv_status_reads ctx + k))"
  shows "wait_for_idle hw ctx tm
       = (let x = drv_hw_status hw (drv_status_reads ctx + n);
              c1 = ctx\<lparr>drv_status_reads := Suc (drv_status_reads ctx + n)\<rparr>
          in if x AND NPU_STATUS_ERROR \<noteq> 0
               then Some (NPU_ERROR_HW_ERROR, c1\<lparr>drv_state := DRV_STATE_ERROR\<rparr>)
             else if x AND NPU_STATUS_DONE \<noteq> 0
               then Some (NPU_OK, c1\<lparr>drv_state := DRV_STATE_IDLE\<rparr>)
             else if x AND NPU_STATUS_IDLE \<noteq> 0
               then Some (NPU_OK, c1\<lparr>drv_state := DRV_STATE_IDLE\<rparr>)
             else wait_for_idle_loop hw tm (tm * 1000) (0 + of_nat (10 * n) + 10) c1)"
proof -
  have el: "\<forall>k \<le> n. (0 + of_nat (10 * k) :: u32) < tm * 1000 \<or> tm = 0"
  proof (cases "tm = 0")
    case True
    then show ?thesis by simp
  next
    case False
    with assms(1,2) have "unat tm \<le> 4294967" "n < 100 * unat tm" by simp_all
    with drv_polls_bounds(1) [of tm] show ?thesis by auto
  qed
  have "wait_for_idle_loop hw tm (tm * 1000) 0 ctx
      = wait_for_idle_loop hw tm (tm * 1000) (0 + of_nat (10 * n))
          (ctx\<lparr>drv_status_reads := drv_status_reads ctx + n\<rparr>)"
    using assms(3) el by (intro drv_wait_loop_skip) auto
  moreover from el have "(0 + of_nat (10 * n) :: u32) < tm * 1000 \<or> tm = 0" by blast
  ultimately show ?thesis
    by (subst (asm) (2) wait_for_idle_loop.simps)
      (auto simp add: wait_for_idle_def Let_def)
qed

lemma drv_wait_ok_at:
  assumes "tm = 0 \<or> unat tm \<le> 4294967" and "tm = 0 \<or> n < 100 * unat tm"
    and "\<forall>k < n. drv_still_busy (drv_hw_status hw (drv_status_reads ctx + k))"
    and "drv_wait_ok (drv_hw_status hw (drv_status_reads ctx + n))"
  shows "wait_for_idle hw ctx tm
       = Some (NPU_OK, ctx\<lparr>drv_status_reads := Suc (drv_status_reads ctx + n),
                            drv_state := DRV_STATE_IDLE\<rparr>)"
  using assms(4)
  by (auto simp: drv_wait_first_change [OF assms(1,2,3)] drv_wait_ok_def Let_def)

lemma drv_wait_error_at:
  assumes "tm = 0 \<or> unat tm \<le> 4294967" and "tm = 0 \<or> n < 100 * unat tm"
    and "\<forall>k < n. drv_still_busy (drv_hw_status hw (drv_status_reads ctx + k))"
    and "drv_wait_error (drv_hw_status hw (drv_status_reads ctx + n))"
  shows "wait_for_idle hw ctx tm
       = Some (NPU_ERROR_HW_ERROR, ctx\<lparr>drv_status_reads := Suc (drv_status_reads ctx + n),
                                        drv_state := DRV_STATE_ERROR\<rparr>)"
  using assms(4)
  by (auto simp: drv_wait_first_change [OF assms(1,2,3)] drv_wait_error_def Let_def)

lemma drv_wait_timeout:
  assumes "tm \<noteq> 0" and "unat tm \<le> 4294967"
    and "\<forall>k < 100 * unat tm. drv_still_busy (drv_hw_status hw (drv_status_reads ctx + k))"
  shows "wait_for_idle hw ctx tm
       = Some (NPU_ERROR_TIMEOUT, ctx\<lparr>drv_status_reads := drv_status_reads ctx + 100 * unat tm\<rparr>)"
proof -
  have "wait_for_idle_loop hw tm (tm * 1000) 0 ctx
      = wait_for_idle_loop hw tm (tm * 1000) (0 + of_nat (10 * (100 * unat tm)))
          (ctx\<lparr>drv_status_reads := drv_status_reads ctx + 100 * unat tm\<rparr>)"
    using drv_polls_bounds(1) [OF assms(2)] assms(3) by (intro drv_wait_loop_skip) blast
  also have "\<dots> = Some (NPU_ERROR_TIMEOUT,
      ctx\<lparr>drv_status_reads := drv_status_reads ctx + 100 * unat tm\<rparr>)"
    using drv_polls_bounds(2) [OF assms(2)] assms(1)
    by (subst wait_for_idle_loop.simps) simp
  finally show ?thesis by (simp add: wait_for_idle_def)
qed

lemma drv_wait_forever_never_timeout:
  assumes "wait_for_idle hw ctx 0 = Some r"
  shows "fst r \<noteq> NPU_ERROR_TIMEOUT"
  using drv_wait_loop_never_timeout [of hw 0 "0 * 1000" 0 ctx r] assms
  by (simp add: wait_for_idle_def)

lemma drv_wait_forever_blocks:
  assumes "\<forall>k. drv_still_busy (drv_hw_status hw (drv_status_reads ctx + k))"
  shows "wait_for_idle hw ctx 0 = None"
proof (rule ccontr)
  assume "wait_for_idle hw ctx 0 \<noteq> None"
  then obtain r where "wait_for_idle_loop hw 0 (0 * 1000) 0 ctx = Some r"
    by (auto simp: wait_for_idle_def)
  from drv_wait_loop_returns_after_change [OF this] assms show False by auto
qed


section \<open>Host runtime (npu\_runtime.c)\<close>

text \<open>
  The host runtime has a model format of its own: another magic number and a packed
  64-byte header of eight 32-bit fields followed by eight reserved words, read in place
  on a little-endian host.
\<close>

definition NPU_MODEL_MAGIC :: u32 where "NPU_MODEL_MAGIC = 0x55504E45"
definition NPU_MODEL_VERSION :: u32 where "NPU_MODEL_VERSION = 0x0100"

record npu_model_header_t =
  rt_magic :: u32
  rt_version :: u32
  hdr_num_instructions :: u32
  hdr_instructions_size :: u32
  hdr_weights_size :: u32
  hdr_bias_size :: u32
  hdr_input_size :: u32
  hdr_output_size :: u32

definition sizeof_npu_model_header :: u32 where "sizeof_npu_model_header = 64"

definition read_npu_model_header :: "(nat \<Rightarrow> u8) \<Rightarrow> npu_model_header_t" where
  "read_npu_model_header b = \<lparr>rt_magic = le32 b 0, rt_version = le32 b 4,
     hdr_num_instructions = le32 b 8, hdr_instructions_size = le32 b 12,
     hdr_weights_size = le32 b 16, hdr_bias_size = le32 b 20,
     hdr_input_size = le32 b 24, hdr_output_size = le32 b 28\<rparr>"

text \<open>
  Of \<^verbatim>\<open>npu_model_info_t\<close> the fields that the loader writes; a block obtained from
  \<^verbatim>\<open>malloc\<close> is \<open>None\<close> for \<^verbatim>\<open>NULL\<close> and otherwise the bytes copied into it. The two
  quantisation scales are C floats and are kept as the exact quotient here.
\<close>

record npu_model_info_t =
  info_num_instructions :: u32
  info_weights_size :: u32
  info_input_size :: u32
  info_output_size :: u32
  input_quant_scale :: real
  input_quant_zero_point :: u32
  output_quant_scale :: real
  output_quant_zero_point :: u32

record npu_model =
  model_info :: npu_model_info_t
  model_instructions :: "u8 list option"
  model_weights :: "u8 list option"
  model_bias :: "u8 list option"
  model_loaded :: bool

record npu_runtime_config_t =
  max_models :: u32
  rt_workspace_size :: u32
  enable_profiling :: bool
  enable_debug :: bool

text \<open>
  The runtime: its configuration, the array of model slots (\<^verbatim>\<open>npu_runtime_create\<close>
  allocates \<^verbatim>\<open>max_models\<close> of them, each \<^verbatim>\<open>NULL\<close> or a model) and the model count. A
  pointer to a model is the index of the slot that holds it. Whether each allocation of
  a load succeeds is given by the environment. The debug messages printed when
  \<^verbatim>\<open>enable_debug\<close> is set leave the runtime as it is and are not modelled.
\<close>

record npu_runtime =
  rt_config :: npu_runtime_config_t
  models :: "npu_model option list"
  num_models :: u32
  rt_initialized :: bool

record heap_env =
  calloc_model_ok :: bool
  malloc_instructions_ok :: bool
  malloc_weights_ok :: bool
  malloc_bias_ok :: bool

definition zero_model :: npu_model where
  "zero_model = \<lparr>model_info = \<lparr>info_num_instructions = 0, info_weights_size = 0,
       info_input_size = 0, info_output_size = 0, input_quant_scale = 0,
       input_quant_zero_point = 0, output_quant_scale = 0, output_quant_zero_point = 0\<rparr>,
     model_instructions = None, model_weights = None, model_bias = None,
     model_loaded = False\<rparr>"

definition allocate_model_slot :: "heap_env \<Rightarrow> npu_runtime \<Rightarrow> nat option \<times> npu_runtime" where
  "allocate_model_slot env rt =
     (case find (\<lambda>i. models rt ! i = None) [0 ..< unat (max_models (rt_config rt))] of
        None \<Rightarrow> (None, rt)
      | Some i \<Rightarrow>
          if calloc_model_ok env
          then (Some i, rt\<lparr>models := (models rt)[i := Some zero_model],
                           num_models := num_models rt + 1\<rparr>)
          else (None, rt))"

definition npu_model_unload :: "nat \<Rightarrow> npu_runtime \<Rightarrow> npu_runtime" where
  "npu_model_unload i rt = rt\<lparr>models := (models rt)[i := None], num_models := num_models rt - 1\<rparr>"

definition memcpy_from :: "byte_ptr \<Rightarrow> nat \<Rightarrow> u32 \<Rightarrow> u8 list" where
  "memcpy_from src off n = map (\<lambda>j. ptr_bytes src (off + j)) [0 ..< unat n]"

definition npu_model_load_memory ::
  "heap_env \<Rightarrow> npu_runtime option \<Rightarrow> byte_ptr \<Rightarrow> u32 \<Rightarrow> nat option \<times> npu_runtime option" where
  "npu_model_load_memory env runtime data sz =
     (case runtime of
        None \<Rightarrow> (None, None)
      | Some rt \<Rightarrow>
          if ptr_addr data = 0 \<or> sz < sizeof_npu_model_header then (None, Some rt)
          else
            (let header = read_npu_model_header (ptr_bytes data) in
             if rt_magic header \<noteq> NPU_MODEL_MAGIC then (None, Some rt)
             else
               (case allocate_model_slot env rt of
                  (None, rt1) \<Rightarrow> (None, Some rt1)
                | (Some i, rt1) \<Rightarrow>
                    (let m1 = zero_model\<lparr>model_info := (model_info zero_model)
                                \<lparr>info_num_instructions := hdr_num_instructions header,
                                 info_weights_size := hdr_weights_size header,
                                 info_input_size := hdr_input_size header,
                                 info_output_size := hdr_output_size header\<rparr>\<rparr>;
                         p0 = unat sizeof_npu_model_header;
                         inst_size = hdr_num_instructions header * 8
                     in if \<not> malloc_instructions_ok env
                        then (None, Some (npu_model_unload i rt1))
                        else
                          (let m2 = m1\<lparr>model_instructions :=
                                         Some (memcpy_from data p0 inst_size)\<rparr>;
                               p1 = p0 + unat inst_size
                           in if hdr_weights_size header > 0 \<and> \<not> malloc_weights_ok env
                              then (None, Some (npu_model_unload i rt1))
                              else
                                (let m3 = (if hdr_weights_size header > 0
                                           then m2\<lparr>model_weights :=
                                                  Some (memcpy_from data p1
                                                          (hdr_weights_size header))\<rparr>
                                           else m2);
                                     p2 = (if hdr_weights_size header > 0
                                           then p1 + unat (hdr_weights_size header) else p1)
                                 in if hdr_bias_size header > 0 \<and> \<not> malloc_bias_ok env
                                    then (None, Some (npu_model_unload i rt1))
                                    else
                                      (let m4 = (if hdr_bias_size header > 0
                                                 then m3\<lparr>model_bias :=
                                                        Some (memcpy_from data p2
                                                                (hdr_bias_size header))\<rparr>
                                                 else m3);
                                           m5 = m4\<lparr>model_info := (model_info m4)
                                                  \<lparr>input_quant_scale := 1 / 127,
                                                   input_quant_zero_point := 0,
                                                   output_quant_scale := 1 / 127,
                                                   output_quant_zero_point := 0\<rparr>,
                                                 model_loaded := True\<rparr>
                                       in (Some i,
                                           Some (rt1\<lparr>models :=
                                                   (models rt1)[i := Some m5]\<rparr>)))))))))"

section \<open>Capacity check of the instruction loaders\<close>

definition example_drv_config :: npu_config_t where
  "example_drv_config = \<lparr>base_addr = 0x40000000, drv_inst_buf_addr = 0x40100000,
     drv_inst_buf_size = 64, drv_weight_buf_addr = 0x40200000, drv_weight_buf_size = 262144,
     drv_act_buf_addr = 0x40300000, drv_act_buf_size = 262144\<rparr>"

definition drv_running_ctx :: npu_context where
  "drv_running_ctx = \<lparr>config = example_drv_config, drv_state = DRV_STATE_RUNNING,
     perf_stats = zero_drv_perf, drv_regs = (\<lambda>a. 0), drv_inst_mem = (\<lambda>i. 0),
     drv_weight_mem = (\<lambda>i. 0), drv_act_mem = (\<lambda>i. 0), drv_status_reads = 0\<rparr>"

definition drv_idle_ctx :: npu_context where
  "drv_idle_ctx = drv_running_ctx\<lparr>drv_state := DRV_STATE_IDLE\<rparr>"

definition fw_small_buf_state :: fw_state where
  "fw_small_buf_state
     = snd (npu_rt_init (Some (example_config\<lparr>inst_buf_size := 16\<rparr>)) fw_boot_state)"

lemma fw_small_buf_state_facts:
  "g_initialized fw_small_buf_state" "inst_buf_size (g_config fw_small_buf_state) = 16"
  "inst_mem fw_small_buf_state = (\<lambda>i. 0)"
  by (simp_all add: fw_small_buf_state_def npu_rt_init_def fw_boot_state_def Let_def
      REG_WRITE_def zero_ctx_def example_config_def)

lemma drv_load_instructions_accepts:
  assumes "drv_state ctx \<noteq> DRV_STATE_RUNNING" and "n \<noteq> 0"
    and "unat n * 8 \<le> unat (drv_inst_buf_size (config ctx))"
  shows "fst (npu_load_instructions (Some ctx) (Some insts) n) = NPU_OK"
    and "\<exists>c. snd (npu_load_instructions (Some ctx) (Some insts) n) = Some c
           \<and> (\<forall>i. drv_inst_mem c i = (if i < unat n then insts i else drv_inst_mem ctx i))"
proof -
  have "unat (drv_inst_buf_size (config ctx)) < 2 ^ 32"
    using unsigned_less [of "drv_inst_buf_size (config ctx)", where ?'a = nat] by simp
  with assms(3) have "unat n * unat (8 :: u32) < 2 ^ LENGTH(32)" by simp
  then have "unat (n * 8) = unat n * unat (8 :: u32)" by (simp only: unat_mult_lem)
  with assms(3) have le: "\<not> n * 8 > drv_inst_buf_size (config ctx)"
    by (simp add: word_less_nat_alt)
  with assms(1,2) show "fst (npu_load_instructions (Some ctx) (Some insts) n) = NPU_OK"
    and "\<exists>c. snd (npu_load_instructions (Some ctx) (Some insts) n) = Some c
           \<and> (\<forall>i. drv_inst_mem c i = (if i < unat n then insts i else drv_inst_mem ctx i))"
    by (simp_all add: npu_load_instructions_def Let_def reg_write_def copy_instructions_nth)
qed

text \<open>
  Claim C6, as amended. For every initialised firmware context and every instruction
  array (a non-null pointer) whose count exceeds the fixed capacity
  \<^verbatim>\<open>NPU_INST_BUF_ENTRIES\<close> (1024 entries), \<^verbatim>\<open>npu_rt_load_instructions\<close> returns
  \<^verbatim>\<open>FW_ERROR_OVERFLOW\<close> and leaves the whole machine state as it was: no entry of the
  instruction buffer, no register and no field of the context (the instruction count
  among them) is written; a count from 1 to 1024 is accepted and copied, whatever the
  configured \<^verbatim>\<open>inst_buf_size\<close> is. For every driver context that is not running and every
  instruction array whose size in bytes (8 times the count, representable in 32 bits)
  exceeds the configured \<^verbatim>\<open>config.inst_buf_size\<close>, \<^verbatim>\<open>npu_load_instructions\<close> returns
  \<^verbatim>\<open>NPU_ERROR_NO_MEMORY\<close> and leaves the context as it was; a nonzero count whose size
  is within the configured size is accepted and copied.
\<close>

theorem load_instructions_capacity:
  "(g_initialized s \<and> cnt > NPU_INST_BUF_ENTRIES \<longrightarrow>
      npu_rt_load_instructions (Some insts) cnt s = (FW_ERROR_OVERFLOW, s))
   \<and> (g_initialized s \<and> cnt \<noteq> 0 \<and> cnt \<le> NPU_INST_BUF_ENTRIES \<longrightarrow>
      fst (npu_rt_load_instructions (Some insts) cnt s) = FW_OK
      \<and> (\<forall>i. inst_mem (snd (npu_rt_load_instructions (Some insts) cnt s)) i
               = (if i < unat cnt then insts i else inst_mem s i))
      \<and> regs (snd (npu_rt_load_instructions (Some insts) cnt s)) REG_INST_SIZE = cnt
      \<and> inst_count (g_ctx (snd (npu_rt_load_instructions (Some insts) cnt s))) = cnt)
   \<and> (drv_state ctx \<noteq> DRV_STATE_RUNNING \<and> unat n * 8 < 2 ^ 32
        \<and> unat n * 8 > unat (drv_inst_buf_size (config ctx)) \<longrightarrow>
      npu_load_instructions (Some ctx) (Some insts) n = (NPU_ERROR_NO_MEMORY, Some ctx))
   \<and> (drv_state ctx \<noteq> DRV_STATE_RUNNING \<and> n \<noteq> 0
        \<and> unat n * 8 \<le> unat (drv_inst_buf_size (config ctx)) \<longrightarrow>
      fst (npu_load_instructions (Some ctx) (Some insts) n) = NPU_OK
      \<and> (\<exists>c. snd (npu_load_instructions (Some ctx) (Some insts) n) = Some c
           \<and> (\<forall>i. drv_inst_mem c i = (if i < unat n then insts i else drv_inst_mem ctx i))))"
  using fw_load_instructions_overflow [of s cnt insts]
    fw_load_instructions_accepts [of s cnt insts]
    drv_load_instructions_no_memory [of ctx n insts]
    drv_load_instructions_accepts [of ctx n insts]
  by blast

theorem load_instructions_capacity_witness:
  "g_initialized fw_idle_state
   \<and> npu_rt_load_instructions (Some (\<lambda>i. INST_HALT)) 1025 fw_idle_state
       = (FW_ERROR_OVERFLOW, fw_idle_state)
   \<and> fst (npu_rt_load_instructions (Some (\<lambda>i. INST_HALT)) 1024 fw_idle_state) = FW_OK
   \<and> inst_mem (snd (npu_rt_load_instructions (Some (\<lambda>i. INST_HALT)) 1024 fw_idle_state)) 1023
       = INST_HALT
   \<and> regs (snd (npu_rt_load_instructions (Some (\<lambda>i. INST_HALT)) 1024 fw_idle_state))
       REG_INST_SIZE = 1024
   \<and> drv_inst_buf_size (config drv_idle_ctx) = 64
   \<and> npu_load_instructions (Some drv_idle_ctx) (Some (\<lambda>i. INST_HALT)) 9
       = (NPU_ERROR_NO_MEMORY, Some drv_idle_ctx)
   \<and> fst (npu_load_instructions (Some drv_idle_ctx) (Some (\<lambda>i. INST_HALT)) 8) = NPU_OK"
proof -
  note T = load_instructions_capacity
  have a: "g_initialized fw_idle_state" by (rule fw_idle_state_facts)
  have d: "drv_state drv_idle_ctx \<noteq> DRV_STATE_RUNNING"
    "drv_inst_buf_size (config drv_idle_ctx) = 64"
    by (simp_all add: drv_idle_ctx_def drv_running_ctx_def example_drv_config_def)
  from T [where s = fw_idle_state and cnt = 1025 and insts = "\<lambda>i. INST_HALT", THEN conjunct1] a
  have 1: "npu_rt_load_instructions (Some (\<lambda>i. INST_HALT)) 1025 fw_idle_state
       = (FW_ERROR_OVERFLOW, fw_idle_state)"
    by (simp add: NPU_INST_BUF_ENTRIES_def)
  from T [where s = fw_idle_state and cnt = 1024 and insts = "\<lambda>i. INST_HALT",
      THEN conjunct2, THEN conjunct1] a
  have 2: "fst (npu_rt_load_instructions (Some (\<lambda>i. INST_HALT)) 1024 fw_idle_state) = FW_OK
   \<and> inst_mem (snd (npu_rt_load_instructions (Some (\<lambda>i. INST_HALT)) 1024 fw_idle_state)) 1023
       = INST_HALT
   \<and> regs (snd (npu_rt_load_instructions (Some (\<lambda>i. INST_HALT)) 1024 fw_idle_state))
       REG_INST_SIZE = 1024"
    by (simp add: NPU_INST_BUF_ENTRIES_def)
  from T [where ctx = drv_idle_ctx and n = 9 and insts = "\<lambda>i. INST_HALT",
      THEN conjunct2, THEN conjunct2, THEN conjunct1] d
  have 3: "npu_load_instructions (Some drv_idle_ctx) (Some (\<lambda>i. INST_HALT)) 9
       = (NPU_ERROR_NO_MEMORY, Some drv_idle_ctx)"
    by simp
  from T [where ctx = drv_idle_ctx and n = 8 and insts = "\<lambda>i. INST_HALT",
      THEN conjunct2, THEN conjunct2, THEN conjunct2] d
  have 4: "fst (npu_load_instructions (Some drv_idle_ctx) (Some (\<lambda>i. INST_HALT)) 8) = NPU_OK"
    by simp
  from a d 1 2 3 4 show ?thesis by simp
qed

text \<open>
  Claim C6 fails on the firmware. With the runtime initialised for an instruction buffer
  of size 16 (fewer than 17 entries, whether the size counts entries or bytes), loading
  17 instructions returns \<^verbatim>\<open>FW_OK\<close>, writes entry 16 of the instruction buffer and sets
  the instruction-size register and the context's instruction count to 17.
\<close>

theorem load_instructions_config_ignored_counterexample:
  "g_initialized fw_small_buf_state
   \<and> inst_buf_size (g_config fw_small_buf_state) = 16
   \<and> fst (npu_rt_load_instructions (Some (\<lambda>i. INST_HALT)) 17 fw_small_buf_state) = FW_OK
   \<and> inst_mem fw_small_buf_state 16 = 0
   \<and> inst_mem (snd (npu_rt_load_instructions (Some (\<lambda>i. INST_HALT)) 17 fw_small_buf_state)) 16
       = 0x0101000000000000
   \<and> regs (snd (npu_rt_load_instructions (Some (\<lambda>i. INST_HALT)) 17 fw_small_buf_state))
       REG_INST_SIZE = 17
   \<and> inst_count (g_ctx (snd (npu_rt_load_instructions (Some (\<lambda>i. INST_HALT)) 17
       fw_small_buf_state))) = 17"
  by (simp add: fw_small_buf_state_facts npu_rt_load_instructions_def NPU_INST_BUF_ENTRIES_def
      Let_def REG_WRITE_def copy_instructions_nth REG_INST_SIZE_def REG_INST_PTR_def
      NPU_BASE_def INST_HALT_def MAKE_INST_def OP_HALT_def FLAG_LAST_def)


section \<open>Waiting: firmware and driver\<close>

definition late_done_hw :: npu_hw where
  "late_done_hw = \<lparr>hw_status = (\<lambda>k. if k = 2 then STATUS_DONE else STATUS_BUSY),
                    hw_dma_status = (\<lambda>k. 0)\<rparr>"

definition late_error_hw :: npu_hw where
  "late_error_hw = \<lparr>hw_status = (\<lambda>k. if k = 1 then STATUS_DONE OR STATUS_ERROR else STATUS_BUSY),
                     hw_dma_status = (\<lambda>k. 0)\<rparr>"

definition drv_late_idle_hw :: drv_hw where
  "drv_late_idle_hw = \<lparr>drv_hw_status = (\<lambda>k. if k = 2 then NPU_STATUS_IDLE else 0),
     hw_perf_cycles = 0, hw_perf_inst = 0, hw_perf_mac = 0, hw_perf_stall = 0\<rparr>"

definition drv_late_error_hw :: drv_hw where
  "drv_late_error_hw =
     \<lparr>drv_hw_status = (\<lambda>k. if k = 1 then NPU_STATUS_DONE OR NPU_STATUS_ERROR else 0),
      hw_perf_cycles = 0, hw_perf_inst = 0, hw_perf_mac = 0, hw_perf_stall = 0\<rparr>"

definition drv_quiet_hw :: drv_hw where
  "drv_quiet_hw = \<lparr>drv_hw_status = (\<lambda>k. 0),
     hw_perf_cycles = 0, hw_perf_inst = 0, hw_perf_mac = 0, hw_perf_stall = 0\<rparr>"

lemma fw_status_classes:
  "still_busy STATUS_BUSY" "wait_error (STATUS_DONE OR STATUS_ERROR)"
  by (simp_all add: still_busy_def wait_done_def wait_error_def STATUS_BUSY_def
      STATUS_DONE_def STATUS_ERROR_def)

lemma drv_status_classes:
  "drv_still_busy 0" "drv_wait_ok NPU_STATUS_IDLE"
  "drv_wait_error (NPU_STATUS_DONE OR NPU_STATUS_ERROR)"
  by (simp_all add: drv_still_busy_iff drv_wait_ok_def drv_wait_error_def NPU_STATUS_IDLE_def
      NPU_STATUS_DONE_def NPU_STATUS_ERROR_def)

lemma fw_running_state_reads: "status_reads fw_running_state = 0"
  by (simp add: fw_running_state_def npu_rt_start_def fw_idle_state_facts Let_def
      REG_WRITE_def REG_SET_def)

text \<open>
  Claim C7, as amended. With \<open>still_busy\<close>, \<open>wait_done\<close> and \<open>wait_error\<close> what one poll of
  the firmware makes of a status value (done: the done bit set and the error bit clear;
  error: the error bit set; an idle status alone is still busy), for every initialised
  context \<^verbatim>\<open>npu_rt_wait(timeout_us)\<close> polls the status register, counting 10 microseconds
  per poll that is still busy, and, for a timeout of 0 or of at most 4294967290:
  (1) when the first poll that is not still busy is made before the timeout and shows
  done, returns \<^verbatim>\<open>FW_OK\<close> right after that poll, with the state set to done and the
  performance statistics updated;
  (2) when that poll shows the error bit, returns \<^verbatim>\<open>FW_ERROR_HW_FAULT\<close> right after it,
  with the state set to error;
  (3) for a nonzero timeout, when the first \<open>polls_for timeout_us\<close> polls (the timeout
  divided by 10, rounded up) are all still busy, returns \<^verbatim>\<open>FW_ERROR_TIMEOUT\<close> after
  exactly that many polls;
  (4) with timeout 0 never returns \<^verbatim>\<open>FW_ERROR_TIMEOUT\<close>;
  (5) with timeout 0 does not return when every poll is still busy;
  (6) an idle status is still busy.
  The driver's \<^verbatim>\<open>wait_for_idle(timeout_ms)\<close> does the same with a timeout in milliseconds
  of 0 or at most 4294967 and 100 polls per millisecond, where a poll is a completion
  when it shows done or idle with the error bit clear, and an error when it shows the
  error bit: (7) \<^verbatim>\<open>NPU_OK\<close> with the state set to idle, (8) \<^verbatim>\<open>NPU_ERROR_HW_ERROR\<close> with
  the state set to error, (9) \<^verbatim>\<open>NPU_ERROR_TIMEOUT\<close> after \<open>100 * timeout_ms\<close> polls,
  (10) never \<^verbatim>\<open>NPU_ERROR_TIMEOUT\<close> with timeout 0, (11) no return with timeout 0 when
  every poll is still busy.
\<close>

theorem wait_polling_behaviour:
  "(g_initialized s \<and> (t = 0 \<or> unat t \<le> 4294967290) \<and> (t = 0 \<or> n < polls_for t)
      \<and> (\<forall>k < n. still_busy (hw_status hw (status_reads s + k)))
      \<and> wait_done (hw_status hw (status_reads s + n)) \<longrightarrow>
        npu_rt_wait hw t s = Some (FW_OK,
          update_perf_stats (s\<lparr>status_reads := Suc (status_reads s + n),
                               g_ctx := (g_ctx s)\<lparr>state := NPU_STATE_DONE\<rparr>\<rparr>)))
   \<and> (g_initialized s \<and> (t = 0 \<or> unat t \<le> 4294967290) \<and> (t = 0 \<or> n < polls_for t)
      \<and> (\<forall>k < n. still_busy (hw_status hw (status_reads s + k)))
      \<and> wait_error (hw_status hw (status_reads s + n)) \<longrightarrow>
        npu_rt_wait hw t s = Some (FW_ERROR_HW_FAULT,
          s\<lparr>status_reads := Suc (status_reads s + n),
            g_ctx := (g_ctx s)\<lparr>last_error := FW_ERROR_HW_FAULT, state := NPU_STATE_ERROR\<rparr>\<rparr>))
   \<and> (g_initialized s \<and> t \<noteq> 0 \<and> unat t \<le> 4294967290
      \<and> (\<forall>k < polls_for t. still_busy (hw_status hw (status_reads s + k))) \<longrightarrow>
        npu_rt_wait hw t s
          = Some (FW_ERROR_TIMEOUT, s\<lparr>status_reads := status_reads s + polls_for t\<rparr>))
   \<and> (g_initialized s \<longrightarrow> (\<forall>r. npu_rt_wait hw 0 s = Some r \<longrightarrow> fst r \<noteq> FW_ERROR_TIMEOUT))
   \<and> (g_initialized s \<and> (\<forall>k. still_busy (hw_status hw (status_reads s + k))) \<longrightarrow>
        npu_rt_wait hw 0 s = None)
   \<and> still_busy STATUS_IDLE
   \<and> ((tm = 0 \<or> unat tm \<le> 4294967) \<and> (tm = 0 \<or> m < 100 * unat tm)
      \<and> (\<forall>k < m. drv_still_busy (drv_hw_status dhw (drv_status_reads ctx + k)))
      \<and> drv_wait_ok (drv_hw_status dhw (drv_status_reads ctx + m)) \<longrightarrow>
        wait_for_idle dhw ctx tm
          = Some (NPU_OK, ctx\<lparr>drv_status_reads := Suc (drv_status_reads ctx + m),
                               drv_state := DRV_STATE_IDLE\<rparr>))
   \<and> ((tm = 0 \<or> unat tm \<le> 4294967) \<and> (tm = 0 \<or> m < 100 * unat tm)
      \<and> (\<forall>k < m. drv_still_busy (drv_hw_status dhw (drv_status_reads ctx + k)))
      \<and> drv_wait_error (drv_hw_status dhw (drv_status_reads ctx + m)) \<longrightarrow>
        wait_for_idle dhw ctx tm
          = Some (NPU_ERROR_HW_ERROR, ctx\<lparr>drv_status_reads := Suc (drv_status_reads ctx + m),
                                           drv_state := DRV_STATE_ERROR\<rparr>))
   \<and> (tm \<noteq> 0 \<and> unat tm \<le> 4294967
      \<and> (\<forall>k < 100 * unat tm. drv_still_busy (drv_hw_status dhw (drv_status_reads ctx + k))) \<longrightarrow>
        wait_for_idle dhw ctx tm
          = Some (NPU_ERROR_TIMEOUT,
                  ctx\<lparr>drv_status_reads := drv_status_reads ctx + 100 * unat tm\<rparr>))
   \<and> (\<forall>r. wait_for_idle dhw ctx 0 = Some r \<longrightarrow> fst r \<noteq> NPU_ERROR_TIMEOUT)
   \<and> ((\<forall>k. drv_still_busy (drv_hw_status dhw (drv_status_reads ctx + k))) \<longrightarrow>
        wait_for_idle dhw ctx 0 = None)"
proof (intro conjI impI allI)
  show "still_busy STATUS_IDLE" by (rule idle_is_still_busy)
qed (simp_all add: fw_wait_done_at fw_wait_error_at fw_wait_timeout fw_wait_forever_blocks
    fw_wait_forever_never_timeout drv_wait_ok_at drv_wait_error_at drv_wait_timeout
    drv_wait_forever_never_timeout drv_wait_forever_blocks)

theorem wait_polling_behaviour_witness:
  "g_initialized fw_running_state
   \<and> npu_rt_wait late_done_hw 30 fw_running_state
       = Some (FW_OK, update_perf_stats (fw_running_state\<lparr>status_reads := 3,
                 g_ctx := (g_ctx fw_running_state)\<lparr>state := NPU_STATE_DONE\<rparr>\<rparr>))
   \<and> npu_rt_wait late_error_hw 30 fw_running_state
       = Some (FW_ERROR_HW_FAULT, fw_running_state\<lparr>status_reads := 2,
                 g_ctx := (g_ctx fw_running_state)\<lparr>last_error := FW_ERROR_HW_FAULT,
                                                     state := NPU_STATE_ERROR\<rparr>\<rparr>)
   \<and> npu_rt_wait quiet_hw 30 fw_running_state
       = Some (FW_ERROR_TIMEOUT, fw_running_state\<lparr>status_reads := 3\<rparr>)
   \<and> npu_rt_wait late_done_hw 0 fw_running_state
       = Some (FW_OK, update_perf_stats (fw_running_state\<lparr>status_reads := 3,
                 g_ctx := (g_ctx fw_running_state)\<lparr>state := NPU_STATE_DONE\<rparr>\<rparr>))
   \<and> npu_rt_wait quiet_hw 0 fw_running_state = None
   \<and> wait_for_idle drv_late_idle_hw drv_running_ctx 1
       = Some (NPU_OK, drv_running_ctx\<lparr>drv_status_reads := 3, drv_state := DRV_STATE_IDLE\<rparr>)
   \<and> wait_for_idle drv_late_error_hw drv_running_ctx 1
       = Some (NPU_ERROR_HW_ERROR,
               drv_running_ctx\<lparr>drv_status_reads := 2, drv_state := DRV_STATE_ERROR\<rparr>)
   \<and> wait_for_idle drv_quiet_hw drv_running_ctx 1
       = Some (NPU_ERROR_TIMEOUT, drv_running_ctx\<lparr>drv_status_reads := 100\<rparr>)
   \<and> wait_for_idle drv_quiet_hw drv_running_ctx 0 = None"
proof -
  note T = wait_polling_behaviour
  have e2: "Suc (Suc 0) = 2" and e3: "Suc (Suc (Suc 0)) = 3" by simp_all
  have a: "g_initialized fw_running_state" by (rule fw_running_state_facts)
  note sr = fw_running_state_reads
  have dr: "drv_status_reads drv_running_ctx = 0" by (simp add: drv_running_ctx_def)
  have q: "\<And>k. still_busy (hw_status quiet_hw k)"
    by (simp add: quiet_hw_def still_busy_0)
  have dq: "\<And>k. drv_still_busy (drv_hw_status drv_quiet_hw k)"
    by (simp add: drv_quiet_hw_def drv_status_classes)
  from T [where s = fw_running_state and hw = late_done_hw and t = 30 and n = 2,
      THEN conjunct1] a
  have 1: "npu_rt_wait late_done_hw 30 fw_running_state
       = Some (FW_OK, update_perf_stats (fw_running_state\<lparr>status_reads := 3,
                 g_ctx := (g_ctx fw_running_state)\<lparr>state := NPU_STATE_DONE\<rparr>\<rparr>))"
    by (simp add: sr late_done_hw_def polls_for_30 fw_status_classes wait_done_STATUS_DONE e2 e3)
  from T [where s = fw_running_state and hw = late_error_hw and t = 30 and n = 1,
      THEN conjunct2, THEN conjunct1] a
  have 2: "npu_rt_wait late_error_hw 30 fw_running_state
       = Some (FW_ERROR_HW_FAULT, fw_running_state\<lparr>status_reads := 2,
                 g_ctx := (g_ctx fw_running_state)\<lparr>last_error := FW_ERROR_HW_FAULT,
                                                     state := NPU_STATE_ERROR\<rparr>\<rparr>)"
    by (simp add: sr late_error_hw_def polls_for_30 fw_status_classes e2 e3)
  from T [where s = fw_running_state and hw = quiet_hw and t = 30,
      THEN conjunct2, THEN conjunct2, THEN conjunct1] a q
  have 3: "npu_rt_wait quiet_hw 30 fw_running_state
       = Some (FW_ERROR_TIMEOUT, fw_running_state\<lparr>status_reads := 3\<rparr>)"
    by (simp add: sr polls_for_30)
  from T [where s = fw_running_state and hw = late_done_hw and t = 0 and n = 2,
      THEN conjunct1] a
  have 4: "npu_rt_wait late_done_hw 0 fw_running_state
       = Some (FW_OK, update_perf_stats (fw_running_state\<lparr>status_reads := 3,
                 g_ctx := (g_ctx fw_running_state)\<lparr>state := NPU_STATE_DONE\<rparr>\<rparr>))"
    by (simp add: sr late_done_hw_def fw_status_classes wait_done_STATUS_DONE e2 e3)
  from T [where s = fw_running_state and hw = quiet_hw,
      THEN conjunct2, THEN conjunct2, THEN conjunct2, THEN conjunct2, THEN conjunct1] a q
  have 5: "npu_rt_wait quiet_hw 0 fw_running_state = None"
    by simp
  from T [where ctx = drv_running_ctx and dhw = drv_late_idle_hw and tm = 1 and m = 2,
      THEN conjunct2, THEN conjunct2, THEN conjunct2,
      THEN conjunct2, THEN conjunct2, THEN conjunct2, THEN conjunct1]
  have 6: "wait_for_idle drv_late_idle_hw drv_running_ctx 1
       = Some (NPU_OK, drv_running_ctx\<lparr>drv_status_reads := 3, drv_state := DRV_STATE_IDLE\<rparr>)"
    by (simp add: dr drv_late_idle_hw_def drv_status_classes e2 e3)
  from T [where ctx = drv_running_ctx and dhw = drv_late_error_hw and tm = 1 and m = 1,
      THEN conjunct2, THEN conjunct2, THEN conjunct2,
      THEN conjunct2, THEN conjunct2, THEN conjunct2, THEN conjunct2, THEN conjunct1]
  have 7: "wait_for_idle drv_late_error_hw drv_running_ctx 1
       = Some (NPU_ERROR_HW_ERROR,
               drv_running_ctx\<lparr>drv_status_reads := 2, drv_state := DRV_STATE_ERROR\<rparr>)"
    by (simp add: dr drv_late_error_hw_def drv_status_classes e2 e3)
  from T [where ctx = drv_running_ctx and dhw = drv_quiet_hw and tm = 1,
      THEN conjunct2, THEN conjunct2, THEN conjunct2,
      THEN conjunct2, THEN conjunct2, THEN conjunct2, THEN conjunct2, THEN conjunct2, THEN conjunct1] dq
  have 8: "wait_for_idle drv_quiet_hw drv_running_ctx 1
       = Some (NPU_ERROR_TIMEOUT, drv_running_ctx\<lparr>drv_status_reads := 100\<rparr>)"
    by (simp add: dr)
  from T [where ctx = drv_running_ctx and dhw = drv_quiet_hw,
      THEN conjunct2, THEN conjunct2, THEN conjunct2,
      THEN conjunct2, THEN conjunct2, THEN conjunct2, THEN conjunct2, THEN conjunct2, THEN conjunct2, THEN conjunct2] dq
  have 9: "wait_for_idle drv_quiet_hw drv_running_ctx 0 = None"
    by simp
  from a 1 2 3 4 5 6 7 8 9 show ?thesis by simp
qed


section \<open>Model header validation\<close>

lemma fw_bad_header_rejected:
  assumes "g_initialized s"
    and "magic (read_header (ptr_bytes model_data)) \<noteq> MODEL_MAGIC
         \<or> version (read_header (ptr_bytes model_data)) > MODEL_VERSION"
  shows "npu_rt_load_model hw model_data model_size s = Some (FW_ERROR_INVALID_PARAM, s)"
  using assms by (auto simp: npu_rt_load_model_def Let_def)

lemma rt_load_memory_rejects_bad_magic:
  assumes "rt_magic (read_npu_model_header (ptr_bytes data)) \<noteq> NPU_MODEL_MAGIC"
  shows "npu_model_load_memory env (Some rt) data sz = (None, Some rt)"
  using assms by (simp add: npu_model_load_memory_def Let_def)

text \<open>
  Model images for the examples. A firmware image: the 32-byte header (magic with a
  chosen low byte, version with a chosen high byte, 1 layer, 4 weight bytes, 2
  instructions), then the two instructions and the four weight bytes. A host-runtime
  image: the 64-byte header (magic with a chosen low byte, a chosen version, 2
  instructions, 16 instruction bytes, 4 weight bytes, no bias), then the same payload.
\<close>

definition bytes_of :: "u8 list \<Rightarrow> nat \<Rightarrow> u8" where
  "bytes_of bs i = (if i < length bs then bs ! i else 0)"

definition model_payload :: "u8 list" where
  "model_payload = [0x01, 0x02, 0x03, 0x04, 0x05, 0x06, 0x07, 0x08,
                    0x09, 0x0A, 0x0B, 0x0C, 0x0D, 0x0E, 0x0F, 0x10,
                    0xA1, 0xA2, 0xA3, 0xA4]"

definition fw_model_image :: "u8 \<Rightarrow> u8 \<Rightarrow> byte_ptr" where
  "fw_model_image m0 v1 = \<lparr>ptr_addr = 0x20000000, ptr_bytes = bytes_of
     ([m0, 0x55, 0x50, 0x4E, 0x00, v1, 0x01, 0x00, 0x04, 0, 0, 0, 0x02, 0, 0, 0,
       0, 0, 0, 0, 0, 0, 0, 0, 0, 0, 0, 0, 0, 0, 0, 0] @ model_payload)\<rparr>"

definition rt_model_image :: "u8 \<Rightarrow> u8 \<Rightarrow> byte_ptr" where
  "rt_model_image m0 v1 = \<lparr>ptr_addr = 0x20000000, ptr_bytes = bytes_of
     ([m0, 0x4E, 0x50, 0x55, 0x00, v1, 0, 0, 0x02, 0, 0, 0, 0x10, 0, 0, 0,
       0x04, 0, 0, 0, 0, 0, 0, 0, 0, 0, 0, 0, 0, 0, 0, 0,
       0, 0, 0, 0, 0, 0, 0, 0, 0, 0, 0, 0, 0, 0, 0, 0,
       0, 0, 0, 0, 0, 0, 0, 0, 0, 0, 0, 0, 0, 0, 0, 0] @ model_payload)\<rparr>"

definition valid_model :: byte_ptr where "valid_model = fw_model_image 0x45 0x01"
definition corrupt_model :: byte_ptr where "corrupt_model = fw_model_image 0x46 0x01"
definition newer_model :: byte_ptr where "newer_model = fw_model_image 0x45 0x02"

definition rt_valid_model :: byte_ptr where "rt_valid_model = rt_model_image 0x45 0x01"
definition rt_corrupt_model :: byte_ptr where "rt_corrupt_model = rt_model_image 0x46 0x01"
definition rt_newer_model :: byte_ptr where "rt_newer_model = rt_model_image 0x45 0x02"

definition example_runtime :: npu_runtime where
  "example_runtime = \<lparr>rt_config = \<lparr>max_models = 2, rt_workspace_size = 1048576,
       enable_profiling = False, enable_debug = False\<rparr>,
     models = [None, None], num_models = 0, rt_initialized = True\<rparr>"

definition heap_ok :: heap_env where
  "heap_ok = \<lparr>calloc_model_ok = True, malloc_instructions_ok = True,
     malloc_weights_ok = True, malloc_bias_ok = True\<rparr>"

lemma fw_image_header:
  "read_header (ptr_bytes (fw_model_image m0 v1))
     = \<lparr>magic = ucast m0 OR 0x4E505500, version = push_bit 8 (ucast v1), num_layers = 1,
        hdr_weight_size = 4, hdr_inst_count = 2, input_size = 0, output_size = 0,
        workspace_size = 0, checksum = 0\<rparr>"
  by (simp add: fw_model_image_def read_header_def le32_def le16_def bytes_of_def
      model_payload_def or.assoc)

lemma rt_image_header:
  "read_npu_model_header (ptr_bytes (rt_model_image m0 v1))
     = \<lparr>rt_magic = ucast m0 OR 0x55504E00, rt_version = push_bit 8 (ucast v1),
        hdr_num_instructions = 2, hdr_instructions_size = 16, hdr_weights_size = 4,
        hdr_bias_size = 0, hdr_input_size = 0, hdr_output_size = 0\<rparr>"
  by (simp add: rt_model_image_def read_npu_model_header_def le32_def bytes_of_def
      model_payload_def or.assoc)


lemma fw_images:
  "magic (read_header (ptr_bytes valid_model)) = MODEL_MAGIC"
  "version (read_header (ptr_bytes valid_model)) = MODEL_VERSION"
  "magic (read_header (ptr_bytes corrupt_model)) = 0x4E505546"
  "version (read_header (ptr_bytes corrupt_model)) = MODEL_VERSION"
  "magic (read_header (ptr_bytes newer_model)) = MODEL_MAGIC"
  "version (read_header (ptr_bytes newer_model)) = 0x0200"
  "hdr_inst_count (read_header (ptr_bytes (fw_model_image m0 v1))) = 2"
  "hdr_weight_size (read_header (ptr_bytes (fw_model_image m0 v1))) = 4"
  "num_layers (read_header (ptr_bytes (fw_model_image m0 v1))) = 1"
  "ptr_addr (fw_model_image m0 v1) = 0x20000000"
  by (simp_all add: valid_model_def corrupt_model_def newer_model_def fw_image_header
      MODEL_MAGIC_def MODEL_VERSION_def)
    (simp add: fw_model_image_def)

lemma rt_images:
  "rt_magic (read_npu_model_header (ptr_bytes rt_valid_model)) = NPU_MODEL_MAGIC"
  "rt_magic (read_npu_model_header (ptr_bytes rt_corrupt_model)) = 0x55504E46"
  "rt_magic (read_npu_model_header (ptr_bytes rt_newer_model)) = NPU_MODEL_MAGIC"
  "rt_version (read_npu_model_header (ptr_bytes rt_newer_model)) = 0x0200"
  "hdr_num_instructions (read_npu_model_header (ptr_bytes (rt_model_image m0 v1))) = 2"
  "hdr_weights_size (read_npu_model_header (ptr_bytes (rt_model_image m0 v1))) = 4"
  "hdr_bias_size (read_npu_model_header (ptr_bytes (rt_model_image m0 v1))) = 0"
  "ptr_addr (rt_model_image m0 v1) = 0x20000000"
  by (simp_all add: rt_valid_model_def rt_corrupt_model_def rt_newer_model_def rt_image_header
      NPU_MODEL_MAGIC_def)
    (simp add: rt_model_image_def)

lemma fw_image_payload:
  "le64 (ptr_bytes (ptr_add (fw_model_image m0 v1) sizeof_model_header)) 0
     = 0x0807060504030201"
  "le64 (ptr_bytes (ptr_add (fw_model_image m0 v1) sizeof_model_header)) 8
     = 0x100F0E0D0C0B0A09"
  "ptr_bytes (ptr_add (ptr_add (fw_model_image m0 v1) sizeof_model_header) 16) 0 = 0xA1"
  "ptr_bytes (ptr_add (ptr_add (fw_model_image m0 v1) sizeof_model_header) 16) 3 = 0xA4"
  by (simp_all add: fw_model_image_def ptr_add_def sizeof_model_header_def le64_def le32_def
      bytes_of_def model_payload_def)

text \<open>
  The image with the right magic and version loads on an idle firmware: its two
  instructions and four weight bytes are copied and the size registers written.
\<close>

lemma valid_model_loads:
  "\<exists>s'. npu_rt_load_model quiet_hw valid_model 52 fw_idle_state = Some (FW_OK, s')
        \<and> inst_mem s' 0 = 0x0807060504030201 \<and> inst_mem s' 1 = 0x100F0E0D0C0B0A09
        \<and> weight_mem s' NPU_WEIGHT_BUF_BASE = 0xA1
        \<and> weight_mem s' (NPU_WEIGHT_BUF_BASE + 3) = 0xA4
        \<and> regs s' REG_INST_SIZE = 2 \<and> regs s' REG_WEIGHT_SIZE = 4
        \<and> inst_count (g_ctx s') = 2"
proof -
  let ?h = "read_header (ptr_bytes valid_model)"
  let ?data = "ptr_add valid_model sizeof_model_header"
  let ?s1 = "fw_idle_state\<lparr>g_ctx := (g_ctx fw_idle_state)\<lparr>total_layers := 1, inst_count := 2\<rparr>\<rparr>"
  let ?li = "npu_rt_load_instructions (Some (\<lambda>i. le64 (ptr_bytes ?data) (8 * i))) 2 ?s1"
  have li: "fst ?li = FW_OK" "g_initialized (snd ?li)" "g_config (snd ?li) = example_config"
    "inst_mem (snd ?li) 0 = 0x0807060504030201" "inst_mem (snd ?li) 1 = 0x100F0E0D0C0B0A09"
    "regs (snd ?li) REG_INST_SIZE = 2" "inst_count (g_ctx (snd ?li)) = 2"
    using fw_image_payload(1,2) [of "0x45" "0x01"]
    by (simp_all add: npu_rt_load_instructions_def fw_idle_state_facts NPU_INST_BUF_ENTRIES_def
        Let_def REG_WRITE_def copy_instructions_nth REG_INST_SIZE_def REG_INST_PTR_def
        NPU_BASE_def valid_model_def)
  let ?lw = "npu_rt_load_weights quiet_hw (ptr_add ?data (2 * 8)) 4 0 (snd ?li)"
  have a: "ptr_addr (ptr_add ?data (2 * 8)) \<noteq> 0"
    by (simp add: ptr_add_def valid_model_def fw_images sizeof_model_header_def)
  have lw: "?lw = Some (FW_OK, REG_WRITE REG_WEIGHT_SIZE 4
      ((snd ?li)\<lparr>weight_mem := store_bytes (ptr_bytes (ptr_add ?data (2 * 8)))
         NPU_WEIGHT_BUF_BASE 4 (weight_mem (snd ?li))\<rparr>))"
    using a li(2,3) by (simp add: npu_rt_load_weights_def example_config_def Let_def)
  have lm: "npu_rt_load_model quiet_hw valid_model 52 fw_idle_state = ?lw"
    using li(1)
    by (simp add: npu_rt_load_model_def fw_idle_state_facts fw_images valid_model_def
        sizeof_model_header_def Let_def case_prod_beta MODEL_MAGIC_def MODEL_VERSION_def
        fw_image_header)
  have w: "weight_mem (snd (the ?lw)) NPU_WEIGHT_BUF_BASE = 0xA1"
    "weight_mem (snd (the ?lw)) (NPU_WEIGHT_BUF_BASE + 3) = 0xA4"
    unfolding lw using fw_image_payload(3,4) [of "0x45" "0x01"]
    by (simp_all add: REG_WRITE_def store_bytes_at valid_model_def)
  have r: "inst_mem (snd (the ?lw)) 0 = 0x0807060504030201"
    "inst_mem (snd (the ?lw)) 1 = 0x100F0E0D0C0B0A09"
    "regs (snd (the ?lw)) REG_INST_SIZE = 2" "regs (snd (the ?lw)) REG_WEIGHT_SIZE = 4"
    "inst_count (g_ctx (snd (the ?lw))) = 2"
    unfolding lw using li(4-7)
    by (simp_all add: REG_WRITE_def REG_WEIGHT_SIZE_def REG_INST_SIZE_def NPU_BASE_def)
  from lw obtain s' where "?lw = Some (FW_OK, s')" by blast
  with lm w r show ?thesis by simp
qed

text \<open>
  The host runtime does not look at the version field: an image with the right magic and
  version 0x0200 is loaded into the first free slot like one with version 0x0100.
\<close>

lemma rt_loads_any_version:
  "fst (npu_model_load_memory heap_ok (Some example_runtime) rt_valid_model 84) = Some 0"
  "fst (npu_model_load_memory heap_ok (Some example_runtime) rt_newer_model 84) = Some 0"
  by (simp_all add: npu_model_load_memory_def rt_images rt_valid_model_def rt_newer_model_def
      sizeof_npu_model_header_def Let_def allocate_model_slot_def example_runtime_def
      heap_ok_def upt_0_2 NPU_MODEL_MAGIC_def rt_image_header)


text \<open>
  Claim C8, as amended. For every initialised context and every model buffer whose
  header magic differs from \<^verbatim>\<open>MODEL_MAGIC\<close> or whose header version is greater than
  \<^verbatim>\<open>MODEL_VERSION\<close>, the firmware's \<^verbatim>\<open>npu_rt_load_model\<close> returns the invalid-parameter
  error \<^verbatim>\<open>FW_ERROR_INVALID_PARAM\<close> and leaves the whole machine state as it was: nothing
  is copied to the instruction or weight buffer, no register is written, and the
  context is not touched. For every model buffer whose header magic differs from
  \<^verbatim>\<open>NPU_MODEL_MAGIC\<close>, the host runtime's \<^verbatim>\<open>npu_model_load_memory\<close> returns \<^verbatim>\<open>NULL\<close> and
  leaves the runtime as it was: no slot is taken and nothing is allocated or copied.
\<close>

theorem load_model_rejects_bad_header:
  "(g_initialized s
      \<and> (magic (read_header (ptr_bytes model_data)) \<noteq> MODEL_MAGIC
         \<or> version (read_header (ptr_bytes model_data)) > MODEL_VERSION) \<longrightarrow>
      npu_rt_load_model hw model_data model_size s = Some (FW_ERROR_INVALID_PARAM, s))
   \<and> (rt_magic (read_npu_model_header (ptr_bytes data)) \<noteq> NPU_MODEL_MAGIC \<longrightarrow>
      npu_model_load_memory env (Some rt) data sz = (None, Some rt))"
  using fw_bad_header_rejected [of s model_data hw model_size]
    rt_load_memory_rejects_bad_magic [of data env rt sz]
  by blast

theorem load_model_rejects_bad_header_witness:
  "g_initialized fw_idle_state
   \<and> hdr_inst_count (read_header (ptr_bytes corrupt_model)) = 2
   \<and> hdr_weight_size (read_header (ptr_bytes corrupt_model)) = 4
   \<and> npu_rt_load_model quiet_hw corrupt_model 52 fw_idle_state
       = Some (FW_ERROR_INVALID_PARAM, fw_idle_state)
   \<and> hdr_inst_count (read_header (ptr_bytes newer_model)) = 2
   \<and> hdr_weight_size (read_header (ptr_bytes newer_model)) = 4
   \<and> npu_rt_load_model quiet_hw newer_model 52 fw_idle_state
       = Some (FW_ERROR_INVALID_PARAM, fw_idle_state)
   \<and> fst (the (npu_rt_load_model quiet_hw valid_model 52 fw_idle_state)) = FW_OK
   \<and> hdr_num_instructions (read_npu_model_header (ptr_bytes rt_corrupt_model)) = 2
   \<and> npu_model_load_memory heap_ok (Some example_runtime) rt_corrupt_model 84
       = (None, Some example_runtime)
   \<and> fst (npu_model_load_memory heap_ok (Some example_runtime) rt_valid_model 84) = Some 0"
proof -
  note T = load_model_rejects_bad_header
  have a: "g_initialized fw_idle_state" by (rule fw_idle_state_facts)
  from T [where s = fw_idle_state and model_data = corrupt_model and hw = quiet_hw
      and model_size = 52, THEN conjunct1] a
  have 1: "npu_rt_load_model quiet_hw corrupt_model 52 fw_idle_state
       = Some (FW_ERROR_INVALID_PARAM, fw_idle_state)"
    by (simp add: fw_images MODEL_MAGIC_def)
  from T [where s = fw_idle_state and model_data = newer_model and hw = quiet_hw
      and model_size = 52, THEN conjunct1] a
  have 2: "npu_rt_load_model quiet_hw newer_model 52 fw_idle_state
       = Some (FW_ERROR_INVALID_PARAM, fw_idle_state)"
    by (simp add: fw_images MODEL_VERSION_def)
  from T [where data = rt_corrupt_model and env = heap_ok and rt = example_runtime
      and sz = 84, THEN conjunct2]
  have 3: "npu_model_load_memory heap_ok (Some example_runtime) rt_corrupt_model 84
       = (None, Some example_runtime)"
    by (simp add: rt_images NPU_MODEL_MAGIC_def)
  from valid_model_loads
  have 4: "fst (the (npu_rt_load_model quiet_hw valid_model 52 fw_idle_state)) = FW_OK"
    by auto
  have 5: "hdr_inst_count (read_header (ptr_bytes corrupt_model)) = 2"
    "hdr_weight_size (read_header (ptr_bytes corrupt_model)) = 4"
    "hdr_inst_count (read_header (ptr_bytes newer_model)) = 2"
    "hdr_weight_size (read_header (ptr_bytes newer_model)) = 4"
    "hdr_num_instructions (read_npu_model_header (ptr_bytes rt_corrupt_model)) = 2"
    by (simp_all add: corrupt_model_def newer_model_def rt_corrupt_model_def fw_images rt_images)
  from a 1 2 3 4 5 rt_loads_any_version(1) show ?thesis by simp
qed

text \<open>
  The error returned for a corrupted magic number is the invalid-parameter code, not a
  code of the invalid model/operation kind (\<^verbatim>\<open>FW_ERROR_INVALID_OP\<close> in \<^verbatim>\<open>fw_status_t\<close>).
\<close>

theorem load_model_error_kind_counterexample:
  "magic (read_header (ptr_bytes corrupt_model)) = 0x4E505546
   \<and> MODEL_MAGIC = 0x4E505545
   \<and> fst (the (npu_rt_load_model quiet_hw corrupt_model 52 fw_idle_state))
       = FW_ERROR_INVALID_PARAM
   \<and> fst (the (npu_rt_load_model quiet_hw corrupt_model 52 fw_idle_state))
       \<noteq> FW_ERROR_INVALID_OP"
proof -
  have "ptr_addr corrupt_model \<noteq> 0" by (simp add: corrupt_model_def fw_images)
  then show ?thesis
    by (simp add: npu_rt_load_model_def fw_idle_state_facts fw_images Let_def
        sizeof_model_header_def MODEL_MAGIC_def)
qed


end
